(* ===== verification/Prelude.thy ===== *)
theory Prelude
  imports Main "HOL-Library.Word"
begin

text \<open>
  Shared vocabulary of the development: the C integer types as machine words, pointers into
  constant buffers, C strings, the wrap-around clock test, the choice of the earliest timer and
  the heap oracle, with the generic lemmas the component theories use.
\<close>

unbundle bit_operations_syntax

named_theorems tb_simps \<open>unfolding rules of the small helper functions\<close>
named_theorems tb_inv \<open>an operation preserves a component's invariant\<close>

section \<open>Integers\<close>

type_synonym u8 = "8 word"
type_synonym u16 = "16 word"
type_synonym u32 = "32 word"
type_synonym u64 = "64 word"

text \<open>
  \<open>uint8_t\<close>, \<open>uint16_t\<close>, \<open>uint32_t\<close> and \<open>uint64_t\<close> are words. \<open>size_t\<close> counts bytes of
  objects that exist in memory and is a natural number; a value that a signed integer variable
  holds is an \<open>int\<close> and carries a range lemma where the range matters.
\<close>

lemma unat_u8_less [simp]: "unat (w :: u8) < 256"
  using unsigned_less [of w, where ?'a = nat] by simp

lemma unat_u16_less [simp]: "unat (w :: u16) < 65536"
  using unsigned_less [of w, where ?'a = nat] by simp

lemma unat_u32_less [simp]: "unat (w :: u32) < 4294967296"
  using unsigned_less [of w, where ?'a = nat] by simp

lemma unat_u64_less [simp]: "unat (w :: u64) < 18446744073709551616"
  using unsigned_less [of w, where ?'a = nat] by simp

lemma unat_u8_le [simp]: "unat (w :: u8) \<le> 255"
  using unat_u8_less [of w] by linarith

lemma unat_u16_le [simp]: "unat (w :: u16) \<le> 65535"
  using unat_u16_less [of w] by linarith

lemma unat_plus_no_wrap:
  assumes "unat (a :: 'a::len word) + unat b < 2 ^ LENGTH('a)"
  shows "unat (a + b) = unat a + unat b"
  using assms by (simp add: unat_word_ariths)

lemma unat_plus_u16:
  "unat (a :: u16) + unat b < 65536 \<Longrightarrow> unat (a + b) = unat a + unat b"
  using unat_plus_no_wrap [of a b] by simp

lemma unat_minus_u16:
  "unat (b :: u16) \<le> unat a \<Longrightarrow> unat (a - b) = unat a - unat b"
  by (simp add: unat_sub word_le_nat_alt)

lemma unat_of_nat_u16 [simp]: "n < 65536 \<Longrightarrow> unat (of_nat n :: u16) = n"
  by (simp add: unat_of_nat take_bit_nat_eq_self_iff)

lemma unat_of_nat_u8 [simp]: "n < 256 \<Longrightarrow> unat (of_nat n :: u8) = n"
  by (simp add: unat_of_nat take_bit_nat_eq_self_iff)

lemma unat_numeral_u8_48: "unat (48 :: u8) = 48"
  by simp

lemma unat_of_nat_u32 [simp]: "n < 4294967296 \<Longrightarrow> unat (of_nat n :: u32) = n"
  by (simp add: unat_of_nat take_bit_nat_eq_self_iff)

section \<open>Buffers, spans and C strings\<close>

text \<open>
  A \<open>const uint8_t *\<close> is the list of the bytes from the address it holds to the end of the
  object it points into; pointer arithmetic \<open>p + n\<close> is \<open>drop n p\<close> and \<open>p[n]\<close> is \<open>p ! n\<close>.
  The null pointer is the empty list: every place of the program that tests a pointer for null
  then uses length zero.

  A \<open>char\<close> array or a \<open>const char *\<close> holding a C string is the list of its bytes before the
  terminating zero; \<open>cstr\<close> is what the string functions see of a run of bytes that may contain
  a zero itself.
\<close>

type_synonym bytes = "u8 list"
type_synonym cstring = "u8 list"

definition cstr :: "bytes \<Rightarrow> cstring" where
  "cstr bs = takeWhile (\<lambda>b. b \<noteq> 0) bs"

lemma cstr_no_nul [simp]: "0 \<notin> set (cstr bs)"
  unfolding cstr_def by (auto dest: set_takeWhileD)

lemma cstr_id: "0 \<notin> set bs \<Longrightarrow> cstr bs = bs"
  unfolding cstr_def by (rule takeWhile_eq_all_conv [THEN iffD2]) auto

lemma cstr_Nil [simp]: "cstr [] = []"
  by (simp add: cstr_def)

lemma length_cstr: "length (cstr bs) \<le> length bs"
  by (simp add: cstr_def length_takeWhile_le)

lemma cstr_idem [simp]: "cstr (cstr bs) = cstr bs"
  by (simp add: cstr_id)

text \<open>\<open>strncpy(out, value, n - 1)\<close> into a zeroed or afterwards terminated array of \<open>size\<close> bytes.\<close>

definition strncpy :: "nat \<Rightarrow> cstring \<Rightarrow> cstring" where
  "strncpy n s = take (n - 1) (cstr s)"

lemma length_strncpy: "length (strncpy n s) \<le> n - 1"
  by (simp add: strncpy_def)

lemma strncpy_less [simp]: "0 < n \<Longrightarrow> length (strncpy n s) < n"
  using length_strncpy [of n s] by linarith

lemma strncpy_fits: "0 \<notin> set s \<Longrightarrow> length s < n \<Longrightarrow> strncpy n s = s"
  by (simp add: strncpy_def cstr_id)

section \<open>Time\<close>

text \<open>
  Milliseconds are a wrapping \<open>uint32_t\<close>. A deadline has passed when the signed difference
  \<open>(int32_t)(now - deadline)\<close> is not negative.
\<close>

definition reached :: "u32 \<Rightarrow> u32 \<Rightarrow> bool" where
  "reached now deadline \<longleftrightarrow> 0 \<le> sint (now - deadline)"

lemma reached_refl [simp]: "reached t t"
  by (simp add: reached_def)

lemma reached_iff_unat: "reached now deadline \<longleftrightarrow> unat (now - deadline) < 2147483648"
proof -
  define d where "d = uint (now - deadline)"
  have d: "0 \<le> d" "d < 4294967296"
    using uint_lt2p [of "now - deadline"] by (simp_all add: d_def)
  have s: "sint (now - deadline) = (d + 2147483648) mod 4294967296 - 2147483648"
    by (simp add: sint_uint d_def signed_take_bit_eq_take_bit_shift take_bit_eq_mod)
  have "reached now deadline \<longleftrightarrow> d < 2147483648"
  proof (cases "d < 2147483648")
    case True
    with d have "(d + 2147483648) mod 4294967296 = d + 2147483648" by simp
    with True d s show ?thesis by (simp add: reached_def)
  next
    case False
    with d have "(d - 2147483648) mod 4294967296 = d - 2147483648" by simp
    then have "((d - 2147483648) + 4294967296) mod 4294967296 = d - 2147483648"
      by (simp only: mod_add_self2)
    then have "(d + 2147483648) mod 4294967296 = d - 2147483648"
      by (simp add: algebra_simps)
    with s have "sint (now - deadline) = d - 4294967296" by simp
    with False d(2) show ?thesis unfolding reached_def by linarith
  qed
  moreover have "d = int (unat (now - deadline))"
    by (simp add: d_def)
  ultimately show ?thesis by linarith
qed

text \<open>How long a timer for \<open>deadline\<close> has still to run at time \<open>now\<close>.\<close>

definition remaining :: "u32 \<Rightarrow> u32 \<Rightarrow> u32" where
  "remaining now deadline = (if reached now deadline then 0 else deadline - now)"

text \<open>
  The loop \<open>if (!any || remaining < earliest) { earliest = remaining; any = true; }\<close> that the
  request layer, the history view and the notification queue share; \<open>None\<close> is \<open>any == false\<close>.
\<close>

fun earliest_from :: "u32 option \<Rightarrow> u32 list \<Rightarrow> u32 option" where
  "earliest_from best [] = best"
| "earliest_from best (r # rs) =
     earliest_from (case best of None \<Rightarrow> Some r | Some e \<Rightarrow> Some (if r < e then r else e)) rs"

definition earliest :: "u32 list \<Rightarrow> u32 option" where
  "earliest rs = earliest_from None rs"

lemma earliest_from_Some:
  "earliest_from (Some e) rs = Some (Min (set (e # rs)))"
proof (induction rs arbitrary: e)
  case (Cons r rs)
  have "(if r < e then r else e) = min e r" by (auto simp: min_def)
  then show ?case
    by (cases "rs = []") (simp_all add: Cons.IH min.assoc [symmetric] Min_insert insert_commute)
qed simp

lemma earliest_Nil [simp]: "earliest [] = None"
  by (simp add: earliest_def)

lemma earliest_Cons: "earliest (r # rs) = Some (Min (set (r # rs)))"
  by (simp add: earliest_def earliest_from_Some)

lemma earliest_eq: "earliest rs = (if rs = [] then None else Some (Min (set rs)))"
  by (cases rs) (simp_all add: earliest_Cons)

section \<open>The heap\<close>

text \<open>
  Whether an allocation succeeds is up to the platform's heap: a \<open>heap\<close> numbers the requests
  and an oracle answers each of them. Every theorem holds for every oracle.
\<close>

record heap =
  requests_made :: nat
  grants :: "nat \<Rightarrow> nat \<Rightarrow> bool"

definition malloc :: "heap \<Rightarrow> nat \<Rightarrow> bool \<times> heap" where
  "malloc h n = (grants h (requests_made h) n, h\<lparr>requests_made := Suc (requests_made h)\<rparr>)"

section \<open>Lists\<close>

lemma find_upt_None_iff: "List.find P [0..<n] = None \<longleftrightarrow> (\<forall>i<n. \<not> P i)"
  by (auto simp: find_None_iff)

lemma find_upt_SomeD:
  assumes "List.find P [0..<n] = Some i"
  shows "i < n" and "P i" and "\<forall>j<i. \<not> P j"
proof -
  from assms obtain k where k: "k < length [0..<n]" "P ([0..<n] ! k)" "i = [0..<n] ! k"
    "\<forall>j<k. \<not> P ([0..<n] ! j)"
    by (auto simp: find_Some_iff)
  then show "i < n" "P i" "\<forall>j<i. \<not> P j" by auto
qed

lemma take_drop_append_drop: "take n (drop m xs) @ drop (m + n) xs = drop m xs"
  by (metis add.commute append_take_drop_id drop_drop)

lemma append_split_at:
  assumes "xs @ ys = zs" and "length xs = n"
  shows "xs = take n zs" and "ys = drop n zs"
  using assms by auto

lemma distinct_map_filter_nth:
  assumes "\<And>i j. i < length xs \<Longrightarrow> j < length xs \<Longrightarrow> P (xs ! i) \<Longrightarrow> P (xs ! j) \<Longrightarrow>
     f (xs ! i) = f (xs ! j) \<Longrightarrow> i = j"
  shows "distinct (map f (filter P xs))"
  using assms
proof (induction xs)
  case (Cons x xs)
  have "distinct (map f (filter P xs))"
    using Cons.prems [of "Suc _" "Suc _"] by (intro Cons.IH) simp
  moreover have "f x \<notin> f ` {y \<in> set xs. P y}" if "P x"
  proof
    assume "f x \<in> f ` {y \<in> set xs. P y}"
    then obtain j where "j < length xs" "P (xs ! j)" "f x = f (xs ! j)"
      by (auto simp: in_set_conv_nth)
    then show False using Cons.prems [of 0 "Suc j"] that by simp
  qed
  ultimately show ?case by auto
qed simp

end
