(* ===== verification/Protocol.thy ===== *)
theory Protocol
  imports Prelude
begin

text \<open>
  The wire constants of \<^verbatim>\<open>app/protocol/appmessage.json\<close>, from which the build writes
  \<^verbatim>\<open>generated/protocol.h\<close>, and the local error codes of \<^verbatim>\<open>errors.h\<close>. They are
  abbreviations: the C preprocessor replaces them too.
\<close>

section \<open>Requests, records and page operations\<close>

abbreviation (input) TB_REQUEST_BOOTSTRAP :: u8 where "TB_REQUEST_BOOTSTRAP \<equiv> 1"
abbreviation (input) TB_REQUEST_HELLO :: u8 where "TB_REQUEST_HELLO \<equiv> 2"
abbreviation (input) TB_REQUEST_CHATS :: u8 where "TB_REQUEST_CHATS \<equiv> 3"
abbreviation (input) TB_REQUEST_HISTORY :: u8 where "TB_REQUEST_HISTORY \<equiv> 4"
abbreviation (input) TB_REQUEST_MESSAGE :: u8 where "TB_REQUEST_MESSAGE \<equiv> 5"
abbreviation (input) TB_REQUEST_VIEW_CLOSE :: u8 where "TB_REQUEST_VIEW_CLOSE \<equiv> 6"
abbreviation (input) TB_REQUEST_SET_DEFAULT :: u8 where "TB_REQUEST_SET_DEFAULT \<equiv> 7"
abbreviation (input) TB_REQUEST_EVENTS :: u8 where "TB_REQUEST_EVENTS \<equiv> 8"
abbreviation (input) TB_REQUEST_TEMPLATES :: u8 where "TB_REQUEST_TEMPLATES \<equiv> 9"
abbreviation (input) TB_REQUEST_DRAFT :: u8 where "TB_REQUEST_DRAFT \<equiv> 10"
abbreviation (input) TB_REQUEST_SEND :: u8 where "TB_REQUEST_SEND \<equiv> 11"
abbreviation (input) TB_REQUEST_SEND_CHECK :: u8 where "TB_REQUEST_SEND_CHECK \<equiv> 12"
abbreviation (input) TB_REQUEST_DRAFT_DISCARD :: u8 where "TB_REQUEST_DRAFT_DISCARD \<equiv> 13"
abbreviation (input) TB_REQUEST_MEDIA :: u8 where "TB_REQUEST_MEDIA \<equiv> 14"
abbreviation (input) TB_REQUEST_MEDIA_CANCEL :: u8 where "TB_REQUEST_MEDIA_CANCEL \<equiv> 15"

abbreviation (input) TB_RECORD_ACCOUNT :: u8 where "TB_RECORD_ACCOUNT \<equiv> 1"
abbreviation (input) TB_RECORD_PREFS :: u8 where "TB_RECORD_PREFS \<equiv> 2"
abbreviation (input) TB_RECORD_CHAT :: u8 where "TB_RECORD_CHAT \<equiv> 3"
abbreviation (input) TB_RECORD_MESSAGE :: u8 where "TB_RECORD_MESSAGE \<equiv> 4"
abbreviation (input) TB_RECORD_TEXT :: u8 where "TB_RECORD_TEXT \<equiv> 5"
abbreviation (input) TB_RECORD_SUMMARY :: u8 where "TB_RECORD_SUMMARY \<equiv> 6"
abbreviation (input) TB_RECORD_STATUS :: u8 where "TB_RECORD_STATUS \<equiv> 7"
abbreviation (input) TB_RECORD_TEMPLATES :: u8 where "TB_RECORD_TEMPLATES \<equiv> 8"
abbreviation (input) TB_RECORD_TEMPLATE :: u8 where "TB_RECORD_TEMPLATE \<equiv> 9"
abbreviation (input) TB_RECORD_DRAFT :: u8 where "TB_RECORD_DRAFT \<equiv> 10"
abbreviation (input) TB_RECORD_SEND_STATE :: u8 where "TB_RECORD_SEND_STATE \<equiv> 11"
abbreviation (input) TB_RECORD_PENDING_SEND :: u8 where "TB_RECORD_PENDING_SEND \<equiv> 12"
abbreviation (input) TB_RECORD_MEDIA_INFO :: u8 where "TB_RECORD_MEDIA_INFO \<equiv> 13"
abbreviation (input) TB_RECORD_MEDIA_DATA :: u8 where "TB_RECORD_MEDIA_DATA \<equiv> 14"

abbreviation (input) TB_PAGE_OP_FIRST :: u8 where "TB_PAGE_OP_FIRST \<equiv> 0"
abbreviation (input) TB_PAGE_OP_NEXT :: u8 where "TB_PAGE_OP_NEXT \<equiv> 1"
abbreviation (input) TB_PAGE_OP_RETRY :: u8 where "TB_PAGE_OP_RETRY \<equiv> 2"
abbreviation (input) TB_PAGE_OP_RECHECK :: u8 where "TB_PAGE_OP_RECHECK \<equiv> 3"
abbreviation (input) TB_PAGE_OP_REFRESH :: u8 where "TB_PAGE_OP_REFRESH \<equiv> 4"

abbreviation (input) TB_LIST_MAIN :: u8 where "TB_LIST_MAIN \<equiv> 0"
abbreviation (input) TB_LIST_ARCHIVE :: u8 where "TB_LIST_ARCHIVE \<equiv> 1"

section \<open>Results and local errors\<close>

abbreviation (input) TB_RESULT_OK :: int where "TB_RESULT_OK \<equiv> 0"
abbreviation (input) TB_RESULT_CONFIG_MISSING :: int where "TB_RESULT_CONFIG_MISSING \<equiv> 1"
abbreviation (input) TB_RESULT_CONFIG_INVALID :: int where "TB_RESULT_CONFIG_INVALID \<equiv> 2"
abbreviation (input) TB_RESULT_API_UNAUTHORIZED :: int where "TB_RESULT_API_UNAUTHORIZED \<equiv> 4"
abbreviation (input) TB_RESULT_PROTOCOL_ERROR :: int where "TB_RESULT_PROTOCOL_ERROR \<equiv> 6"
abbreviation (input) TB_RESULT_ACCOUNT_NEEDS_LOGIN :: int where "TB_RESULT_ACCOUNT_NEEDS_LOGIN \<equiv> 7"
abbreviation (input) TB_RESULT_ACCOUNT_GONE :: int where "TB_RESULT_ACCOUNT_GONE \<equiv> 8"
abbreviation (input) TB_RESULT_CHAT_NOT_FOUND :: int where "TB_RESULT_CHAT_NOT_FOUND \<equiv> 9"
abbreviation (input) TB_RESULT_RATE_LIMITED :: int where "TB_RESULT_RATE_LIMITED \<equiv> 10"
abbreviation (input) TB_RESULT_BUSY :: int where "TB_RESULT_BUSY \<equiv> 11"
abbreviation (input) TB_RESULT_CURSOR_LOST :: int where "TB_RESULT_CURSOR_LOST \<equiv> 12"
abbreviation (input) TB_RESULT_MESSAGE_UNAVAILABLE :: int where "TB_RESULT_MESSAGE_UNAVAILABLE \<equiv> 14"
abbreviation (input) TB_RESULT_WRONG_TOKEN_TYPE :: int where "TB_RESULT_WRONG_TOKEN_TYPE \<equiv> 15"
abbreviation (input) TB_RESULT_SEND_RATE_LIMITED :: int where "TB_RESULT_SEND_RATE_LIMITED \<equiv> 21"

abbreviation (input) TB_ERROR_NONE :: int where "TB_ERROR_NONE \<equiv> 0"
abbreviation (input) TB_ERROR_PHONE_UNREACHABLE :: int where "TB_ERROR_PHONE_UNREACHABLE \<equiv> 100"
abbreviation (input) TB_ERROR_NO_RESPONSE :: int where "TB_ERROR_NO_RESPONSE \<equiv> 101"
abbreviation (input) TB_ERROR_OUT_OF_MEMORY :: int where "TB_ERROR_OUT_OF_MEMORY \<equiv> 102"

section \<open>Flags and states\<close>

abbreviation (input) TB_FLAG_HAS_MORE :: u32 where "TB_FLAG_HAS_MORE \<equiv> 1"
abbreviation (input) TB_FLAG_HAS_MORE_UNKNOWN :: u32 where "TB_FLAG_HAS_MORE_UNKNOWN \<equiv> 2"
abbreviation (input) TB_FLAG_PARTIAL :: u32 where "TB_FLAG_PARTIAL \<equiv> 4"
abbreviation (input) TB_FLAG_LOCAL_EXHAUSTED :: u32 where "TB_FLAG_LOCAL_EXHAUSTED \<equiv> 8"
abbreviation (input) TB_FLAG_REFRESH_PENDING :: u32 where "TB_FLAG_REFRESH_PENDING \<equiv> 16"
abbreviation (input) TB_FLAG_CONNECTION_NOT_READY :: u32 where "TB_FLAG_CONNECTION_NOT_READY \<equiv> 32"
abbreviation (input) TB_FLAG_TRUNCATED :: u32 where "TB_FLAG_TRUNCATED \<equiv> 64"

abbreviation (input) TB_CONNECTION_CONNECTING :: u8 where "TB_CONNECTION_CONNECTING \<equiv> 0"
abbreviation (input) TB_CONNECTION_UPDATING :: u8 where "TB_CONNECTION_UPDATING \<equiv> 1"
abbreviation (input) TB_CONNECTION_READY :: u8 where "TB_CONNECTION_READY \<equiv> 2"

abbreviation (input) TB_UNREAD_MODE_CHATS :: u8 where "TB_UNREAD_MODE_CHATS \<equiv> 0"
abbreviation (input) TB_UNREAD_MODE_MESSAGES :: u8 where "TB_UNREAD_MODE_MESSAGES \<equiv> 1"
abbreviation (input) TB_PHOTO_MODE_AUTO :: u8 where "TB_PHOTO_MODE_AUTO \<equiv> 0"
abbreviation (input) TB_PHOTO_MODE_MANUAL :: u8 where "TB_PHOTO_MODE_MANUAL \<equiv> 1"
abbreviation (input) TB_ACCOUNT_STATE_READY :: u8 where "TB_ACCOUNT_STATE_READY \<equiv> 0"

abbreviation (input) TB_RESPONSE_DATA :: int where "TB_RESPONSE_DATA \<equiv> 1"
abbreviation (input) TB_RESPONSE_READY :: int where "TB_RESPONSE_READY \<equiv> 2"
abbreviation (input) TB_RESPONSE_REFRESH :: int where "TB_RESPONSE_REFRESH \<equiv> 3"
abbreviation (input) TB_RESPONSE_PUSH :: int where "TB_RESPONSE_PUSH \<equiv> 4"
abbreviation (input) TB_ACCOUNT_FLAG_DEFAULT :: u8 where "TB_ACCOUNT_FLAG_DEFAULT \<equiv> 1"

abbreviation (input) TB_MEDIA_STATE_READY :: u8 where "TB_MEDIA_STATE_READY \<equiv> 0"
abbreviation (input) TB_MEDIA_STATE_DOWNLOADING :: u8 where "TB_MEDIA_STATE_DOWNLOADING \<equiv> 1"
abbreviation (input) TB_MEDIA_STATE_PREPARING :: u8 where "TB_MEDIA_STATE_PREPARING \<equiv> 2"
abbreviation (input) TB_MEDIA_STATE_SPOILER :: u8 where "TB_MEDIA_STATE_SPOILER \<equiv> 3"
abbreviation (input) TB_MEDIA_STATE_RESTRICTED :: u8 where "TB_MEDIA_STATE_RESTRICTED \<equiv> 4"
abbreviation (input) TB_MEDIA_STATE_UNSUPPORTED :: u8 where "TB_MEDIA_STATE_UNSUPPORTED \<equiv> 5"
abbreviation (input) TB_MEDIA_STATE_UNAVAILABLE :: u8 where "TB_MEDIA_STATE_UNAVAILABLE \<equiv> 6"
abbreviation (input) TB_MEDIA_FLAG_IMAGE :: u8 where "TB_MEDIA_FLAG_IMAGE \<equiv> 1"
abbreviation (input) TB_MEDIA_FLAG_SPOILER :: u8 where "TB_MEDIA_FLAG_SPOILER \<equiv> 2"
abbreviation (input) TB_MEDIA_FLAG_RESTRICTED :: u8 where "TB_MEDIA_FLAG_RESTRICTED \<equiv> 4"
abbreviation (input) TB_MEDIA_FLAG_ALBUM :: u8 where "TB_MEDIA_FLAG_ALBUM \<equiv> 8"

abbreviation (input) TB_SEND_STATE_SENT :: u8 where "TB_SEND_STATE_SENT \<equiv> 1"
abbreviation (input) TB_SEND_STATE_FAILED :: u8 where "TB_SEND_STATE_FAILED \<equiv> 2"
abbreviation (input) TB_SEND_STATE_UNKNOWN :: u8 where "TB_SEND_STATE_UNKNOWN \<equiv> 3"
abbreviation (input) TB_SEND_FLAG_RETRYABLE :: u8 where "TB_SEND_FLAG_RETRYABLE \<equiv> 1"
abbreviation (input) TB_SEND_FLAG_REPLY_DROPPED :: u8 where "TB_SEND_FLAG_REPLY_DROPPED \<equiv> 2"
abbreviation (input) TB_CAN_SEND_UNKNOWN :: u8 where "TB_CAN_SEND_UNKNOWN \<equiv> 0"
abbreviation (input) TB_CAN_SEND_ALLOWED :: u8 where "TB_CAN_SEND_ALLOWED \<equiv> 1"
abbreviation (input) TB_CAN_SEND_RESTRICTED :: u8 where "TB_CAN_SEND_RESTRICTED \<equiv> 3"
abbreviation (input) TB_CAN_SEND_NOT_MEMBER :: u8 where "TB_CAN_SEND_NOT_MEMBER \<equiv> 4"
abbreviation (input) TB_CAN_SEND_BANNED :: u8 where "TB_CAN_SEND_BANNED \<equiv> 5"
abbreviation (input) TB_CAN_SEND_SECRET_CHAT :: u8 where "TB_CAN_SEND_SECRET_CHAT \<equiv> 6"
abbreviation (input) TB_CAN_SEND_USER_DELETED :: u8 where "TB_CAN_SEND_USER_DELETED \<equiv> 7"
abbreviation (input) TB_CHAT_TYPE_PRIVATE :: u8 where "TB_CHAT_TYPE_PRIVATE \<equiv> 0"
abbreviation (input) TB_CHAT_TYPE_SECRET :: u8 where "TB_CHAT_TYPE_SECRET \<equiv> 4"
abbreviation (input) TB_MESSAGE_FLAG_OUTGOING :: u8 where "TB_MESSAGE_FLAG_OUTGOING \<equiv> 1"
abbreviation (input) TB_MESSAGE_FLAG_TRUNCATED :: u8 where "TB_MESSAGE_FLAG_TRUNCATED \<equiv> 4"
abbreviation (input) TB_MESSAGE_FLAG_REPLY :: u8 where "TB_MESSAGE_FLAG_REPLY \<equiv> 32"
abbreviation (input) TB_DRAFT_FLAG_TOO_LONG :: u8 where "TB_DRAFT_FLAG_TOO_LONG \<equiv> 1"

abbreviation (input) TB_KIND_TEXT :: u8 where "TB_KIND_TEXT \<equiv> 0"
abbreviation (input) TB_KIND_PHOTO :: u8 where "TB_KIND_PHOTO \<equiv> 1"
abbreviation (input) TB_KIND_VOICE_NOTE :: u8 where "TB_KIND_VOICE_NOTE \<equiv> 3"
abbreviation (input) TB_KIND_VIDEO_NOTE :: u8 where "TB_KIND_VIDEO_NOTE \<equiv> 4"
abbreviation (input) TB_KIND_AUDIO :: u8 where "TB_KIND_AUDIO \<equiv> 7"
abbreviation (input) TB_KIND_VIDEO :: u8 where "TB_KIND_VIDEO \<equiv> 2"
abbreviation (input) TB_KIND_CALL :: u8 where "TB_KIND_CALL \<equiv> 14"
abbreviation (input) TB_KIND_PAID_MEDIA :: u8 where "TB_KIND_PAID_MEDIA \<equiv> 18"
abbreviation (input) TB_KIND_SERVICE :: u8 where "TB_KIND_SERVICE \<equiv> 19"
abbreviation (input) TB_KIND_UNSUPPORTED :: u8 where "TB_KIND_UNSUPPORTED \<equiv> 20"
abbreviation (input) TB_KIND_NONE :: u8 where "TB_KIND_NONE \<equiv> 21"
abbreviation (input) TB_ACTION_MEMBERS_ADDED :: u8 where "TB_ACTION_MEMBERS_ADDED \<equiv> 1"
abbreviation (input) TB_ACTION_TOPIC_CREATED :: u8 where "TB_ACTION_TOPIC_CREATED \<equiv> 13"
abbreviation (input) TB_ACTION_CUSTOM :: u8 where "TB_ACTION_CUSTOM \<equiv> 14"
abbreviation (input) TB_ACCOUNT_STATE_NEEDS_LOGIN :: u8 where "TB_ACCOUNT_STATE_NEEDS_LOGIN \<equiv> 1"
abbreviation (input) TB_ACCOUNT_STATE_LOGGING_OUT :: u8 where "TB_ACCOUNT_STATE_LOGGING_OUT \<equiv> 3"
abbreviation (input) TB_ACCOUNT_STATE_REMOVING :: u8 where "TB_ACCOUNT_STATE_REMOVING \<equiv> 4"
abbreviation (input) TB_CHAT_FLAG_MENTION :: u8 where "TB_CHAT_FLAG_MENTION \<equiv> 8"
abbreviation (input) TB_CHAT_FLAG_MARKED_UNREAD :: u8 where "TB_CHAT_FLAG_MARKED_UNREAD \<equiv> 4"
abbreviation (input) TB_CHAT_FLAG_SAVED :: u8 where "TB_CHAT_FLAG_SAVED \<equiv> 32"

text \<open>The test \<open>flags & mask\<close> of the C code.\<close>

definition has_flag :: "'a::len word \<Rightarrow> 'a word \<Rightarrow> bool" where
  "has_flag flags m \<longleftrightarrow> flags AND m \<noteq> 0"

lemma has_flag_zero [simp]: "\<not> has_flag 0 m"
  by (simp add: has_flag_def)

end
