(* ===== verification/Codec.thy ===== *)
theory Codec
  imports Protocol
begin

text \<open>
  The record codec (\<^verbatim>\<open>codec.h\<close>, \<^verbatim>\<open>codec.c\<close>): a cursor over a received payload, the
  record frame (type, little-endian length, body), the layout tables, the table-driven decoder
  and the record loop that every component runs over a payload. The abstract specification works
  on plain byte lists: \<open>spec_decode\<close> and \<open>spec_frames\<close>, with \<open>encode_fields\<close> and
  \<open>encode_frames\<close> as their inverses.
\<close>

section \<open>Data\<close>

record TbSpan =
  span_data :: bytes
  span_length :: u16

record TbCursor =
  cur_data :: bytes
  cur_length :: u16
  cur_offset :: u16

record TbAccountRecord =
  acr_id :: TbSpan
  acr_name :: TbSpan
  acr_state :: u8
  acr_flags :: u8

record TbPrefsRecord =
  pfr_default_account :: TbSpan
  pfr_chat_list :: u8
  pfr_host :: TbSpan
  pfr_show_archive :: u8
  pfr_unread_mode :: u8
  pfr_photo_mode :: u8

record TbSummaryRecord =
  smr_connection :: u8
  smr_proxy :: u8
  smr_unread_chats :: u32
  smr_unread_messages :: u32

record TbStatusRecord =
  str_connection :: u8
  str_proxy :: u8

record TbChatRecord =
  chr_id :: TbSpan
  chr_title :: TbSpan
  chr_type :: u8
  chr_flags :: u8
  chr_unread :: u16
  chr_last_date :: u32
  chr_preview_kind :: u8
  chr_preview_action :: u8
  chr_preview_duration :: u16
  chr_preview_sender :: TbSpan
  chr_preview_extra :: TbSpan
  chr_preview_text :: TbSpan
  chr_send :: u8

record TbMessageRecord =
  mgr_id :: TbSpan
  mgr_date :: u32
  mgr_flags :: u8
  mgr_kind :: u8
  mgr_action :: u8
  mgr_duration :: u16
  mgr_sender :: TbSpan
  mgr_extra :: TbSpan
  mgr_text :: TbSpan
  mgr_reply_id :: TbSpan
  mgr_reply_sender :: TbSpan
  mgr_reply_text :: TbSpan
  mgr_forward :: TbSpan
  mgr_media :: u8
  mgr_album :: u32
  mgr_media_count :: u8
  mgr_signature :: TbSpan

record TbTemplatesRecord =
  tmr_revision :: u32
  tmr_count :: u8
  tmr_flags :: u8

record TbTemplateRecord =
  ter_index :: u8
  ter_length :: u16
  ter_preview :: TbSpan

record TbDraftRecord =
  drr_id :: u32
  drr_bytes :: u16
  drr_units :: u16
  drr_flags :: u8

record TbSendStateRecord =
  ssr_draft_id :: u32
  ssr_state :: u8
  ssr_code :: u8
  ssr_retry_after :: u16
  ssr_flags :: u8
  ssr_account :: TbSpan
  ssr_chat :: TbSpan
  ssr_message :: TbSpan
  ssr_title :: TbSpan
  ssr_preview :: TbSpan

record TbMediaInfoRecord =
  mir_state :: u8
  mir_index :: u8
  mir_count :: u8
  mir_flags :: u8
  mir_tag :: u32
  mir_total :: u32
  mir_retry_after :: u16
  mir_item :: TbSpan

record TbMediaDataRecord =
  mdr_offset :: u32
  mdr_data :: TbSpan

text \<open>
  A layout is the list of the field codes of the table; the \<open>offsetof\<close> byte that follows each
  code in C is the field's position, so a decoded record is the list of its values in layout
  order. The closing \<open>F_END\<close> is the end of the list.
\<close>

datatype field_code = F_U8 | F_U16 | F_U32 | F_STR8 | F_STR16 | F_REST

datatype field_value = V8 u8 | V16 u16 | V32 u32 | VSpan TbSpan

type_synonym layout = "field_code list"

definition tb_layout_account :: layout where
  "tb_layout_account = [F_STR8, F_STR8, F_U8, F_U8]"

definition tb_layout_prefs :: layout where
  "tb_layout_prefs = [F_STR8, F_U8, F_STR8, F_U8, F_U8, F_U8]"

definition tb_layout_summary :: layout where
  "tb_layout_summary = [F_U8, F_U8, F_U32, F_U32]"

definition tb_layout_status :: layout where
  "tb_layout_status = [F_U8, F_U8]"

definition tb_layout_chat :: layout where
  "tb_layout_chat = [F_STR8, F_STR8, F_U8, F_U8, F_U16, F_U32, F_U8, F_U8, F_U16,
     F_STR8, F_STR8, F_STR16, F_U8]"

definition tb_layout_message :: layout where
  "tb_layout_message = [F_STR8, F_U32, F_U8, F_U8, F_U8, F_U16, F_STR8, F_STR8, F_STR16,
     F_STR8, F_STR8, F_STR8, F_STR8, F_U8, F_U32, F_U8, F_STR8]"

definition tb_layout_text :: layout where
  "tb_layout_text = [F_STR16]"

definition tb_layout_templates :: layout where
  "tb_layout_templates = [F_U32, F_U8, F_U8]"

definition tb_layout_template :: layout where
  "tb_layout_template = [F_U8, F_U16, F_STR8]"

definition tb_layout_draft :: layout where
  "tb_layout_draft = [F_U32, F_U16, F_U16, F_U8]"

definition tb_layout_send_state :: layout where
  "tb_layout_send_state = [F_U32, F_U8, F_U8, F_U16, F_U8, F_STR8, F_STR8, F_STR8, F_STR8, F_STR8]"

definition tb_layout_media_info :: layout where
  "tb_layout_media_info = [F_U8, F_U8, F_U8, F_U8, F_U32, F_U32, F_U16, F_STR8]"

definition tb_layout_media_data :: layout where
  "tb_layout_media_data = [F_U32, F_REST]"

section \<open>Operations\<close>

definition tb_cursor_init :: "bytes option \<Rightarrow> u16 \<Rightarrow> TbCursor" where
  "tb_cursor_init data len =
     \<lparr>cur_data = (case data of None \<Rightarrow> [] | Some d \<Rightarrow> d),
      cur_length = (if data = None then 0 else len),
      cur_offset = 0\<rparr>"

text \<open>\<open>take\<close>: \<open>None\<close> is the return value \<open>false\<close>; otherwise the pointer and the moved cursor.\<close>

definition codec_take :: "TbCursor \<Rightarrow> u16 \<Rightarrow> (bytes \<times> TbCursor) option" where
  "codec_take c n =
     (if unat (cur_offset c) + unat n > unat (cur_length c) then None
      else Some (drop (unat (cur_offset c)) (cur_data c), c\<lparr>cur_offset := cur_offset c + n\<rparr>))"

text \<open>\<open>while (size--) { value = (value << 8) | bytes[size]; }\<close>\<close>

fun little_loop :: "bytes \<Rightarrow> nat \<Rightarrow> u32 \<Rightarrow> u32" where
  "little_loop p 0 v = v"
| "little_loop p (Suc n) v = little_loop p n (push_bit 8 v OR ucast (p ! n))"

definition little :: "bytes \<Rightarrow> nat \<Rightarrow> u32" where
  "little p n = little_loop p n 0"

definition decode_span :: "TbCursor \<Rightarrow> u16 \<Rightarrow> (field_value \<times> TbCursor) option" where
  "decode_span c len =
     (case codec_take c len of None \<Rightarrow> None
      | Some (p, c') \<Rightarrow> Some (VSpan \<lparr>span_data = p, span_length = len\<rparr>, c'))"

fun decode_field :: "TbCursor \<Rightarrow> field_code \<Rightarrow> (field_value \<times> TbCursor) option" where
  "decode_field c F_U8 =
     (case codec_take c 1 of None \<Rightarrow> None
      | Some (p, c') \<Rightarrow> Some (V8 (ucast (little p 1)), c'))"
| "decode_field c F_U16 =
     (case codec_take c 2 of None \<Rightarrow> None
      | Some (p, c') \<Rightarrow> Some (V16 (ucast (little p 2)), c'))"
| "decode_field c F_U32 =
     (case codec_take c 4 of None \<Rightarrow> None
      | Some (p, c') \<Rightarrow> Some (V32 (little p 4), c'))"
| "decode_field c F_STR8 =
     (case codec_take c 1 of None \<Rightarrow> None
      | Some (p, c') \<Rightarrow> decode_span c' (ucast (little p 1)))"
| "decode_field c F_STR16 =
     (case codec_take c 2 of None \<Rightarrow> None
      | Some (p, c') \<Rightarrow> decode_span c' (ucast (little p 2)))"
| "decode_field c F_REST = decode_span c (cur_length c - cur_offset c)"

fun tb_codec_decode :: "TbCursor \<Rightarrow> layout \<Rightarrow> field_value list option" where
  "tb_codec_decode c [] = (if cur_offset c = cur_length c then Some [] else None)"
| "tb_codec_decode c (f # fs) =
     (case decode_field c f of None \<Rightarrow> None
      | Some (v, c') \<Rightarrow> map_option (Cons v) (tb_codec_decode c' fs))"

definition tb_codec_next :: "TbCursor \<Rightarrow> (u8 \<times> TbCursor \<times> TbCursor) option" where
  "tb_codec_next c =
     (case codec_take c 3 of None \<Rightarrow> None
      | Some (header, c1) \<Rightarrow>
        (let len = ucast (little (drop 1 header) 2) :: u16
         in case codec_take c1 len of None \<Rightarrow> None
            | Some (content, c2) \<Rightarrow> Some (header ! 0, tb_cursor_init (Some content) len, c2)))"

text \<open>The typed decoders: the macros that name a layout and a record type.\<close>

definition tb_codec_account :: "TbCursor \<Rightarrow> TbAccountRecord option" where
  "tb_codec_account body =
     (case tb_codec_decode body tb_layout_account of
        Some [VSpan a, VSpan b, V8 c, V8 d] \<Rightarrow>
          Some \<lparr>acr_id = a, acr_name = b, acr_state = c, acr_flags = d\<rparr>
      | _ \<Rightarrow> None)"

definition tb_codec_prefs :: "TbCursor \<Rightarrow> TbPrefsRecord option" where
  "tb_codec_prefs body =
     (case tb_codec_decode body tb_layout_prefs of
        Some [VSpan a, V8 b, VSpan c, V8 d, V8 e, V8 f] \<Rightarrow>
          Some \<lparr>pfr_default_account = a, pfr_chat_list = b, pfr_host = c, pfr_show_archive = d,
                pfr_unread_mode = e, pfr_photo_mode = f\<rparr>
      | _ \<Rightarrow> None)"

definition tb_codec_summary :: "TbCursor \<Rightarrow> TbSummaryRecord option" where
  "tb_codec_summary body =
     (case tb_codec_decode body tb_layout_summary of
        Some [V8 a, V8 b, V32 c, V32 d] \<Rightarrow>
          Some \<lparr>smr_connection = a, smr_proxy = b, smr_unread_chats = c, smr_unread_messages = d\<rparr>
      | _ \<Rightarrow> None)"

definition tb_codec_status :: "TbCursor \<Rightarrow> TbStatusRecord option" where
  "tb_codec_status body =
     (case tb_codec_decode body tb_layout_status of
        Some [V8 a, V8 b] \<Rightarrow> Some \<lparr>str_connection = a, str_proxy = b\<rparr>
      | _ \<Rightarrow> None)"

definition tb_codec_chat :: "TbCursor \<Rightarrow> TbChatRecord option" where
  "tb_codec_chat body =
     (case tb_codec_decode body tb_layout_chat of
        Some [VSpan a, VSpan b, V8 c, V8 d, V16 e, V32 f, V8 g, V8 h, V16 i,
              VSpan j, VSpan k, VSpan l, V8 m] \<Rightarrow>
          Some \<lparr>chr_id = a, chr_title = b, chr_type = c, chr_flags = d, chr_unread = e,
                chr_last_date = f, chr_preview_kind = g, chr_preview_action = h,
                chr_preview_duration = i, chr_preview_sender = j, chr_preview_extra = k,
                chr_preview_text = l, chr_send = m\<rparr>
      | _ \<Rightarrow> None)"

definition tb_codec_message :: "TbCursor \<Rightarrow> TbMessageRecord option" where
  "tb_codec_message body =
     (case tb_codec_decode body tb_layout_message of
        Some [VSpan a, V32 b, V8 c, V8 d, V8 e, V16 f, VSpan g, VSpan h, VSpan i,
              VSpan j, VSpan k, VSpan l, VSpan m, V8 n, V32 r, V8 p, VSpan q] \<Rightarrow>
          Some \<lparr>mgr_id = a, mgr_date = b, mgr_flags = c, mgr_kind = d, mgr_action = e,
                mgr_duration = f, mgr_sender = g, mgr_extra = h, mgr_text = i, mgr_reply_id = j,
                mgr_reply_sender = k, mgr_reply_text = l, mgr_forward = m, mgr_media = n,
                mgr_album = r, mgr_media_count = p, mgr_signature = q\<rparr>
      | _ \<Rightarrow> None)"

definition tb_codec_text :: "TbCursor \<Rightarrow> TbSpan option" where
  "tb_codec_text body =
     (case tb_codec_decode body tb_layout_text of Some [VSpan a] \<Rightarrow> Some a | _ \<Rightarrow> None)"

definition tb_codec_templates :: "TbCursor \<Rightarrow> TbTemplatesRecord option" where
  "tb_codec_templates body =
     (case tb_codec_decode body tb_layout_templates of
        Some [V32 a, V8 b, V8 c] \<Rightarrow> Some \<lparr>tmr_revision = a, tmr_count = b, tmr_flags = c\<rparr>
      | _ \<Rightarrow> None)"

definition tb_codec_template :: "TbCursor \<Rightarrow> TbTemplateRecord option" where
  "tb_codec_template body =
     (case tb_codec_decode body tb_layout_template of
        Some [V8 a, V16 b, VSpan c] \<Rightarrow> Some \<lparr>ter_index = a, ter_length = b, ter_preview = c\<rparr>
      | _ \<Rightarrow> None)"

definition tb_codec_draft :: "TbCursor \<Rightarrow> TbDraftRecord option" where
  "tb_codec_draft body =
     (case tb_codec_decode body tb_layout_draft of
        Some [V32 a, V16 b, V16 c, V8 d] \<Rightarrow>
          Some \<lparr>drr_id = a, drr_bytes = b, drr_units = c, drr_flags = d\<rparr>
      | _ \<Rightarrow> None)"

definition tb_codec_send_state :: "TbCursor \<Rightarrow> TbSendStateRecord option" where
  "tb_codec_send_state body =
     (case tb_codec_decode body tb_layout_send_state of
        Some [V32 a, V8 b, V8 c, V16 d, V8 e, VSpan f, VSpan g, VSpan h, VSpan i, VSpan j] \<Rightarrow>
          Some \<lparr>ssr_draft_id = a, ssr_state = b, ssr_code = c, ssr_retry_after = d,
                ssr_flags = e, ssr_account = f, ssr_chat = g, ssr_message = h, ssr_title = i,
                ssr_preview = j\<rparr>
      | _ \<Rightarrow> None)"

definition tb_codec_media_info :: "TbCursor \<Rightarrow> TbMediaInfoRecord option" where
  "tb_codec_media_info body =
     (case tb_codec_decode body tb_layout_media_info of
        Some [V8 a, V8 b, V8 c, V8 d, V32 e, V32 f, V16 g, VSpan h] \<Rightarrow>
          Some \<lparr>mir_state = a, mir_index = b, mir_count = c, mir_flags = d, mir_tag = e,
                mir_total = f, mir_retry_after = g, mir_item = h\<rparr>
      | _ \<Rightarrow> None)"

definition tb_codec_media_data :: "TbCursor \<Rightarrow> TbMediaDataRecord option" where
  "tb_codec_media_data body =
     (case tb_codec_decode body tb_layout_media_data of
        Some [V32 a, VSpan b] \<Rightarrow> Some \<lparr>mdr_offset = a, mdr_data = b\<rparr>
      | _ \<Rightarrow> None)"

end
