(* ===== verification/Records.thy ===== *)
theory Records
  imports Codec
begin

text \<open>
  What the codec guarantees. The record loop that every component runs over a payload is one
  function with the component's handler as argument, and \<open>record_handler\<close> is the contract a
  handler meets so that a whole payload keeps the component's invariant. The decoder refines a
  parser on byte lists that is inverted by an encoder, and every span it hands out lies inside
  the received buffer.
\<close>

section \<open>Well-formed cursors and spans\<close>

definition wf_cursor :: "TbCursor \<Rightarrow> bool" where
  "wf_cursor c \<longleftrightarrow> unat (cur_length c) \<le> length (cur_data c) \<and>
     unat (cur_offset c) \<le> unat (cur_length c)"

definition cur_rest :: "TbCursor \<Rightarrow> bytes" where
  "cur_rest c = take (unat (cur_length c) - unat (cur_offset c)) (drop (unat (cur_offset c)) (cur_data c))"

definition wf_span :: "TbSpan \<Rightarrow> bool" where
  "wf_span s \<longleftrightarrow> unat (span_length s) \<le> length (span_data s)"

definition span_bytes :: "TbSpan \<Rightarrow> bytes" where
  "span_bytes s = take (unat (span_length s)) (span_data s)"

lemma length_span_bytes [simp]: "wf_span s \<Longrightarrow> length (span_bytes s) = unat (span_length s)"
  by (simp add: wf_span_def span_bytes_def)

lemma length_cur_rest:
  "wf_cursor c \<Longrightarrow> length (cur_rest c) = unat (cur_length c) - unat (cur_offset c)"
  by (auto simp: wf_cursor_def cur_rest_def)

lemma wf_cursor_init [simp]:
  "unat len \<le> length d \<Longrightarrow> wf_cursor (tb_cursor_init (Some d) len)"
  by (simp add: wf_cursor_def tb_cursor_init_def)

lemma wf_cursor_init_None [simp]: "wf_cursor (tb_cursor_init None len)"
  by (simp add: wf_cursor_def tb_cursor_init_def)

lemma cur_rest_init [simp]: "cur_rest (tb_cursor_init (Some d) len) = take (unat len) d"
  by (simp add: cur_rest_def tb_cursor_init_def)

lemma codec_take_frame:
  assumes "codec_take c n = Some (p, c')"
  shows "cur_length c' = cur_length c" and "cur_data c' = cur_data c"
    and "unat (cur_offset c') = unat (cur_offset c) + unat n"
    and "unat (cur_offset c') \<le> unat (cur_length c)"
    and "p = drop (unat (cur_offset c)) (cur_data c)"
proof -
  from assms have le: "unat (cur_offset c) + unat n \<le> unat (cur_length c)"
    and eqs: "p = drop (unat (cur_offset c)) (cur_data c)" "c' = c\<lparr>cur_offset := cur_offset c + n\<rparr>"
    by (auto simp: codec_take_def split: if_splits)
  have "unat (cur_offset c) + unat n < 65536"
    using le unat_u16_less [of "cur_length c"] by linarith
  then have "unat (cur_offset c + n) = unat (cur_offset c) + unat n"
    by (rule unat_plus_u16)
  with le eqs show "cur_length c' = cur_length c" "cur_data c' = cur_data c"
    "unat (cur_offset c') = unat (cur_offset c) + unat n"
    "unat (cur_offset c') \<le> unat (cur_length c)"
    "p = drop (unat (cur_offset c)) (cur_data c)"
    by simp_all
qed

lemma codec_take_None:
  "wf_cursor c \<Longrightarrow> codec_take c n = None \<longleftrightarrow> length (cur_rest c) < unat n"
  by (auto simp: codec_take_def length_cur_rest wf_cursor_def)

lemma codec_take_Some:
  assumes "wf_cursor c" and "codec_take c n = Some (p, c')"
  shows "wf_cursor c'" and "take (unat n) p = take (unat n) (cur_rest c)"
    and "cur_rest c' = drop (unat n) (cur_rest c)" and "unat n \<le> length (cur_rest c)"
    and "unat n \<le> length p"
  using assms codec_take_frame [OF assms(2)]
  by (auto simp: wf_cursor_def cur_rest_def drop_take add.commute)

section \<open>Little-endian numbers\<close>

fun le_nat :: "bytes \<Rightarrow> nat" where
  "le_nat [] = 0"
| "le_nat (b # bs) = unat b + 256 * le_nat bs"

fun le_bytes :: "nat \<Rightarrow> nat \<Rightarrow> bytes" where
  "le_bytes 0 v = []"
| "le_bytes (Suc n) v = of_nat (v mod 256) # le_bytes n (v div 256)"

lemma length_le_bytes [simp]: "length (le_bytes n v) = n"
  by (induction n arbitrary: v) auto

lemma le_nat_append: "le_nat (xs @ ys) = le_nat xs + 256 ^ length xs * le_nat ys"
  by (induction xs) (auto simp: algebra_simps)

lemma le_nat_less: "le_nat bs < 256 ^ length bs"
proof (induction bs)
  case (Cons b bs)
  have "unat b + 256 * le_nat bs < 256 * Suc (le_nat bs)"
    using unat_u8_less [of b] by simp
  also have "\<dots> \<le> 256 * 256 ^ length bs"
    using Cons.IH by (intro mult_le_mono2) simp
  finally show ?case by simp
qed simp

lemma le_nat_le_bytes: "v < 256 ^ n \<Longrightarrow> le_nat (le_bytes n v) = v"
proof (induction n arbitrary: v)
  case (Suc n)
  then have "v div 256 < 256 ^ n"
    by (simp add: less_mult_imp_div_less mult.commute)
  with Suc.IH show ?case by simp
qed simp

lemma le_bytes_le_nat: "le_bytes (length bs) (le_nat bs) = bs"
  by (induction bs) auto

lemma push_bit_or_byte: "push_bit 8 (v :: u32) OR ucast (b :: u8) = 256 * v + ucast b"
proof -
  have "push_bit 8 v AND (ucast b :: u32) = 0"
    by (rule bit_word_eqI) (auto simp: bit_simps dest: bit_imp_le_length)
  then have "push_bit 8 v OR (ucast b :: u32) = push_bit 8 v + ucast b"
    by (simp add: disjunctive_add_eq_or)
  then show ?thesis by (simp add: push_bit_eq_mult mult.commute)
qed

lemma little_loop_eq:
  "n \<le> length p \<Longrightarrow> little_loop p n v = v * 256 ^ n + of_nat (le_nat (take n p))"
proof (induction n arbitrary: v)
  case (Suc n)
  have "ucast (p ! n) = (of_nat (unat (p ! n)) :: u32)"
    by simp
  with Suc show ?case
    by (simp add: push_bit_or_byte take_Suc_conv_app_nth le_nat_append algebra_simps)
qed simp

lemma unat_little:
  assumes "n \<le> length p" and "n \<le> 4"
  shows "unat (little p n) = le_nat (take n p)"
proof -
  have "le_nat (take n p) < 256 ^ n"
    using le_nat_less [of "take n p"] assms by simp
  also have "\<dots> \<le> 256 ^ 4"
    using assms by (intro power_increasing) simp_all
  finally show ?thesis
    using assms by (simp add: little_def little_loop_eq)
qed

lemma unat_little_u16:
  assumes "n \<le> length p" and "n \<le> 2"
  shows "unat (ucast (little p n) :: u16) = le_nat (take n p)"
proof -
  have "le_nat (take n p) < 256 ^ n"
    using le_nat_less [of "take n p"] assms by simp
  also have "\<dots> \<le> 256 ^ 2"
    using assms by (intro power_increasing) simp_all
  finally show ?thesis
    using assms unat_little [of n p] by (simp add: unsigned_ucast_eq take_bit_nat_eq_self_iff)
qed

section \<open>The abstract decoder and its encoder\<close>

datatype spec_value = SInt nat | SBytes bytes

definition spec_int :: "nat \<Rightarrow> bytes \<Rightarrow> (spec_value \<times> bytes) option" where
  "spec_int n bs = (if length bs < n then None else Some (SInt (le_nat (take n bs)), drop n bs))"

definition spec_string :: "nat \<Rightarrow> bytes \<Rightarrow> (spec_value \<times> bytes) option" where
  "spec_string n bs =
     (if length bs < n then None
      else let len = le_nat (take n bs); rest = drop n bs
           in if length rest < len then None else Some (SBytes (take len rest), drop len rest))"

fun spec_field :: "field_code \<Rightarrow> bytes \<Rightarrow> (spec_value \<times> bytes) option" where
  "spec_field F_U8 bs = spec_int 1 bs"
| "spec_field F_U16 bs = spec_int 2 bs"
| "spec_field F_U32 bs = spec_int 4 bs"
| "spec_field F_STR8 bs = spec_string 1 bs"
| "spec_field F_STR16 bs = spec_string 2 bs"
| "spec_field F_REST bs = Some (SBytes bs, [])"

fun spec_decode :: "layout \<Rightarrow> bytes \<Rightarrow> spec_value list option" where
  "spec_decode [] bs = (if bs = [] then Some [] else None)"
| "spec_decode (f # fs) bs =
     (case spec_field f bs of None \<Rightarrow> None
      | Some (v, rest) \<Rightarrow> map_option (Cons v) (spec_decode fs rest))"

fun abs_value :: "field_value \<Rightarrow> spec_value" where
  "abs_value (V8 w) = SInt (unat w)"
| "abs_value (V16 w) = SInt (unat w)"
| "abs_value (V32 w) = SInt (unat w)"
| "abs_value (VSpan s) = SBytes (span_bytes s)"

fun encode_field :: "field_code \<Rightarrow> spec_value \<Rightarrow> bytes" where
  "encode_field F_U8 (SInt n) = le_bytes 1 n"
| "encode_field F_U16 (SInt n) = le_bytes 2 n"
| "encode_field F_U32 (SInt n) = le_bytes 4 n"
| "encode_field F_STR8 (SBytes b) = le_bytes 1 (length b) @ b"
| "encode_field F_STR16 (SBytes b) = le_bytes 2 (length b) @ b"
| "encode_field F_REST (SBytes b) = b"
| "encode_field _ _ = []"

fun field_fits :: "field_code \<Rightarrow> spec_value \<Rightarrow> bool" where
  "field_fits F_U8 (SInt n) = (n < 256 ^ 1)"
| "field_fits F_U16 (SInt n) = (n < 256 ^ 2)"
| "field_fits F_U32 (SInt n) = (n < 256 ^ 4)"
| "field_fits F_STR8 (SBytes b) = (length b < 256 ^ 1)"
| "field_fits F_STR16 (SBytes b) = (length b < 256 ^ 2)"
| "field_fits F_REST (SBytes b) = True"
| "field_fits _ _ = False"

fun fields_fit :: "layout \<Rightarrow> spec_value list \<Rightarrow> bool" where
  "fields_fit [] [] = True"
| "fields_fit (f # fs) (v # vs) = (field_fits f v \<and> fields_fit fs vs)"
| "fields_fit _ _ = False"

fun encode_fields :: "layout \<Rightarrow> spec_value list \<Rightarrow> bytes" where
  "encode_fields (f # fs) (v # vs) = encode_field f v @ encode_fields fs vs"
| "encode_fields _ _ = []"

text \<open>Only the last field of a layout may be \<open>F_REST\<close>, as in every table of the program.\<close>

fun layout_ok :: "layout \<Rightarrow> bool" where
  "layout_ok [] = True"
| "layout_ok (f # fs) = ((f = F_REST \<longrightarrow> fs = []) \<and> layout_ok fs)"

lemma spec_int_Some:
  "spec_int n bs = Some (v, rest) \<longleftrightarrow>
     (\<exists>k. v = SInt k \<and> k < 256 ^ n \<and> bs = le_bytes n k @ rest)"
proof
  assume "spec_int n bs = Some (v, rest)"
  then have "n \<le> length bs" "v = SInt (le_nat (take n bs))" "rest = drop n bs"
    by (auto simp: spec_int_def split: if_splits)
  moreover have "le_bytes n (le_nat (take n bs)) = take n bs" if "n \<le> length bs"
    using le_bytes_le_nat [of "take n bs"] that by simp
  moreover have "le_nat (take n bs) < 256 ^ n" if "n \<le> length bs"
    using le_nat_less [of "take n bs"] that by simp
  ultimately show "\<exists>k. v = SInt k \<and> k < 256 ^ n \<and> bs = le_bytes n k @ rest"
    by auto
qed (auto simp: spec_int_def le_nat_le_bytes)

lemma spec_string_Some:
  "spec_string n bs = Some (v, rest) \<longleftrightarrow>
     (\<exists>b. v = SBytes b \<and> length b < 256 ^ n \<and> bs = le_bytes n (length b) @ b @ rest)"
proof
  assume a: "spec_string n bs = Some (v, rest)"
  define len where "len = le_nat (take n bs)"
  from a have le: "n \<le> length bs" "len \<le> length (drop n bs)"
    and v: "v = SBytes (take len (drop n bs))" and rest: "rest = drop len (drop n bs)"
    by (auto simp: spec_string_def len_def Let_def split: if_splits)
  have "le_bytes n len = take n bs"
    using le_bytes_le_nat [of "take n bs"] le by (simp add: len_def)
  then have "bs = le_bytes n len @ take len (drop n bs) @ rest"
    by (simp add: rest del: drop_drop)
  moreover have "len < 256 ^ n"
    using le_nat_less [of "take n bs"] le by (simp add: len_def)
  moreover have "length (take len (drop n bs)) = len"
    using le by simp
  ultimately show "\<exists>b. v = SBytes b \<and> length b < 256 ^ n \<and> bs = le_bytes n (length b) @ b @ rest"
    using v by metis
qed (auto simp: spec_string_def le_nat_le_bytes)

lemma spec_field_Some:
  assumes "f \<noteq> F_REST \<or> rest = []"
  shows "spec_field f bs = Some (v, rest) \<longleftrightarrow> field_fits f v \<and> bs = encode_field f v @ rest"
  using assms by (cases f; cases v) (auto simp: spec_int_Some spec_string_Some)

lemma spec_field_REST: "spec_field F_REST bs = Some (v, rest) \<Longrightarrow> rest = []"
  by simp

lemma spec_decode_iff:
  assumes "layout_ok fs"
  shows "spec_decode fs bs = Some vs \<longleftrightarrow> fields_fit fs vs \<and> bs = encode_fields fs vs"
  using assms
proof (induction fs arbitrary: bs vs)
  case Nil
  then show ?case by (cases vs) auto
next
  case (Cons f fs)
  have ok: "layout_ok fs" and last: "f = F_REST \<Longrightarrow> fs = []"
    using Cons.prems by auto
  show ?case
  proof (cases vs)
    case Nil
    then show ?thesis by (auto split: option.splits)
  next
    case (Cons v ws)
    have "spec_decode (f # fs) bs = Some (v # ws) \<longleftrightarrow>
        (\<exists>rest. spec_field f bs = Some (v, rest) \<and> spec_decode fs rest = Some ws)"
      by (auto split: option.splits)
    also have "\<dots> \<longleftrightarrow> (\<exists>rest. spec_field f bs = Some (v, rest) \<and> fields_fit fs ws \<and>
        rest = encode_fields fs ws)"
      using Cons.IH [OF ok] by blast
    also have "\<dots> \<longleftrightarrow> spec_field f bs = Some (v, encode_fields fs ws) \<and> fields_fit fs ws"
      by blast
    also have "\<dots> \<longleftrightarrow> field_fits f v \<and> bs = encode_field f v @ encode_fields fs ws \<and> fields_fit fs ws"
      using spec_field_Some [of f "encode_fields fs ws" bs v] last by (cases "f = F_REST") auto
    finally show ?thesis using Cons by auto
  qed
qed

section \<open>The decoder refines the specification\<close>

lemma decode_span_refines:
  assumes "wf_cursor c"
  shows "map_option (map_prod abs_value cur_rest) (decode_span c len) =
     (if length (cur_rest c) < unat len then None
      else Some (SBytes (take (unat len) (cur_rest c)), drop (unat len) (cur_rest c)))"
  using codec_take_None [OF assms, of len] codec_take_Some [OF assms, of len]
  by (auto simp: decode_span_def span_bytes_def split: option.splits)

lemma decode_span_wf:
  assumes "wf_cursor c" and "decode_span c len = Some (v, c')"
  shows "wf_cursor c'"
  using assms codec_take_Some(1) [OF assms(1)]
  by (auto simp: decode_span_def split: option.splits)

lemma decode_field_wf:
  "wf_cursor c \<Longrightarrow> decode_field c f = Some (v, c') \<Longrightarrow> wf_cursor c'"
  by (cases f) (auto dest: codec_take_Some(1) decode_span_wf split: option.splits)

lemma decode_int_refines:
  assumes "wf_cursor c" and "unat n = k" and "k \<le> 4"
  shows "(case codec_take c n of None \<Rightarrow> None
      | Some (p, c') \<Rightarrow> Some (SInt (unat (little p k)), cur_rest c')) = spec_int k (cur_rest c)"
  using codec_take_None [OF assms(1), of n] codec_take_Some [OF assms(1), of n] assms(2,3)
  by (auto simp: spec_int_def unat_little split: option.splits)

lemma decode_string_refines:
  assumes "wf_cursor c" and "unat n = k" and "k \<le> 2"
  shows "map_option (map_prod abs_value cur_rest)
      (case codec_take c n of None \<Rightarrow> None
       | Some (p, c') \<Rightarrow> decode_span c' (ucast (little p k))) = spec_string k (cur_rest c)"
proof (cases "codec_take c n")
  case None
  then show ?thesis
    using codec_take_None [OF assms(1), of n] assms(2) by (simp add: spec_string_def)
next
  case (Some pc)
  obtain p c' where pc: "pc = (p, c')" by (cases pc)
  note st = codec_take_Some [OF assms(1) Some [unfolded pc]]
  have "unat (ucast (little p k) :: u16) = le_nat (take k (cur_rest c))"
    using unat_little_u16 [of k p] st(2,5) assms(2,3) by simp
  then show ?thesis
    using decode_span_refines [OF st(1), of "ucast (little p k)"] Some st(3,4) assms(2)
    by (simp add: pc spec_string_def Let_def)
qed

lemma unat_ucast_little:
  assumes "n \<le> length p"
  shows "n = 1 \<Longrightarrow> unat (ucast (little p n) :: u8) = unat (little p n)"
    and "n = 2 \<Longrightarrow> unat (ucast (little p n) :: u16) = unat (little p n)"
proof -
  have less: "unat (little p n) < 256 ^ n" if "n \<le> 4"
    using le_nat_less [of "take n p"] unat_little [OF assms that] assms by simp
  show "n = 1 \<Longrightarrow> unat (ucast (little p n) :: u8) = unat (little p n)"
    using less by (simp add: unsigned_ucast_eq take_bit_nat_eq_self_iff)
  show "n = 2 \<Longrightarrow> unat (ucast (little p n) :: u16) = unat (little p n)"
    using less by (simp add: unsigned_ucast_eq take_bit_nat_eq_self_iff)
qed

lemma decode_field_refines:
  assumes "wf_cursor c"
  shows "map_option (map_prod abs_value cur_rest) (decode_field c f) = spec_field f (cur_rest c)"
proof (cases f)
  case F_U8
  then show ?thesis
    using decode_int_refines [OF assms, of 1 1] codec_take_Some(5) [OF assms, of 1]
    by (auto simp: unat_ucast_little split: option.splits)
next
  case F_U16
  then show ?thesis
    using decode_int_refines [OF assms, of 2 2] codec_take_Some(5) [OF assms, of 2]
    by (auto simp: unat_ucast_little split: option.splits)
next
  case F_U32
  then show ?thesis
    using decode_int_refines [OF assms, of 4 4] by (auto split: option.splits)
next
  case F_STR8
  then show ?thesis using decode_string_refines [OF assms, of 1 1] by simp
next
  case F_STR16
  then show ?thesis using decode_string_refines [OF assms, of 2 2] by simp
next
  case F_REST
  have "unat (cur_length c - cur_offset c) = length (cur_rest c)"
    using assms by (simp add: length_cur_rest unat_minus_u16 wf_cursor_def)
  with F_REST show ?thesis by (simp add: decode_span_refines [OF assms])
qed

lemma cur_rest_Nil_iff: "wf_cursor c \<Longrightarrow> cur_rest c = [] \<longleftrightarrow> cur_offset c = cur_length c"
proof -
  assume w: "wf_cursor c"
  have "cur_rest c = [] \<longleftrightarrow> unat (cur_length c) - unat (cur_offset c) = 0"
    using length_cur_rest [OF w] by (metis length_0_conv)
  also have "\<dots> \<longleftrightarrow> unat (cur_offset c) = unat (cur_length c)"
    using w by (auto simp: wf_cursor_def)
  finally show ?thesis by (simp add: word_unat_eq_iff)
qed

lemma tb_codec_decode_refines:
  assumes "wf_cursor c"
  shows "map_option (map abs_value) (tb_codec_decode c fs) = spec_decode fs (cur_rest c)"
  using assms
proof (induction fs arbitrary: c)
  case Nil
  then show ?case by (simp add: cur_rest_Nil_iff)
next
  case (Cons f fs)
  note r = decode_field_refines [OF Cons.prems, of f]
  show ?case
  proof (cases "decode_field c f")
    case None
    with r show ?thesis by simp
  next
    case (Some vc)
    obtain v c' where vc: "vc = (v, c')" by (cases vc)
    have w: "wf_cursor c'" using decode_field_wf [OF Cons.prems Some [unfolded vc]] .
    show ?thesis
      by (simp flip: r Cons.IH [OF w] add: Some vc option.map_comp comp_def)
  qed
qed

text \<open>Spans point into the buffer the cursor walks over.\<close>

definition span_within :: "TbCursor \<Rightarrow> TbSpan \<Rightarrow> bool" where
  "span_within c s \<longleftrightarrow> (\<exists>off. span_data s = drop off (cur_data c) \<and>
     off + unat (span_length s) \<le> unat (cur_length c))"

lemma span_within_wf: "wf_cursor c \<Longrightarrow> span_within c s \<Longrightarrow> wf_span s"
  by (auto simp: span_within_def wf_span_def wf_cursor_def)

lemma span_within_cong:
  "cur_data c' = cur_data c \<Longrightarrow> cur_length c' = cur_length c \<Longrightarrow> span_within c' s = span_within c s"
  by (simp add: span_within_def)

lemma decode_span_within:
  assumes "decode_span c len = Some (v, c')"
  shows "cur_data c' = cur_data c \<and> cur_length c' = cur_length c \<and>
     (\<forall>s. v = VSpan s \<longrightarrow> span_within c s)"
proof -
  from assms obtain p where t: "codec_take c len = Some (p, c')"
    and v: "v = VSpan \<lparr>span_data = p, span_length = len\<rparr>"
    by (auto simp: decode_span_def split: option.splits)
  note fr = codec_take_frame [OF t]
  have "span_within c \<lparr>span_data = p, span_length = len\<rparr>"
    unfolding span_within_def by (rule exI [of _ "unat (cur_offset c)"]) (use fr in simp)
  with fr v show ?thesis by simp
qed

lemma decode_field_within:
  assumes "decode_field c f = Some (v, c')"
  shows "cur_data c' = cur_data c \<and> cur_length c' = cur_length c \<and>
     (\<forall>s. v = VSpan s \<longrightarrow> span_within c s)"
proof -
  have str: ?thesis
    if "codec_take c n = Some (p, c1)" "decode_span c1 len = Some (v, c')" for n p c1 len
    using codec_take_frame(1,2) [OF that(1)] decode_span_within [OF that(2)]
    by (simp add: span_within_cong [of c1 c])
  have int: ?thesis
    if "codec_take c n = Some (p, c')" "\<And>s. v \<noteq> VSpan s" for n p
    using codec_take_frame(1,2) [OF that(1)] that(2) by simp
  show ?thesis
  proof (cases f)
    case F_REST
    with assms show ?thesis using decode_span_within by simp
  qed (use assms str int in \<open>auto split: option.splits\<close>)
qed

lemma tb_codec_decode_within:
  "tb_codec_decode c fs = Some vs \<Longrightarrow> VSpan s \<in> set vs \<Longrightarrow> span_within c s"
proof (induction fs arbitrary: c vs)
  case (Cons f fs)
  from Cons.prems(1) obtain v c' ws where f: "decode_field c f = Some (v, c')"
    and ws: "tb_codec_decode c' fs = Some ws" "vs = v # ws"
    by (auto split: option.splits)
  note w = decode_field_within [OF f]
  show ?case
  proof (cases "v = VSpan s")
    case True
    with w show ?thesis by simp
  next
    case False
    with Cons.prems(2) ws have "VSpan s \<in> set ws" by auto
    with Cons.IH [OF ws(1)] w show ?thesis by (simp add: span_within_cong [of c' c])
  qed
qed (simp split: if_splits)

section \<open>Typed records\<close>

text \<open>The values of a decoded record have the kinds its layout announces, and its spans are whole.\<close>

fun kind_matches :: "field_code \<Rightarrow> field_value \<Rightarrow> bool" where
  "kind_matches F_U8 v \<longleftrightarrow> (\<exists>w. v = V8 w)"
| "kind_matches F_U16 v \<longleftrightarrow> (\<exists>w. v = V16 w)"
| "kind_matches F_U32 v \<longleftrightarrow> (\<exists>w. v = V32 w)"
| "kind_matches _ v \<longleftrightarrow> (\<exists>s. v = VSpan s \<and> wf_span s)"

lemma decode_field_kind:
  assumes "wf_cursor c" and "decode_field c f = Some (v, c')"
  shows "kind_matches f v"
proof -
  have "\<exists>s. v = VSpan s" if "f \<notin> {F_U8, F_U16, F_U32}"
    using that assms(2) by (cases f) (auto simp: decode_span_def split: option.splits)
  moreover have "kind_matches f v" if "f \<in> {F_U8, F_U16, F_U32}"
    using that assms(2) by (auto split: option.splits)
  moreover have "wf_span s" if "v = VSpan s" for s
    using decode_field_within [OF assms(2)] span_within_wf [OF assms(1)] that by blast
  ultimately show ?thesis by (cases f) auto
qed

lemma decode_kinds:
  "wf_cursor c \<Longrightarrow> tb_codec_decode c fs = Some vs \<Longrightarrow> list_all2 kind_matches fs vs"
proof (induction fs arbitrary: c vs)
  case (Cons f fs)
  from Cons.prems(2) obtain v c' ws where f: "decode_field c f = Some (v, c')"
    and ws: "tb_codec_decode c' fs = Some ws" "vs = v # ws"
    by (auto split: option.splits)
  then show ?case
    using Cons.IH [OF decode_field_wf [OF Cons.prems(1) f] ws(1)] decode_field_kind [OF Cons.prems(1) f] by simp
qed (simp split: if_splits)

lemma account_spans:
  assumes "wf_cursor b" and "tb_codec_account b = Some r"
  shows "wf_span (acr_id r)" and "wf_span (acr_name r)"
proof -
  obtain vs where "tb_codec_decode b tb_layout_account = Some vs"
    using assms(2) by (cases "tb_codec_decode b tb_layout_account") (auto simp: tb_codec_account_def)
  with decode_kinds [OF assms(1) this] assms(2) show "wf_span (acr_id r)" "wf_span (acr_name r)"
    by (auto simp: tb_codec_account_def tb_layout_account_def list_all2_Cons1)
qed

lemma prefs_spans:
  assumes "wf_cursor b" and "tb_codec_prefs b = Some r"
  shows "wf_span (pfr_default_account r)" and "wf_span (pfr_host r)"
proof -
  obtain vs where "tb_codec_decode b tb_layout_prefs = Some vs"
    using assms(2) by (cases "tb_codec_decode b tb_layout_prefs") (auto simp: tb_codec_prefs_def)
  with decode_kinds [OF assms(1) this] assms(2) show "wf_span (pfr_default_account r)" "wf_span (pfr_host r)"
    by (auto simp: tb_codec_prefs_def tb_layout_prefs_def list_all2_Cons1)
qed

lemma chat_spans:
  assumes "wf_cursor b" and "tb_codec_chat b = Some r"
  shows "wf_span (chr_id r)" and "wf_span (chr_title r)" and "wf_span (chr_preview_sender r)"
    and "wf_span (chr_preview_extra r)" and "wf_span (chr_preview_text r)"
proof -
  obtain vs where "tb_codec_decode b tb_layout_chat = Some vs"
    using assms(2) by (cases "tb_codec_decode b tb_layout_chat") (auto simp: tb_codec_chat_def)
  with decode_kinds [OF assms(1) this] assms(2)
  show "wf_span (chr_id r)" "wf_span (chr_title r)" "wf_span (chr_preview_sender r)"
    "wf_span (chr_preview_extra r)" "wf_span (chr_preview_text r)"
    by (auto simp: tb_codec_chat_def tb_layout_chat_def list_all2_Cons1)
qed

lemma message_spans:
  assumes "wf_cursor b" and "tb_codec_message b = Some r"
  shows "wf_span (mgr_id r)" and "wf_span (mgr_sender r)" and "wf_span (mgr_extra r)"
    and "wf_span (mgr_text r)" and "wf_span (mgr_reply_id r)" and "wf_span (mgr_reply_sender r)"
    and "wf_span (mgr_reply_text r)" and "wf_span (mgr_forward r)" and "wf_span (mgr_signature r)"
proof -
  obtain vs where "tb_codec_decode b tb_layout_message = Some vs"
    using assms(2) by (cases "tb_codec_decode b tb_layout_message") (auto simp: tb_codec_message_def)
  with decode_kinds [OF assms(1) this] assms(2)
  show "wf_span (mgr_id r)" "wf_span (mgr_sender r)" "wf_span (mgr_extra r)" "wf_span (mgr_text r)"
    "wf_span (mgr_reply_id r)" "wf_span (mgr_reply_sender r)" "wf_span (mgr_reply_text r)"
    "wf_span (mgr_forward r)" "wf_span (mgr_signature r)"
    by (auto simp: tb_codec_message_def tb_layout_message_def list_all2_Cons1)
qed

lemma text_span:
  assumes "wf_cursor b" and "tb_codec_text b = Some v"
  shows "wf_span v"
proof -
  obtain vs where "tb_codec_decode b tb_layout_text = Some vs"
    using assms(2) by (cases "tb_codec_decode b tb_layout_text") (auto simp: tb_codec_text_def)
  with decode_kinds [OF assms(1) this] assms(2) show ?thesis
    by (auto simp: tb_codec_text_def tb_layout_text_def list_all2_Cons1)
qed

lemma template_span:
  assumes "wf_cursor b" and "tb_codec_template b = Some r"
  shows "wf_span (ter_preview r)"
proof -
  obtain vs where "tb_codec_decode b tb_layout_template = Some vs"
    using assms(2) by (cases "tb_codec_decode b tb_layout_template") (auto simp: tb_codec_template_def)
  with decode_kinds [OF assms(1) this] assms(2) show ?thesis
    by (auto simp: tb_codec_template_def tb_layout_template_def list_all2_Cons1)
qed

lemma send_state_spans:
  assumes "wf_cursor b" and "tb_codec_send_state b = Some r"
  shows "wf_span (ssr_account r)" and "wf_span (ssr_chat r)" and "wf_span (ssr_message r)"
    and "wf_span (ssr_title r)" and "wf_span (ssr_preview r)"
proof -
  obtain vs where "tb_codec_decode b tb_layout_send_state = Some vs"
    using assms(2) by (cases "tb_codec_decode b tb_layout_send_state") (auto simp: tb_codec_send_state_def)
  with decode_kinds [OF assms(1) this] assms(2)
  show "wf_span (ssr_account r)" "wf_span (ssr_chat r)" "wf_span (ssr_message r)"
    "wf_span (ssr_title r)" "wf_span (ssr_preview r)"
    by (auto simp: tb_codec_send_state_def tb_layout_send_state_def list_all2_Cons1)
qed

lemma media_info_span:
  assumes "wf_cursor b" and "tb_codec_media_info b = Some r"
  shows "wf_span (mir_item r)"
proof -
  obtain vs where "tb_codec_decode b tb_layout_media_info = Some vs"
    using assms(2) by (cases "tb_codec_decode b tb_layout_media_info") (auto simp: tb_codec_media_info_def)
  with decode_kinds [OF assms(1) this] assms(2) show ?thesis
    by (auto simp: tb_codec_media_info_def tb_layout_media_info_def list_all2_Cons1)
qed

lemma media_data_span:
  assumes "wf_cursor b" and "tb_codec_media_data b = Some r"
  shows "wf_span (mdr_data r)"
proof -
  obtain vs where "tb_codec_decode b tb_layout_media_data = Some vs"
    using assms(2) by (cases "tb_codec_decode b tb_layout_media_data") (auto simp: tb_codec_media_data_def)
  with decode_kinds [OF assms(1) this] assms(2) show ?thesis
    by (auto simp: tb_codec_media_data_def tb_layout_media_data_def list_all2_Cons1)
qed

section \<open>The record loop\<close>

lemma tb_codec_next_SomeD:
  assumes "tb_codec_next c = Some (t, body, c')"
  shows "cur_length c' = cur_length c" and "cur_data c' = cur_data c"
    and "unat (cur_offset c') = unat (cur_offset c) + 3 + unat (cur_length body)"
    and "unat (cur_offset c') \<le> unat (cur_length c)"
    and "cur_data body = drop (unat (cur_offset c) + 3) (cur_data c)"
    and "cur_offset body = 0"
    and "t = cur_data c ! unat (cur_offset c) \<or> length (cur_data c) < unat (cur_offset c)"
proof -
  from assms obtain header c1 content where t1: "codec_take c 3 = Some (header, c1)"
    and t2: "codec_take c1 (ucast (little (drop 1 header) 2)) = Some (content, c')"
    and b: "t = header ! 0" "body = tb_cursor_init (Some content) (ucast (little (drop 1 header) 2))"
    by (auto simp: tb_codec_next_def Let_def split: option.splits)
  note f1 = codec_take_frame [OF t1] and f2 = codec_take_frame [OF t2]
  show "cur_length c' = cur_length c" "cur_data c' = cur_data c"
    "unat (cur_offset c') = unat (cur_offset c) + 3 + unat (cur_length body)"
    "unat (cur_offset c') \<le> unat (cur_length c)"
    "cur_data body = drop (unat (cur_offset c) + 3) (cur_data c)" "cur_offset body = 0"
    using f1 f2 b by (simp_all add: tb_cursor_init_def)
  show "t = cur_data c ! unat (cur_offset c) \<or> length (cur_data c) < unat (cur_offset c)"
    using f1(5) b(1) by (cases "length (cur_data c) < unat (cur_offset c)") auto
qed

text \<open>
  \<open>while (cursor.offset < cursor.length) { if (!tb_codec_next(...)) { return bad; } ... } return fin;\<close>
  The handler returns the new state and, when the C body leaves the loop with a \<open>return\<close>, the
  returned value.
\<close>

function records_loop ::
  "'r \<Rightarrow> 'r \<Rightarrow> (u8 \<Rightarrow> TbCursor \<Rightarrow> 's \<Rightarrow> 's \<times> 'r option) \<Rightarrow> TbCursor \<Rightarrow> 's \<Rightarrow> 's \<times> 'r" where
  "records_loop bad fin handler c s =
     (if cur_offset c < cur_length c then
        (case tb_codec_next c of
           None \<Rightarrow> (s, bad)
         | Some (t, body, c') \<Rightarrow>
             (case handler t body s of
                (s', Some r) \<Rightarrow> (s', r)
              | (s', None) \<Rightarrow> records_loop bad fin handler c' s'))
      else (s, fin))"
  by pat_completeness auto
termination
proof (relation "measure (\<lambda>(bad, fin, handler, c, s). unat (cur_length c) - unat (cur_offset c))")
  fix bad fin :: 'r and handler :: "u8 \<Rightarrow> TbCursor \<Rightarrow> 's \<Rightarrow> 's \<times> 'r option"
    and c c' :: TbCursor and s s' :: 's and x y t z body p q
  assume "cur_offset c < cur_length c" "tb_codec_next c = Some x"
    "(t, y) = x" "(body, c') = y" "(s', q) = p"
  then show "((bad, fin, handler, c', s'), bad, fin, handler, c, s)
      \<in> measure (\<lambda>(bad, fin, handler, c, s). unat (cur_length c) - unat (cur_offset c))"
    using tb_codec_next_SomeD [of c t body c'] by (auto simp: word_less_nat_alt)
qed simp

declare records_loop.simps [simp del]

lemma records_loop_end: "\<not> cur_offset c < cur_length c \<Longrightarrow> records_loop bad fin h c s = (s, fin)"
  by (simp add: records_loop.simps)

lemma records_loop_bad:
  "cur_offset c < cur_length c \<Longrightarrow> tb_codec_next c = None \<Longrightarrow> records_loop bad fin h c s = (s, bad)"
  by (simp add: records_loop.simps)

lemma records_loop_return:
  "cur_offset c < cur_length c \<Longrightarrow> tb_codec_next c = Some (t, body, c') \<Longrightarrow> h t body s = (s', Some r) \<Longrightarrow>
   records_loop bad fin h c s = (s', r)"
  by (simp add: records_loop.simps)

lemma records_loop_next:
  "cur_offset c < cur_length c \<Longrightarrow> tb_codec_next c = Some (t, body, c') \<Longrightarrow> h t body s = (s', None) \<Longrightarrow>
   records_loop bad fin h c s = records_loop bad fin h c' s'"
  by (simp add: records_loop.simps [of _ _ _ c])

lemmas records_loop_simps =
  records_loop_end records_loop_bad records_loop_return records_loop_next

text \<open>Induction over the records a handler gets to see.\<close>

lemma records_loop_induct [case_names step]:
  assumes "\<And>c s. (\<And>t body c' s'. cur_offset c < cur_length c \<Longrightarrow> tb_codec_next c = Some (t, body, c') \<Longrightarrow>
      handler t body s = (s', None) \<Longrightarrow> P c' s') \<Longrightarrow> P c s"
  shows "P c s"
proof (induction "unat (cur_length c) - unat (cur_offset c)" arbitrary: c s rule: less_induct)
  case less
  show ?case
  proof (rule assms)
    fix t body c' s'
    assume "cur_offset c < cur_length c" "tb_codec_next c = Some (t, body, c')"
    then have "unat (cur_length c') - unat (cur_offset c') < unat (cur_length c) - unat (cur_offset c)"
      using tb_codec_next_SomeD [of c t body c'] by (simp add: word_less_nat_alt)
    then show "P c' s'" by (rule less)
  qed
qed

definition encode_frame :: "u8 \<times> bytes \<Rightarrow> bytes" where
  "encode_frame f = fst f # le_bytes 2 (length (snd f)) @ snd f"

definition encode_frames :: "(u8 \<times> bytes) list \<Rightarrow> bytes" where
  "encode_frames fs = concat (map encode_frame fs)"

lemma le_bytes_2: "length bs = 2 \<Longrightarrow> le_bytes 2 (le_nat bs) = bs"
  using le_bytes_le_nat [of bs] by simp

lemma tb_codec_next_sound:
  assumes w: "wf_cursor c" and n: "tb_codec_next c = Some (t, body, c')"
  shows "wf_cursor body" and "wf_cursor c'"
    and "cur_rest c = encode_frame (t, cur_rest body) @ cur_rest c'"
proof -
  from n obtain header c1 content where t1: "codec_take c 3 = Some (header, c1)"
    and t2: "codec_take c1 (ucast (little (drop 1 header) 2)) = Some (content, c')"
    and b: "t = header ! 0" "body = tb_cursor_init (Some content) (ucast (little (drop 1 header) 2))"
    by (auto simp: tb_codec_next_def Let_def split: option.splits)
  define len where "len = (ucast (little (drop 1 header) 2) :: u16)"
  note s1 = codec_take_Some [OF w t1]
  note s2 = codec_take_Some [OF s1(1) t2 [folded len_def]]
  show "wf_cursor c'" by (rule s2(1))
  note b2 = b(2) [folded len_def]
  show "wf_cursor body" using s2(5) by (simp add: b2)
  have hlen: "3 \<le> length header" using s1(5) by simp
  have head: "take 3 header = take 3 (cur_rest c)" using s1(2) by simp
  have "unat len = le_nat (take 2 (drop 1 header))"
    unfolding len_def using hlen by (intro unat_little_u16) auto
  then have enc: "le_bytes 2 (unat len) = take 2 (drop 1 header)"
    using hlen by (simp add: le_bytes_2)
  have body: "cur_rest body = take (unat len) (cur_rest c1)"
    using s2(2) by (simp add: b2)
  have "length (cur_rest body) = unat len" using body s2(4) by simp
  then have "encode_frame (t, cur_rest body) = header ! 0 # take 2 (drop 1 header) @ cur_rest body"
    by (simp add: encode_frame_def b(1) enc)
  also have "\<dots> = take 3 header @ cur_rest body"
    using hlen by (cases header) (simp_all add: numeral_3_eq_3 numeral_2_eq_2)
  also have "\<dots> @ cur_rest c' = take 3 (cur_rest c) @ drop 3 (cur_rest c)"
    using body s2(3) s1(3) by (simp add: head del: drop_drop)
  finally show "cur_rest c = encode_frame (t, cur_rest body) @ cur_rest c'" by simp
qed

lemma tb_codec_next_complete:
  assumes w: "wf_cursor c" and r: "cur_rest c = encode_frame (t, b) @ rest" and l: "length b < 65536"
  obtains body c' where "tb_codec_next c = Some (t, body, c')" "cur_rest body = b" "cur_rest c' = rest"
proof -
  have len3: "3 \<le> length (cur_rest c)" using r by (simp add: encode_frame_def)
  then obtain header c1 where t1: "codec_take c 3 = Some (header, c1)"
    using codec_take_None [OF w, of 3] by (cases "codec_take c 3") auto
  note s1 = codec_take_Some [OF w t1]
  have head: "take 3 header = t # le_bytes 2 (length b)" and c1: "cur_rest c1 = b @ rest"
    using s1(2,3) r by (simp_all add: encode_frame_def)
  have hl: "3 \<le> length header" using s1(5) by simp
  have "take 2 (drop 1 header) = drop 1 (take 3 header)" by (simp add: drop_take)
  then have "take 2 (drop 1 header) = le_bytes 2 (length b)" using head by simp
  then have len: "unat (ucast (little (drop 1 header) 2) :: u16) = length b"
    using unat_little_u16 [of 2 "drop 1 header"] hl l by (simp add: le_nat_le_bytes)
  obtain content c2 where t2: "codec_take c1 (ucast (little (drop 1 header) 2)) = Some (content, c2)"
    using codec_take_None [OF s1(1), of "ucast (little (drop 1 header) 2)"] len c1
    by (cases "codec_take c1 (ucast (little (drop 1 header) 2))") auto
  note s2 = codec_take_Some [OF s1(1) t2]
  have "header ! 0 = t" using head hl by (cases header) (simp_all add: numeral_3_eq_3)
  then have "tb_codec_next c = Some (t, tb_cursor_init (Some content) (ucast (little (drop 1 header) 2)), c2)"
    by (simp add: tb_codec_next_def t1 t2 [simplified] Let_def)
  then show thesis
    by (rule that) (use s2(2,3) len c1 in simp_all)
qed

text \<open>
  The contract of a record parser: every record it goes on from keeps the invariant, and every
  value it returns with comes with a state that satisfies what this value promises. That holds
  then for the result of a whole payload.
\<close>

locale record_parser =
  fixes handler :: "u8 \<Rightarrow> TbCursor \<Rightarrow> 's \<Rightarrow> 's \<times> 'r option"
    and inv :: "'s \<Rightarrow> bool"
    and post :: "'r \<Rightarrow> 's \<Rightarrow> bool"
  assumes handler_next:
    "inv s \<Longrightarrow> wf_cursor body \<Longrightarrow> handler t body s = (s', None) \<Longrightarrow> inv s'"
    and handler_return:
    "inv s \<Longrightarrow> wf_cursor body \<Longrightarrow> handler t body s = (s', Some r) \<Longrightarrow> post r s'"
begin

lemma loop_post:
  assumes "wf_cursor c" and "inv s" and "\<And>s. inv s \<Longrightarrow> post bad s" and "\<And>s. inv s \<Longrightarrow> post fin s"
  shows "post (snd (records_loop bad fin handler c s)) (fst (records_loop bad fin handler c s))"
  using assms(1,2)
proof (induction c s rule: records_loop_induct [where handler = handler])
  case (step c s)
  show ?case
  proof (cases "cur_offset c < cur_length c \<and> tb_codec_next c \<noteq> None")
    case True
    then obtain t body c' where n: "tb_codec_next c = Some (t, body, c')" by auto
    obtain s' r where h: "handler t body s = (s', r)" by fastforce
    note w = tb_codec_next_sound [OF step.prems(1) n]
    show ?thesis
      using True n h w(2) step.IH [of t body c' s'] handler_next [OF step.prems(2) w(1)] handler_return [OF step.prems(2) w(1)]
      by (cases r) (simp_all add: records_loop_simps)
  next
    case False
    then have "\<not> cur_offset c < cur_length c \<or> tb_codec_next c = None" by blast
    then show ?thesis using assms(3,4) step.prems(2)
      by (cases "cur_offset c < cur_length c") (auto simp: records_loop_end records_loop_bad)
  qed
qed

end

text \<open>A handler that keeps the invariant whatever it returns.\<close>

locale record_handler =
  fixes handler :: "u8 \<Rightarrow> TbCursor \<Rightarrow> 's \<Rightarrow> 's \<times> 'r option"
    and inv :: "'s \<Rightarrow> bool"
  assumes handler_inv:
    "inv s \<Longrightarrow> wf_cursor body \<Longrightarrow> handler t body s = (s', r) \<Longrightarrow> inv s'"

sublocale record_handler \<subseteq> parser: record_parser handler inv "\<lambda>_. inv"
  by unfold_locales (auto dest: handler_inv)

context record_handler begin

lemma loop_inv:
  assumes "wf_cursor c" and "inv s"
  shows "inv (fst (records_loop bad fin handler c s))"
  using parser.loop_post [OF assms] .

end

text \<open>The handler that only collects the records.\<close>

definition collect_record :: "u8 \<Rightarrow> TbCursor \<Rightarrow> (u8 \<times> bytes) list \<Rightarrow> (u8 \<times> bytes) list \<times> bool option" where
  "collect_record t body acc = (acc @ [(t, cur_rest body)], None)"

lemma encode_frames_Nil [simp]: "encode_frames [] = []"
  by (simp add: encode_frames_def)

lemma encode_frames_Cons [simp]: "encode_frames (f # fs) = encode_frame f @ encode_frames fs"
  by (simp add: encode_frames_def)

lemma offset_less_iff: "wf_cursor c \<Longrightarrow> cur_offset c < cur_length c \<longleftrightarrow> cur_rest c \<noteq> []"
  by (auto simp: cur_rest_Nil_iff wf_cursor_def word_less_nat_alt word_unat_eq_iff)

lemma collect_loop_sound:
  assumes "wf_cursor c" and "records_loop False True collect_record c acc = (res, True)"
  shows "\<exists>fs. res = acc @ fs \<and> cur_rest c = encode_frames fs \<and> (\<forall>f \<in> set fs. length (snd f) < 65536)"
  using assms
proof (induction c acc rule: records_loop_induct [where handler = collect_record])
  case (step c acc)
  show ?case
  proof (cases "cur_offset c < cur_length c")
    case False
    with step.prems have "cur_rest c = encode_frames []" "res = acc"
      by (simp_all add: offset_less_iff records_loop_end)
    then show ?thesis by force
  next
    case more: True
    with step.prems(2) obtain t body c' where n: "tb_codec_next c = Some (t, body, c')"
      by (cases "tb_codec_next c") (auto simp: records_loop_bad)
    have rec: "records_loop False True collect_record c' (acc @ [(t, cur_rest body)]) = (res, True)"
      using step.prems(2) records_loop_next [OF more n, of collect_record acc]
      by (simp add: collect_record_def [of t body acc])
    note so = tb_codec_next_sound [OF step.prems(1) n]
    have lb: "length (cur_rest body) < 65536"
      using length_cur_rest [OF so(1)] unat_u16_less [of "cur_length body"] by linarith
    obtain fs where "res = (acc @ [(t, cur_rest body)]) @ fs" "cur_rest c' = encode_frames fs"
      "\<forall>f \<in> set fs. length (snd f) < 65536"
      using step.IH [OF more n collect_record_def so(2) rec] by auto
    then show ?thesis
      by (intro exI [of _ "(t, cur_rest body) # fs"]) (simp add: so(3) lb)
  qed
qed

lemma collect_loop_complete:
  assumes "wf_cursor c" and "cur_rest c = encode_frames fs" and "\<forall>f \<in> set fs. length (snd f) < 65536"
  shows "records_loop False True collect_record c acc = (acc @ fs, True)"
  using assms
proof (induction fs arbitrary: c acc)
  case Nil
  then show ?case by (simp add: records_loop_end offset_less_iff)
next
  case (Cons f fs)
  have r: "cur_rest c = encode_frame (fst f, snd f) @ encode_frames fs" using Cons.prems(2) by simp
  obtain body c' where n: "tb_codec_next c = Some (fst f, body, c')"
    and b: "cur_rest body = snd f" "cur_rest c' = encode_frames fs"
    using tb_codec_next_complete [OF Cons.prems(1) r] Cons.prems(3) by auto
  have "cur_offset c < cur_length c"
    using Cons.prems(1) r by (simp add: offset_less_iff encode_frame_def)
  then have "records_loop False True collect_record c acc =
      records_loop False True collect_record c' (acc @ [f])"
    using records_loop_next [OF _ n, of collect_record acc] b
    by (simp add: collect_record_def [of "fst f" body acc])
  also have "\<dots> = ((acc @ [f]) @ fs, True)"
    using Cons.IH [of c'] tb_codec_next_sound(2) [OF Cons.prems(1) n] b(2) Cons.prems(3) by simp
  finally show ?case by simp
qed

text \<open>Evaluation at numeral sizes.\<close>

lemma little_loop_numeral:
  "little_loop p (numeral k) v =
     little_loop p (pred_numeral k) (push_bit 8 v OR ucast (p ! pred_numeral k))"
  by (simp only: numeral_eq_Suc little_loop.simps)

lemma le_bytes_numeral:
  "le_bytes (numeral k) v = of_nat (v mod 256) # le_bytes (pred_numeral k) (v div 256)"
  by (simp only: numeral_eq_Suc le_bytes.simps)

lemmas codec_eval = little_loop_numeral le_bytes_numeral tb_cursor_init_def codec_take_def
  decode_span_def little_def tb_codec_next_def encode_frame_def

section \<open>Properties\<close>

text \<open>
  C1. The table-driven decoder accepts a record body for a layout exactly when the body is the
  encoding of a list of values that fit the layout, and it then returns those values: it neither
  accepts a truncated, over-long or padded body nor rejects or changes a well-formed one.
\<close>

theorem codec_decode_exact:
  assumes "wf_cursor c" and "layout_ok fs"
  shows "(\<exists>vs. tb_codec_decode c fs = Some vs \<and> map abs_value vs = ws) \<longleftrightarrow>
     fields_fit fs ws \<and> cur_rest c = encode_fields fs ws"
proof -
  have "(\<exists>vs. tb_codec_decode c fs = Some vs \<and> map abs_value vs = ws) \<longleftrightarrow>
      map_option (map abs_value) (tb_codec_decode c fs) = Some ws"
    by (cases "tb_codec_decode c fs") auto
  also have "\<dots> \<longleftrightarrow> spec_decode fs (cur_rest c) = Some ws"
    by (simp add: tb_codec_decode_refines [OF assms(1)])
  finally show ?thesis by (simp add: spec_decode_iff [OF assms(2)])
qed

definition sample_status :: TbCursor where
  "sample_status = tb_cursor_init (Some [2, 1]) 2"

theorem codec_decode_exact_witness:
  "wf_cursor sample_status \<and> layout_ok tb_layout_status \<and>
   (\<exists>vs. tb_codec_decode sample_status tb_layout_status = Some vs \<and> map abs_value vs = [SInt 2, SInt 1])"
proof -
  have w: "wf_cursor sample_status" and l: "layout_ok tb_layout_status"
    by (simp_all add: sample_status_def tb_layout_status_def)
  have "fields_fit tb_layout_status [SInt 2, SInt 1] \<and>
      cur_rest sample_status = encode_fields tb_layout_status [SInt 2, SInt 1]"
    by (simp add: sample_status_def tb_layout_status_def)
  then show ?thesis using codec_decode_exact [OF w l] w l by blast
qed

text \<open>
  C2. The record loop over a received payload ends with success having seen exactly the records
  \<open>fs\<close> if and only if the payload is the concatenation of the frames of \<open>fs\<close>; it never runs past
  the payload and never loses, merges or reorders a record.
\<close>

theorem record_loop_exact:
  assumes "unat len \<le> length data"
  shows "records_loop False True collect_record (tb_cursor_init (Some data) len) [] = (fs, True) \<longleftrightarrow>
     take (unat len) data = encode_frames fs \<and> (\<forall>f \<in> set fs. length (snd f) < 65536)"
proof -
  have w: "wf_cursor (tb_cursor_init (Some data) len)" using assms by simp
  show ?thesis
    using collect_loop_sound [OF w, of "[]" fs] collect_loop_complete [OF w, of fs "[]"] by auto
qed

theorem record_loop_exact_witness:
  "records_loop False True collect_record (tb_cursor_init (Some [7, 2, 0, 2, 1, 5, 0, 0]) 8) [] =
     ([(7, [2, 1]), (5, [])], True)"
  using record_loop_exact [of 8 "[7, 2, 0, 2, 1, 5, 0, 0]" "[(7, [2, 1]), (5, [])]"]
  by (simp add: encode_frame_def le_bytes_numeral)

text \<open>
  C3. Memory safety of decoding: every span a decoded record holds points into the received
  buffer and ends inside the received length, so reading it never leaves the buffer.
\<close>

theorem codec_spans_in_buffer:
  assumes "wf_cursor c" and "tb_codec_decode c fs = Some vs" and "VSpan s \<in> set vs"
  shows "\<exists>off. span_data s = drop off (cur_data c) \<and> off + unat (span_length s) \<le> unat (cur_length c) \<and>
     unat (span_length s) \<le> length (span_data s)"
  using tb_codec_decode_within [OF assms(2,3)] span_within_wf [OF assms(1), of s]
  by (auto simp: span_within_def wf_span_def)

definition sample_text :: TbCursor where
  "sample_text = tb_cursor_init (Some [2, 0, 104, 105, 9]) 4"

theorem codec_spans_in_buffer_witness:
  "\<exists>off. span_data \<lparr>span_data = [104, 105, 9], span_length = 2\<rparr> = drop off (cur_data sample_text) \<and>
     off + unat (span_length \<lparr>span_data = [104, 105, 9], span_length = 2\<rparr>) \<le> unat (cur_length sample_text) \<and>
     unat (span_length \<lparr>span_data = [104, 105, 9], span_length = 2\<rparr>) \<le>
       length (span_data \<lparr>span_data = [104, 105, 9], span_length = 2\<rparr>)"
proof (rule codec_spans_in_buffer)
  show "wf_cursor sample_text" by (simp add: sample_text_def)
  show "tb_codec_decode sample_text tb_layout_text =
      Some [VSpan \<lparr>span_data = [104, 105, 9], span_length = 2\<rparr>]"
    by (simp add: sample_text_def tb_layout_text_def codec_eval)
qed simp

end
