(* ===== verification/Text.thy ===== *)
theory Text
  imports Records
begin

text \<open>
  Text helpers (\<^verbatim>\<open>text.c\<close>): cutting UTF-8 at a character boundary, copying spans into
  fixed arrays, validating identifiers, parsing 64-bit decimal identifiers and the byte budget
  for heap copies of texts.
\<close>

section \<open>Operations\<close>

text \<open>\<open>while (size > 0 && (data[size] & 0xC0) == 0x80) { --size; }\<close>\<close>

fun utf8_back :: "bytes \<Rightarrow> nat \<Rightarrow> nat" where
  "utf8_back d 0 = 0"
| "utf8_back d (Suc n) = (if d ! Suc n AND 0xC0 = 0x80 then utf8_back d n else Suc n)"

definition tb_utf8_fit :: "bytes \<Rightarrow> nat \<Rightarrow> nat \<Rightarrow> nat" where
  "tb_utf8_fit d len capacity =
     (if capacity = 0 \<or> d = [] then 0
      else let n = (if len < capacity - 1 then len else capacity - 1)
           in if n < len then utf8_back d n else n)"

definition tb_copy_span :: "cstring \<Rightarrow> nat \<Rightarrow> TbSpan \<Rightarrow> cstring" where
  "tb_copy_span out capacity v =
     (if capacity = 0 then out
      else cstr (take (tb_utf8_fit (span_data v) (unat (span_length v)) capacity) (span_data v)))"

definition is_digit :: "u8 \<Rightarrow> bool" where
  "is_digit b \<longleftrightarrow> 48 \<le> b \<and> b \<le> 57"

text \<open>
  \<open>tb_parse_id\<close>: the loop over the characters with the overflow test before each digit. The
  result is \<open>None\<close> for \<open>false\<close>; the \<open>int64_t\<close> result is an integer.
\<close>

fun parse_id_loop :: "bool \<Rightarrow> cstring \<Rightarrow> u64 \<Rightarrow> int option" where
  "parse_id_loop negative [] result =
     Some (if negative then - sint result else sint result)"
| "parse_id_loop negative (c # cs) result =
     (if c < 48 \<or> c > 57 then None
      else let digit = ucast (c - 48) :: u64
           in if result > 922337203685477580 \<or> (result = 922337203685477580 \<and> digit > 7)
              then (if negative \<and> result = 922337203685477580 \<and> digit = 8 \<and> cs = []
                    then Some (- 9223372036854775808) else None)
              else parse_id_loop negative cs (result * 10 + digit))"

definition tb_parse_id :: "cstring \<Rightarrow> int option" where
  "tb_parse_id v =
     (case v of
        [] \<Rightarrow> None
      | c # cs \<Rightarrow>
          (let negative = (c = 45); cursor = (if negative then cs else v)
           in if cursor = [] then None else parse_id_loop negative cursor 0))"

definition tb_copy_id :: "cstring \<Rightarrow> nat \<Rightarrow> TbSpan \<Rightarrow> bool \<Rightarrow> bool \<times> cstring" where
  "tb_copy_id out capacity v allow_negative =
     (let len = unat (span_length v); d = span_data v
      in if len = 0 \<or> len \<ge> capacity then (False, out)
         else if d ! 0 = 45 \<and> (\<not> allow_negative \<or> len < 2) then (False, out)
         else let start = (if d ! 0 = 45 then 1 else 0)
              in if d ! start = 48 then (False, out)
                 else if \<exists>i\<in>set [start..<len]. d ! i < 48 \<or> d ! i > 57 then (False, out)
                 else case tb_parse_id (cstr (take len d)) of
                        None \<Rightarrow> (False, [])
                      | Some _ \<Rightarrow> (True, cstr (take len d)))"

definition uuid_char :: "nat \<Rightarrow> u8 \<Rightarrow> bool" where
  "uuid_char i c =
     (if i = 8 \<or> i = 13 \<or> i = 18 \<or> i = 23 then c = 45
      else (48 \<le> c \<and> c \<le> 57) \<or> (97 \<le> c \<and> c \<le> 102) \<or> (65 \<le> c \<and> c \<le> 70))"

definition tb_copy_uuid :: "cstring \<Rightarrow> nat \<Rightarrow> TbSpan \<Rightarrow> bool \<times> cstring" where
  "tb_copy_uuid out capacity v =
     (if span_length v \<noteq> 36 \<or> capacity < 37 then (False, out)
      else if \<exists>i\<in>set [0..<36]. \<not> uuid_char i (span_data v ! i) then (False, out)
      else (True, cstr (take 36 (span_data v))))"

text \<open>
  A heap copy is the list of the copied bytes (without the added terminator); \<open>None\<close> is the
  null pointer. The bytes of a copy may contain a zero, and \<open>strlen\<close> stops there.
\<close>

record TbBudget =
  bud_used :: nat
  bud_limit :: nat

definition tb_budget_copy ::
  "heap \<Rightarrow> TbBudget \<Rightarrow> TbSpan \<Rightarrow> nat \<Rightarrow> bool \<Rightarrow> bytes option \<times> TbBudget \<times> heap" where
  "tb_budget_copy h b v max_length force =
     (if span_length v = 0 then (None, b, h)
      else let n = tb_utf8_fit (span_data v) (unat (span_length v)) (max_length + 1)
           in if n = 0 then (None, b, h)
              else if \<not> force \<and> bud_used b + n + 1 > bud_limit b then (None, b, h)
              else case malloc h (n + 1) of
                     (False, h') \<Rightarrow> (None, b, h')
                   | (True, h') \<Rightarrow>
                       (Some (take n (span_data v)), b\<lparr>bud_used := bud_used b + (n + 1)\<rparr>, h'))"

definition tb_budget_free :: "TbBudget \<Rightarrow> bytes option \<Rightarrow> TbBudget" where
  "tb_budget_free b v =
     (case v of
        None \<Rightarrow> b
      | Some s \<Rightarrow>
          (let n = length (cstr s) + 1
           in b\<lparr>bud_used := (if bud_used b > n then bud_used b - n else 0)\<rparr>))"

definition tb_or_empty :: "bytes option \<Rightarrow> cstring" where
  "tb_or_empty v = (case v of None \<Rightarrow> [] | Some s \<Rightarrow> cstr s)"

text \<open>
  What a heap text costs, and the accounting law: the texts that are alive never cost more than
  the budget counts as used, whatever was copied and freed, and without \<open>force\<close> the budget
  never counts more than its limit.
\<close>

definition text_cost :: "bytes option \<Rightarrow> nat" where
  "text_cost v = (case v of None \<Rightarrow> 0 | Some s \<Rightarrow> length s + 1)"

lemma text_cost_None [simp]: "text_cost None = 0"
  by (simp add: text_cost_def)

lemma budget_copy_accounts:
  assumes "tb_budget_copy h b v n force = (t, b', h')"
  shows "bud_used b + text_cost t \<le> bud_used b'" and "bud_limit b' = bud_limit b"
    and "bud_used b \<le> bud_limit b \<Longrightarrow> \<not> force \<Longrightarrow> bud_used b' \<le> bud_limit b"
  using assms by (auto simp: tb_budget_copy_def text_cost_def Let_def split: if_splits prod.splits bool.splits)

lemma budget_free_accounts:
  shows "bud_used (tb_budget_free b t) \<le> bud_used b" and "bud_limit (tb_budget_free b t) = bud_limit b"
    and "x + text_cost t \<le> bud_used b \<Longrightarrow> x \<le> bud_used (tb_budget_free b t)"
  using length_cstr [of "case t of None \<Rightarrow> [] | Some s \<Rightarrow> s"]
  by (auto simp: tb_budget_free_def text_cost_def Let_def split: option.splits)

section \<open>UTF-8\<close>

text \<open>
  The structure of UTF-8: a lead byte followed by as many continuation bytes as it announces.
\<close>

definition is_cont :: "u8 \<Rightarrow> bool" where
  "is_cont b \<longleftrightarrow> b AND 0xC0 = 0x80"

definition seq_len :: "u8 \<Rightarrow> nat" where
  "seq_len b = (if is_cont b \<or> 0xF8 \<le> b then 0 else if b < 0x80 then 1 else if b < 0xE0 then 2
     else if b < 0xF0 then 3 else 4)"

inductive utf8 :: "bytes \<Rightarrow> bool" where
  utf8_Nil: "utf8 []"
| utf8_Char: "seq_len b = Suc (length cs) \<Longrightarrow> list_all is_cont cs \<Longrightarrow> utf8 rest \<Longrightarrow> utf8 (b # cs @ rest)"

inductive_cases utf8_ConsE: "utf8 (b # bs)"

lemma utf8_take_boundary:
  "utf8 bs \<Longrightarrow> k < length bs \<Longrightarrow> k = 0 \<or> \<not> is_cont (bs ! k) \<Longrightarrow> utf8 (take k bs)"
proof (induction arbitrary: k rule: utf8.induct)
  case utf8_Nil
  then show ?case by simp
next
  case (utf8_Char b cs rest)
  show ?case
  proof (cases "k \<le> length cs")
    case True
    then have "k = 0"
      using utf8_Char.prems utf8_Char.hyps(2)
      by (cases k) (auto simp: nth_append list_all_length)
    then show ?thesis by (simp add: utf8.utf8_Nil)
  next
    case False
    then obtain j where k: "k = Suc (length cs + j)"
      by (metis add_Suc less_iff_Suc_add not_le_imp_less add.commute)
    then have "utf8 (take j rest)"
      using utf8_Char.prems by (intro utf8_Char.IH) (auto simp: nth_append)
    then have "utf8 (b # cs @ take j rest)"
      by (rule utf8.utf8_Char [OF utf8_Char.hyps(1,2)])
    then show ?thesis by (simp add: k)
  qed
qed

lemma utf8_boundary_not_cont:
  "utf8 bs \<Longrightarrow> utf8 (take k bs) \<Longrightarrow> k < length bs \<Longrightarrow> \<not> is_cont (bs ! k)"
proof (induction arbitrary: k rule: utf8.induct)
  case utf8_Nil
  then show ?case by simp
next
  case (utf8_Char b cs rest)
  show ?case
  proof (cases k)
    case 0
    then show ?thesis using utf8_Char.hyps(1) by (auto simp: seq_len_def)
  next
    case (Suc j)
    with utf8_Char.prems(1) have "utf8 (b # take j (cs @ rest))" by simp
    then obtain cs' rest' where c: "seq_len b = Suc (length cs')" "take j (cs @ rest) = cs' @ rest'"
      "utf8 rest'"
      by (auto elim: utf8_ConsE)
    then have len: "length cs' = length cs" using utf8_Char.hyps(1) by simp
    then have "length cs \<le> j" using c(2) by (metis length_append length_take le_add1 min.cobounded2 order_trans)
    then have "rest' = take (j - length cs) rest" using c(2) len by (auto simp: append_eq_append_conv)
    then have "\<not> is_cont (rest ! (j - length cs))"
      using utf8_Char.prems(2) c(3) Suc \<open>length cs \<le> j\<close> by (intro utf8_Char.IH) auto
    then show ?thesis using Suc \<open>length cs \<le> j\<close> by (simp add: nth_append)
  qed
qed

lemma utf8_back_le: "utf8_back d n \<le> n"
  by (induction n) (auto simp: le_SucI)

lemma utf8_back_stops: "utf8_back d n = 0 \<or> \<not> is_cont (d ! utf8_back d n)"
  by (induction n) (auto simp: is_cont_def)

lemma utf8_back_skips: "utf8_back d n < k \<Longrightarrow> k \<le> n \<Longrightarrow> is_cont (d ! k)"
  by (induction n) (auto simp: is_cont_def le_Suc_eq split: if_splits)

lemma tb_utf8_fit_le:
  shows "tb_utf8_fit d len capacity \<le> len" and "0 < capacity \<Longrightarrow> tb_utf8_fit d len capacity < capacity"
  and "tb_utf8_fit d len capacity \<le> capacity - 1"
  using utf8_back_le [of d "capacity - 1"] by (auto simp: tb_utf8_fit_def Let_def)

lemma tb_utf8_fit_all: "len < capacity \<Longrightarrow> d \<noteq> [] \<Longrightarrow> tb_utf8_fit d len capacity = len"
  by (auto simp: tb_utf8_fit_def Let_def)

lemma tb_utf8_fit_zero_length [simp]: "tb_utf8_fit d 0 capacity = 0"
  by (simp add: tb_utf8_fit_def Let_def)

lemma utf8_fit_boundary:
  assumes d: "len \<le> length d" and u: "utf8 (take len d)"
  shows "utf8 (take (tb_utf8_fit d len capacity) d)"
proof -
  let ?n = "capacity - 1"
  have whole: ?thesis if "tb_utf8_fit d len capacity = len" using u that by simp
  have empty: ?thesis if "tb_utf8_fit d len capacity = 0" using that by (simp add: utf8.utf8_Nil)
  show ?thesis
  proof (cases "capacity = 0 \<or> d = [] \<or> len \<le> ?n")
    case True
    then show ?thesis using whole empty by (auto simp: tb_utf8_fit_def Let_def)
  next
    case False
    define k where "k = utf8_back d ?n"
    have eq: "tb_utf8_fit d len capacity = k" using False by (simp add: tb_utf8_fit_def Let_def k_def)
    have "k < len" using utf8_back_le [of d ?n] False by (simp add: k_def)
    moreover have "k = 0 \<or> \<not> is_cont (take len d ! k)"
      using utf8_back_stops [of d ?n] \<open>k < len\<close> by (auto simp: k_def)
    ultimately have "utf8 (take k (take len d))"
      using d by (intro utf8_take_boundary [OF u]) simp_all
    then show ?thesis using \<open>k < len\<close> by (simp add: eq)
  qed
qed

lemma utf8_fit_greatest:
  assumes d: "len \<le> length d" and u: "utf8 (take len d)"
    and k: "tb_utf8_fit d len capacity < k" "k \<le> len" "k < capacity"
  shows "\<not> utf8 (take k d)"
proof
  assume "utf8 (take k d)"
  have lt: "k < len" "capacity \<noteq> 0" "d \<noteq> []" "\<not> len < capacity - 1"
    using k d by (auto simp: tb_utf8_fit_def Let_def split: if_splits)
  then have "is_cont (d ! k)"
    using k by (intro utf8_back_skips [of d "capacity - 1"]) (auto simp: tb_utf8_fit_def Let_def split: if_splits)
  moreover have "\<not> is_cont (take len d ! k)"
    using utf8_boundary_not_cont [OF u, of k] \<open>utf8 (take k d)\<close> lt d by (simp add: min_def)
  ultimately show False using lt by simp
qed

section \<open>Decimal identifiers\<close>

definition dec_step :: "nat \<Rightarrow> u8 \<Rightarrow> nat" where
  "dec_step v c = 10 * v + (unat c - 48)"

definition dec_value :: "cstring \<Rightarrow> nat" where
  "dec_value cs = foldl dec_step 0 cs"

lemma foldl_dec_step_ge: "v \<le> foldl dec_step v cs"
proof (induction cs arbitrary: v)
  case (Cons c cs)
  have "v \<le> dec_step v c" by (simp add: dec_step_def)
  also have "\<dots> \<le> foldl dec_step (dec_step v c) cs" by (rule Cons.IH)
  finally show ?case by simp
qed simp

lemma is_digit_unat: "is_digit c \<longleftrightarrow> 48 \<le> unat c \<and> unat c \<le> 57"
  by (simp add: is_digit_def word_le_nat_alt)

lemma digit_value:
  assumes "is_digit c"
  shows "unat (ucast (c - 48) :: u64) = unat c - 48"
proof -
  have "unat (c - 48) = unat c - 48"
    using assms by (simp add: is_digit_def unat_sub)
  moreover have "unat c - 48 < 18446744073709551616"
    using unat_u8_less [of c] by linarith
  ultimately show ?thesis
    by (simp add: unsigned_ucast_eq take_bit_nat_eq_self_iff)
qed

lemma sint_small_u64: "unat (r :: u64) < 9223372036854775808 \<Longrightarrow> sint r = int (unat r)"
proof -
  assume "unat r < 9223372036854775808"
  then have "int (unat r) < int 9223372036854775808"
    by (simp only: of_nat_less_iff)
  then have "uint r < 9223372036854775808" by simp
  moreover have "- 9223372036854775808 \<le> uint r"
    using uint_ge_0 [of r] by linarith
  ultimately show ?thesis
    by (simp add: sint_uint signed_take_bit_int_eq_self_iff)
qed

definition id_limit :: "bool \<Rightarrow> nat" where
  "id_limit negative = (if negative then 9223372036854775808 else 9223372036854775807)"

lemma int64_min_digits:
  assumes "10 * r + d = (9223372036854775808 :: nat)" and "d \<le> 9"
  shows "r = 922337203685477580 \<and> d = 8"
proof -
  have "(10 * r + d) mod 10 = 8" using assms(1) by simp
  then have "d = 8" using assms(2) by simp
  with assms(1) show ?thesis by simp
qed

lemma parse_id_loop_eq:
  assumes "unat result \<le> 9223372036854775807"
  shows "parse_id_loop negative cs result =
     (if list_all is_digit cs \<and> foldl dec_step (unat result) cs \<le> id_limit negative
      then Some (if negative then - int (foldl dec_step (unat result) cs)
                 else int (foldl dec_step (unat result) cs))
      else None)"
  using assms
proof (induction cs arbitrary: result)
  case Nil
  then show ?case by (simp add: sint_small_u64 id_limit_def)
next
  case (Cons c cs)
  let ?L = "922337203685477580 :: nat"
  show ?case
  proof (cases "is_digit c")
    case False
    then show ?thesis by (auto simp: is_digit_def not_le)
  next
    case dig: True
    define digit where "digit = (ucast (c - 48) :: u64)"
    have du: "unat digit = unat c - 48" unfolding digit_def by (rule digit_value [OF dig])
    have d9: "unat c - 48 \<le> 9" using dig by (auto simp: is_digit_unat)
    have nodig: "\<not> (c < 48 \<or> 57 < c)" using dig by (auto simp: is_digit_def)
    have step: "dec_step (unat result) c = 10 * unat result + unat digit"
      by (simp add: dec_step_def du)
    have over: "result > 922337203685477580 \<or> (result = 922337203685477580 \<and> digit > 7) \<longleftrightarrow>
        9223372036854775807 < dec_step (unat result) c"
      unfolding step using d9 du by (auto simp: word_less_nat_alt word_unat_eq_iff)
    have "unat digit \<le> 9" using d9 du by simp
    then have "10 * unat result + unat digit = 9223372036854775808 \<longleftrightarrow>
        unat result = 922337203685477580 \<and> unat digit = 8"
      using int64_min_digits [of "unat result" "unat digit"] by fastforce
    then have min: "result = 922337203685477580 \<and> digit = 8 \<longleftrightarrow>
        dec_step (unat result) c = 9223372036854775808"
      by (simp add: step word_unat_eq_iff)
    show ?thesis
    proof (cases "9223372036854775807 < dec_step (unat result) c")
      case False
      have nat: "unat (result * 10 + digit) = dec_step (unat result) c"
        using False by (simp add: step unat_word_ariths)
      have "parse_id_loop negative (c # cs) result = parse_id_loop negative cs (result * 10 + digit)"
        using False by (simp only: parse_id_loop.simps Let_def nodig over if_False flip: digit_def)
      then show ?thesis
        using Cons.IH [of "result * 10 + digit"] False dig nat by simp
    next
      case True
      have eq: "parse_id_loop negative (c # cs) result =
          (if negative \<and> result = 922337203685477580 \<and> digit = 8 \<and> cs = []
           then Some (- 9223372036854775808) else None)"
        using True over nodig by (simp add: Let_def flip: digit_def)
      have ge: "dec_step (unat result) c \<le> foldl dec_step (dec_step (unat result) c) cs"
        by (rule foldl_dec_step_ge)
      show ?thesis
      proof (cases cs)
        case Nil
        then show ?thesis
          using eq min True dig by (auto simp: id_limit_def)
      next
        case (Cons e es)
        have "10 * dec_step (unat result) c \<le> foldl dec_step (dec_step (unat result) c) cs"
          unfolding Cons using foldl_dec_step_ge [of "dec_step (dec_step (unat result) c) e" es]
          by (simp add: dec_step_def)
        then have "\<not> foldl dec_step (dec_step (unat result) c) cs \<le> id_limit negative"
          using True by (auto simp: id_limit_def)
        then show ?thesis using eq Cons by simp
      qed
    qed
  qed
qed

lemma parse_id_loop_zero:
  "parse_id_loop negative cs 0 =
     (if list_all is_digit cs \<and> dec_value cs \<le> id_limit negative
      then Some (if negative then - int (dec_value cs) else int (dec_value cs)) else None)"
  using parse_id_loop_eq [of 0 negative cs] by (simp add: dec_value_def)

text \<open>The decimal rendering of a number, the inverse of \<open>dec_value\<close>.\<close>

fun dec_digits :: "nat \<Rightarrow> cstring" where
  "dec_digits n = (if n < 10 then [of_nat (48 + n)] else dec_digits (n div 10) @ [of_nat (48 + n mod 10)])"

declare dec_digits.simps [simp del]

definition print_id :: "int \<Rightarrow> cstring" where
  "print_id n = (if n < 0 then 45 # dec_digits (nat (- n)) else dec_digits (nat n))"

lemma digit_of_nat: "n < 10 \<Longrightarrow> is_digit (of_nat (48 + n)) \<and> unat (of_nat (48 + n) :: u8) = 48 + n"
  by (simp only: is_digit_unat) (simp add: unat_of_nat_u8 del: of_nat_add)

lemma dec_digits_digits: "list_all is_digit (dec_digits n)"
proof (induction n rule: dec_digits.induct)
  case (1 n)
  then show ?case
    by (subst dec_digits.simps) (auto simp: digit_of_nat simp del: of_nat_add)
qed

lemma dec_digits_nonempty [simp]: "dec_digits n \<noteq> []"
  by (subst dec_digits.simps) simp

lemma dec_value_snoc: "dec_value (cs @ [c]) = 10 * dec_value cs + (unat c - 48)"
  by (simp add: dec_value_def dec_step_def)

lemma dec_value_digits: "dec_value (dec_digits n) = n"
proof (induction n rule: dec_digits.induct)
  case (1 n)
  show ?case
  proof (cases "n < 10")
    case True
    then show ?thesis
      by (subst dec_digits.simps)
         (simp add: dec_value_def dec_step_def digit_of_nat del: of_nat_add)
  next
    case False
    with 1 show ?thesis
      by (subst dec_digits.simps) (simp add: dec_value_snoc digit_of_nat del: of_nat_add)
  qed
qed

lemma dec_digits_hd: "0 < n \<Longrightarrow> hd (dec_digits n) \<noteq> 48"
proof (induction n rule: dec_digits.induct)
  case (1 n)
  show ?case
  proof (cases "n < 10")
    case True
    with "1.prems" have "unat (of_nat (48 + n) :: u8) \<noteq> 48" by (simp add: digit_of_nat del: of_nat_add)
    then have "(of_nat (48 + n) :: u8) \<noteq> 48" by (metis unat_numeral_u8_48)
    with True show ?thesis by (subst dec_digits.simps) simp
  next
    case False
    then have "hd (dec_digits (n div 10)) \<noteq> 48" using 1 by simp
    with False show ?thesis by (subst dec_digits.simps) simp
  qed
qed

lemma digit_rebuild: "is_digit c \<Longrightarrow> (of_nat (48 + (unat c - 48)) :: u8) = c"
  by (simp add: is_digit_unat del: of_nat_add)

lemma dec_value_pos: "list_all is_digit cs \<Longrightarrow> cs \<noteq> [] \<Longrightarrow> hd cs \<noteq> 48 \<Longrightarrow> 0 < dec_value cs"
proof -
  assume a: "list_all is_digit cs" "cs \<noteq> []" "hd cs \<noteq> 48"
  then obtain c ds where cs: "cs = c # ds" "is_digit c" "c \<noteq> 48" by (cases cs) auto
  have "unat c \<noteq> 48" using cs(3) by (metis unat_numeral_u8_48 word_unat_eq_iff)
  then have "0 < dec_step 0 c" using cs(2) by (auto simp: dec_step_def is_digit_unat)
  also have "\<dots> \<le> foldl dec_step (dec_step 0 c) ds" by (rule foldl_dec_step_ge)
  finally show ?thesis by (simp add: dec_value_def cs(1))
qed

lemma dec_digits_value:
  "list_all is_digit cs \<Longrightarrow> cs \<noteq> [] \<Longrightarrow> hd cs \<noteq> 48 \<Longrightarrow> dec_digits (dec_value cs) = cs"
proof (induction cs rule: rev_induct)
  case (snoc c cs)
  have c: "is_digit c" "unat c - 48 < 10" using snoc.prems(1) by (auto simp: is_digit_unat)
  show ?case
  proof (cases "cs = []")
    case True
    then show ?thesis
      using c digit_rebuild [of c]
      by (subst dec_digits.simps) (simp add: dec_value_def dec_step_def del: of_nat_add)
  next
    case False
    have IH: "dec_digits (dec_value cs) = cs" using snoc False by simp
    have "0 < dec_value cs" using snoc.prems False by (intro dec_value_pos) auto
    then have ge: "\<not> dec_value (cs @ [c]) < 10" by (simp add: dec_value_snoc)
    have "dec_value (cs @ [c]) div 10 = dec_value cs" "dec_value (cs @ [c]) mod 10 = unat c - 48"
      using c(2) by (simp_all add: dec_value_snoc)
    with ge IH digit_rebuild [OF c(1)] show ?thesis
      by (subst dec_digits.simps) (simp del: of_nat_add)
  qed
qed simp

definition in_int64 :: "int \<Rightarrow> bool" where
  "in_int64 n \<longleftrightarrow> - 9223372036854775808 \<le> n \<and> n \<le> 9223372036854775807"

definition signed_value :: "bool \<Rightarrow> cstring \<Rightarrow> int" where
  "signed_value neg ds = (if neg then - int (dec_value ds) else int (dec_value ds))"

lemma signed_value_range: "in_int64 (signed_value neg ds) \<longleftrightarrow> dec_value ds \<le> id_limit neg"
  by (auto simp: in_int64_def signed_value_def id_limit_def)

lemma minus_not_digit [simp]: "\<not> is_digit 45"
  by (simp add: is_digit_def)

lemma tb_parse_id_minus:
  "tb_parse_id (45 # ds) = (if ds \<noteq> [] \<and> list_all is_digit ds \<and> in_int64 (signed_value True ds)
     then Some (signed_value True ds) else None)"
  by (simp add: tb_parse_id_def Let_def parse_id_loop_zero signed_value_range) (simp add: signed_value_def)

lemma tb_parse_id_plain:
  "ds = [] \<or> hd ds \<noteq> 45 \<Longrightarrow>
   tb_parse_id ds = (if ds \<noteq> [] \<and> list_all is_digit ds \<and> in_int64 (signed_value False ds)
     then Some (signed_value False ds) else None)"
  by (cases ds)
     (simp_all add: tb_parse_id_def Let_def parse_id_loop_zero signed_value_range,
      simp add: signed_value_def)

lemma print_id_value:
  "print_id n = (if n < 0 then [45] else []) @ dec_digits (nat \<bar>n\<bar>)"
  by (simp add: print_id_def)

lemma print_id_signed:
  assumes "list_all is_digit ds" "ds \<noteq> []" "hd ds \<noteq> 48"
  shows "print_id (signed_value neg ds) = (if neg then [45] else []) @ ds"
  using dec_digits_value [OF assms] dec_value_pos [OF assms]
  by (simp add: print_id_def signed_value_def)

lemma digits_no_nul: "list_all is_digit ds \<Longrightarrow> 0 \<notin> set ds"
  by (auto simp: list_all_iff is_digit_def)

lemma drop_digits_iff:
  "(\<exists>i\<in>set [start..<length bs]. bs ! i < 48 \<or> bs ! i > 57) \<longleftrightarrow> \<not> list_all is_digit (drop start bs)"
proof -
  have "drop start bs = map ((!) bs) [start..<length bs]"
    by (rule nth_equalityI) auto
  then show ?thesis by (auto simp: list_all_iff is_digit_def not_less not_le)
qed

text \<open>\<open>tb_copy_id\<close> in terms of the bytes of the span.\<close>

lemma tb_copy_id_bytes:
  assumes w: "wf_span v"
  defines "bs \<equiv> span_bytes v"
  defines "start \<equiv> (if bs ! 0 = 45 then 1 else 0 :: nat)"
  shows "tb_copy_id out capacity v allow =
     (if bs = [] \<or> capacity \<le> length bs \<or> bs ! 0 = 45 \<and> (\<not> allow \<or> length bs < 2) \<or>
         bs ! start = 48 \<or> \<not> list_all is_digit (drop start bs) then (False, out)
      else case tb_parse_id (cstr bs) of None \<Rightarrow> (False, []) | Some _ \<Rightarrow> (True, cstr bs))"
proof -
  have len: "length bs = unat (span_length v)" using w by (simp add: bs_def)
  have nth: "span_data v ! i = bs ! i" if "i < length bs" for i
    using that w by (simp add: bs_def span_bytes_def wf_span_def)
  consider "bs = []" | "bs \<noteq> []" "bs ! 0 = 45" "length bs < 2" | "bs \<noteq> []" "bs ! 0 = 45 \<longrightarrow> \<not> length bs < 2"
    by blast
  then show ?thesis
  proof cases
    case 1
    then have "unat (span_length v) = 0" using len by simp
    with 1 show ?thesis by (simp add: tb_copy_id_def)
  next
    case 2
    then have "span_data v ! 0 = 45" using nth by simp
    with 2 show ?thesis by (simp add: tb_copy_id_def Let_def flip: len)
  next
    case 3
    have st: "start < length bs" "0 < length bs" using 3 by (auto simp: start_def)
    have dig: "(\<exists>i\<in>set [start..<length bs]. span_data v ! i < 48 \<or> span_data v ! i > 57) \<longleftrightarrow>
        \<not> list_all is_digit (drop start bs)"
      using drop_digits_iff [of start bs] nth by simp
    have tk: "take (length bs) (span_data v) = bs" unfolding len by (simp add: bs_def span_bytes_def)
    have start: "(if span_data v ! 0 = 45 then 1 else 0) = start"
      using nth st(2) by (simp add: start_def)
    show ?thesis
      unfolding tb_copy_id_def Let_def len [symmetric] start dig tk
      using 3 nth [OF st(1)] nth [OF st(2)] by simp
  qed
qed

lemma signed_no_nul: "list_all is_digit ds \<Longrightarrow> 0 \<notin> set ((if neg then [45] else []) @ ds)"
  using digits_no_nul [of ds] by auto

lemma tb_parse_id_signed:
  assumes "list_all is_digit ds" "ds \<noteq> []"
  shows "tb_parse_id ((if neg then [45] else []) @ ds) =
     (if in_int64 (signed_value neg ds) then Some (signed_value neg ds) else None)"
proof (cases neg)
  case True
  then show ?thesis using assms by (simp add: tb_parse_id_minus)
next
  case False
  have "hd ds \<noteq> 45" using assms by (cases ds) auto
  with False assms show ?thesis by (simp add: tb_parse_id_plain)
qed

lemma tb_copy_id_accepts:
  assumes w: "wf_span v"
  shows "tb_copy_id out capacity v allow = (True, s) \<longleftrightarrow>
     s = span_bytes v \<and> length (span_bytes v) < capacity \<and>
     (\<exists>neg ds. span_bytes v = (if neg then [45] else []) @ ds \<and> (neg \<longrightarrow> allow) \<and> ds \<noteq> [] \<and>
        hd ds \<noteq> 48 \<and> list_all is_digit ds \<and> in_int64 (signed_value neg ds))" (is "?L \<longleftrightarrow> ?R")
proof
  define bs where "bs = span_bytes v"
  define start where "start = (if bs ! 0 = 45 then 1 else 0 :: nat)"
  note eq = tb_copy_id_bytes [OF w, of out capacity allow, folded bs_def, folded start_def]
  assume ?L
  then have c: "bs \<noteq> []" "length bs < capacity" "bs ! 0 = 45 \<Longrightarrow> allow \<and> 2 \<le> length bs"
    "bs ! start \<noteq> 48" "list_all is_digit (drop start bs)" "tb_parse_id (cstr bs) \<noteq> None" "s = cstr bs"
    by (auto simp: eq split: if_splits option.splits)
  define ds where "ds = drop start bs"
  have split: "bs = (if bs ! 0 = 45 then [45] else []) @ ds"
    using c(1) by (cases bs) (auto simp: ds_def start_def)
  have ne: "ds \<noteq> []" using c(1,3) by (auto simp: ds_def start_def)
  have "hd ds = bs ! start" using ne by (simp add: ds_def hd_drop_conv_nth)
  then have hd: "hd ds \<noteq> 48" using c(4) by simp
  have dig: "list_all is_digit ds" using c(5) by (simp add: ds_def)
  have "0 \<notin> set bs" by (subst split) (rule signed_no_nul [OF dig])
  then have cs: "cstr bs = bs" by (rule cstr_id)
  have "in_int64 (signed_value (bs ! 0 = 45) ds)"
    using tb_parse_id_signed [OF dig ne, of "bs ! 0 = 45"] c(6) cs split by (metis (full_types))
  with ne hd dig c(2,3,7) cs show ?R
    unfolding bs_def [symmetric]
    by (intro conjI exI [of _ "bs ! 0 = 45"] exI [of _ ds] impI split) simp_all
next
  assume ?R
  then obtain neg ds where r: "s = span_bytes v" "length (span_bytes v) < capacity"
    and b: "span_bytes v = (if neg then [45] else []) @ ds" and d: "neg \<longrightarrow> allow" "ds \<noteq> []"
      "hd ds \<noteq> 48" "list_all is_digit ds" "in_int64 (signed_value neg ds)"
    by blast
  have h: "hd ds \<noteq> 45" using d by (cases ds) auto
  have cs: "cstr (span_bytes v) = span_bytes v"
    unfolding b using signed_no_nul [OF d(4)] by (rule cstr_id)
  have p: "tb_parse_id (span_bytes v) = Some (signed_value neg ds)"
    unfolding b using tb_parse_id_signed [OF d(4,2), of neg] d(5) by simp
  show ?L
    unfolding tb_copy_id_bytes [OF w] cs p using r d h
    by (cases neg; cases ds) (simp_all add: b)
qed

lemma copy_id_shape:
  assumes "tb_copy_id out n v neg = (True, cid)"
  shows "cid \<noteq> [] \<and> length cid < n"
proof -
  have "cid = cstr (take (unat (span_length v)) (span_data v))" "tb_parse_id cid \<noteq> None" "unat (span_length v) < n"
    using assms by (auto simp: tb_copy_id_def Let_def split: if_splits option.splits)
  moreover have "length (cstr (take (unat (span_length v)) (span_data v))) \<le> unat (span_length v)"
    using length_cstr [of "take (unat (span_length v)) (span_data v)"] by simp
  ultimately show ?thesis by (auto simp: tb_parse_id_def)
qed

lemma copy_span_fits: "0 < n \<Longrightarrow> length (tb_copy_span out n v) < n"
proof -
  assume n: "0 < n"
  have "length (cstr (take k xs)) \<le> k" for k and xs :: bytes
    using length_cstr [of "take k xs"] by simp
  moreover have "tb_utf8_fit (span_data v) (unat (span_length v)) n < n"
    by (rule tb_utf8_fit_le(2) [OF n])
  ultimately show ?thesis using n by (simp add: tb_copy_span_def) (meson le_less_trans)
qed

lemma copy_uuid_length:
  assumes "tb_copy_uuid out n v = (True, u)" and "wf_span v"
  shows "length u = 36"
proof -
  from assms(1) have len: "span_length v = 36" and ch: "\<forall>i<36. uuid_char i (span_data v ! i)"
    and u: "u = cstr (take 36 (span_data v))"
    by (auto simp: tb_copy_uuid_def split: if_splits)
  have ge: "36 \<le> length (span_data v)" using assms(2) len by (simp add: wf_span_def)
  have "b \<noteq> 0" if "b \<in> set (take 36 (span_data v))" for b
  proof -
    from that obtain i where "i < 36" "b = span_data v ! i" by (auto simp: in_set_conv_nth)
    then show ?thesis using ch by (auto simp: uuid_char_def split: if_splits)
  qed
  then have "0 \<notin> set (take 36 (span_data v))" by blast
  then show ?thesis using ge u by (simp add: cstr_id)
qed

section \<open>Properties\<close>

text \<open>
  C4. Cutting a text to a buffer of \<open>capacity\<close> bytes leaves room for the terminator and, on
  well-formed UTF-8, cuts at the last character boundary that fits: the kept prefix is
  well-formed, and every longer prefix that would fit splits a character.
\<close>

theorem utf8_fit_last_boundary:
  assumes "len \<le> length d" and "utf8 (take len d)" and "0 < capacity"
  shows "tb_utf8_fit d len capacity < capacity \<and> tb_utf8_fit d len capacity \<le> len \<and>
     utf8 (take (tb_utf8_fit d len capacity) d) \<and>
     (\<forall>k. tb_utf8_fit d len capacity < k \<and> k \<le> len \<and> k < capacity \<longrightarrow> \<not> utf8 (take k d))"
  using tb_utf8_fit_le(1) [of d len capacity] tb_utf8_fit_le(2) [OF assms(3), of d len]
    utf8_fit_boundary [OF assms(1,2)] utf8_fit_greatest [OF assms(1,2)] by blast

lemma utf8_back_numeral:
  "utf8_back d (numeral k) =
     (if d ! numeral k AND 0xC0 = 0x80 then utf8_back d (pred_numeral k) else numeral k)"
  by (simp only: numeral_eq_Suc utf8_back.simps)

lemma utf8_sample: "utf8 (take 5 [0x41, 0xE2, 0x82, 0xAC, 0x42])"
proof -
  have "utf8 [0x42]" using utf8_Char [of "0x42" "[]" "[]"]
    by (simp add: seq_len_def is_cont_def utf8_Nil)
  then have "utf8 [0xE2, 0x82, 0xAC, 0x42]" using utf8_Char [of "0xE2" "[0x82, 0xAC]" "[0x42]"]
    by (simp add: seq_len_def is_cont_def)
  then have "utf8 [0x41, 0xE2, 0x82, 0xAC, 0x42]" using utf8_Char [of "0x41" "[]" "[0xE2, 0x82, 0xAC, 0x42]"]
    by (simp add: seq_len_def is_cont_def)
  then show ?thesis by simp
qed

theorem utf8_fit_last_boundary_witness:
  "tb_utf8_fit [0x41, 0xE2, 0x82, 0xAC, 0x42] 5 4 = 1 \<and>
   \<not> utf8 (take 3 [0x41, 0xE2, 0x82, 0xAC, 0x42])"
proof
  show one: "tb_utf8_fit [0x41, 0xE2, 0x82, 0xAC, 0x42] 5 4 = 1"
    by (simp add: tb_utf8_fit_def utf8_back_numeral)
  have "\<forall>k. tb_utf8_fit [0x41, 0xE2, 0x82, 0xAC, 0x42] 5 4 < k \<and> k \<le> 5 \<and> k < 4 \<longrightarrow>
      \<not> utf8 (take k [0x41, 0xE2, 0x82, 0xAC, 0x42])"
    using utf8_fit_last_boundary [of 5 "[0x41, 0xE2, 0x82, 0xAC, 0x42]" 4, OF _ utf8_sample] by simp
  from this [rule_format, of 3] one
  show "\<not> utf8 (take 3 [0x41, 0xE2, 0x82, 0xAC, 0x42])" by simp
qed

text \<open>
  C5. An identifier span is accepted exactly when its bytes are the decimal rendering of a
  non-zero 64-bit signed integer that fits the array (a negative one only where the caller allows
  it), it is then stored unchanged and parses back to that integer. So two accepted identifiers
  are equal as strings exactly when they denote the same number.
\<close>

theorem copy_id_roundtrip:
  assumes "wf_span v"
  shows "(tb_copy_id out capacity v allow = (True, s) \<and> tb_parse_id s = Some n) \<longleftrightarrow>
     n \<noteq> 0 \<and> in_int64 n \<and> (n < 0 \<longrightarrow> allow) \<and> length (print_id n) < capacity \<and>
     span_bytes v = print_id n \<and> s = print_id n" (is "?L \<longleftrightarrow> ?R")
proof
  assume ?L
  then obtain neg ds where s: "s = span_bytes v" "length (span_bytes v) < capacity"
    and b: "span_bytes v = (if neg then [45] else []) @ ds" and d: "neg \<longrightarrow> allow" "ds \<noteq> []"
      "hd ds \<noteq> 48" "list_all is_digit ds" "in_int64 (signed_value neg ds)"
    unfolding tb_copy_id_accepts [OF assms] by blast
  have n: "n = signed_value neg ds"
    using \<open>?L\<close> tb_parse_id_signed [OF d(4,2), of neg] d(5) s(1) b by simp
  have "print_id n = span_bytes v" using print_id_signed [OF d(4,2,3), of neg] b n by simp
  moreover have "n \<noteq> 0 \<and> (n < 0 \<longleftrightarrow> neg)"
    using dec_value_pos [OF d(4,2,3)] by (simp add: n signed_value_def)
  ultimately show ?R using s d n by auto
next
  assume r: ?R
  let ?ds = "dec_digits (nat \<bar>n\<bar>)"
  have sv: "signed_value (n < 0) ?ds = n" using r by (simp add: signed_value_def dec_value_digits)
  have b: "span_bytes v = (if n < 0 then [45] else []) @ ?ds" using r by (simp add: print_id_value)
  have "tb_copy_id out capacity v allow = (True, s)"
    unfolding tb_copy_id_accepts [OF assms]
    using r b sv dec_digits_digits dec_digits_hd [of "nat \<bar>n\<bar>"]
    by (intro conjI exI [of _ "n < 0"] exI [of _ ?ds]) simp_all
  moreover have "tb_parse_id s = Some n"
    using tb_parse_id_signed [OF dec_digits_digits dec_digits_nonempty, of "n < 0" "nat \<bar>n\<bar>"] r b sv by simp
  ultimately show ?L ..
qed

theorem copy_id_roundtrip_witness:
  "tb_copy_id [] 21 \<lparr>span_data = [45, 52, 50], span_length = 3\<rparr> True = (True, [45, 52, 50]) \<and>
   tb_parse_id [45, 52, 50] = Some (- 42)"
proof -
  have w: "wf_span \<lparr>span_data = [45, 52, 50], span_length = 3\<rparr>" by (simp add: wf_span_def)
  have "print_id (- 42) = [45, 52, 50]"
    by (simp add: print_id_def dec_digits.simps [of 42] dec_digits.simps [of 4])
  then show ?thesis
    using copy_id_roundtrip [OF w, of "[]" 21 True "[45, 52, 50]" "- 42"]
    by (simp add: span_bytes_def in_int64_def)
qed

end
