(* ===== verification/Requests.thy ===== *)
theory Requests
  imports Prelude Protocol
begin

text \<open>
  The request layer (\<^verbatim>\<open>request_layer.h\<close>, \<^verbatim>\<open>request_layer.c\<close>): four slots, the sequence
  counter, sending with retries and queueing behind a busy outbox, chunked responses, the one
  timer for all slots, and the mapping of outcomes to error codes (\<^verbatim>\<open>errors.c\<close>).

  The platform behind \<open>TbRequestPorts\<close> is a record of functions over a context of any type, so
  the theorems hold for every outbox, clock and timer. A callback with its owner is a value of
  \<open>TbRequestCallback\<close>; every operation that may call one back calls it as its last action and
  returns the delivery, and the two loops that may call several take the function that runs a
  delivery as an argument.
\<close>

section \<open>Data\<close>

abbreviation (input) TB_REQUEST_SLOTS :: nat where "TB_REQUEST_SLOTS \<equiv> 4"
abbreviation (input) TB_ACCOUNT_ID_SIZE :: nat where "TB_ACCOUNT_ID_SIZE \<equiv> 37"
abbreviation (input) TB_TELEGRAM_ID_SIZE :: nat where "TB_TELEGRAM_ID_SIZE \<equiv> 21"
abbreviation (input) TB_QUEUE_RETRY_MS :: u32 where "TB_QUEUE_RETRY_MS \<equiv> 100"
abbreviation (input) INT32_MAX :: u32 where "INT32_MAX \<equiv> 2147483647"

datatype TbSendResult = TB_SEND_OK | TB_SEND_FAILED | TB_SEND_UNREACHABLE | TB_SEND_BUSY

datatype TbRequestOutcome =
  TB_OUTCOME_RESPONSE | TB_OUTCOME_TIMEOUT | TB_OUTCOME_UNREACHABLE | TB_OUTCOME_CANCELLED
| TB_OUTCOME_PROTOCOL

record TbRequestArgs =
  ra_kind :: u8
  ra_page_op :: u8
  ra_list :: u8
  ra_page_limit :: u8
  ra_text_limit :: u16
  ra_account :: cstring
  ra_chat :: cstring
  ra_message :: cstring
  ra_draft_id :: u32
  ra_templates_rev :: u32
  ra_template_index :: u8
  ra_attempt :: u8
  ra_payload_length :: u16
  ra_payload :: "bytes option"
  ra_media_index :: u8
  ra_media_spec :: bytes
  ra_media_offset :: u32
  ra_media_tag :: u32

text \<open>\<open>TbRequestArgs args = {.kind = kind}\<close>: the members that are not named are zero.\<close>

definition request_args :: "u8 \<Rightarrow> TbRequestArgs" where
  "request_args kind = \<lparr>ra_kind = kind, ra_page_op = 0, ra_list = 0, ra_page_limit = 0,
     ra_text_limit = 0, ra_account = [], ra_chat = [], ra_message = [], ra_draft_id = 0,
     ra_templates_rev = 0, ra_template_index = 0, ra_attempt = 0, ra_payload_length = 0,
     ra_payload = None, ra_media_index = 0, ra_media_spec = replicate 8 0, ra_media_offset = 0,
     ra_media_tag = 0\<rparr>"

record TbResponse =
  rs_outcome :: TbRequestOutcome
  rs_result :: int
  rs_flags :: u32
  rs_retry_after :: u32
  rs_payload :: "bytes option"
  rs_length :: u16
  rs_index :: u16
  rs_total :: u16
  rs_final :: bool

text \<open>The callbacks of the program, each with the one owner it is registered for.\<close>

datatype TbRequestCallback =
  CB_SESSION | CB_CHATS | CB_HISTORY | CB_TEXT | CB_QUOTE | CB_TEMPLATES | CB_DRAFT | CB_SEND
| CB_CONNECTION | CB_MEDIA | CB_DEFAULT

type_synonym delivery = "TbRequestCallback \<times> u32 \<times> TbResponse"

record 'x TbRequestPorts =
  rp_send :: "'x \<Rightarrow> u32 \<Rightarrow> TbRequestArgs \<Rightarrow> TbSendResult \<times> 'x"
  rp_schedule :: "'x \<Rightarrow> u32 \<Rightarrow> bool \<times> 'x"
  rp_cancel :: "'x \<Rightarrow> 'x"
  rp_now :: "'x \<Rightarrow> u32"

record TbRequestSlot =
  sl_active :: bool
  sl_queued :: bool
  sl_resend_on_timeout :: bool
  sl_unreachable :: bool
  sl_attempts :: u8
  sl_max_attempts :: u8
  sl_next_chunk :: u16
  sl_sequence :: u32
  sl_timeout :: u32
  sl_deadline :: u32
  sl_queued_since :: u32
  sl_callback :: "TbRequestCallback option"
  sl_args :: TbRequestArgs

record 'x TbRequestLayer =
  rl_ports :: "'x TbRequestPorts"
  rl_context :: 'x
  rl_slots :: "TbRequestSlot list"
  rl_next_sequence :: u32
  rl_submitting :: bool
  rl_immediate :: TbRequestOutcome

section \<open>Operations\<close>

definition slots_find :: "TbRequestSlot list \<Rightarrow> u32 \<Rightarrow> nat option" where
  "slots_find slots sequence =
     (if sequence = 0 then None
      else List.find (\<lambda>i. sl_active (slots ! i) \<and> sl_sequence (slots ! i) = sequence)
             [0..<TB_REQUEST_SLOTS])"

definition set_slot :: "'x TbRequestLayer \<Rightarrow> nat \<Rightarrow> TbRequestSlot \<Rightarrow> 'x TbRequestLayer" where
  "set_slot L i s = L\<lparr>rl_slots := (rl_slots L)[i := s]\<rparr>"

definition active_remaining :: "u32 \<Rightarrow> TbRequestSlot list \<Rightarrow> u32 list" where
  "active_remaining now slots = map (\<lambda>s. remaining now (sl_deadline s)) (filter sl_active slots)"

definition arm :: "'x TbRequestLayer \<Rightarrow> 'x TbRequestLayer" where
  "arm L =
     (let x = rp_cancel (rl_ports L) (rl_context L); now = rp_now (rl_ports L) x
      in case earliest (active_remaining now (rl_slots L)) of
           None \<Rightarrow> L\<lparr>rl_context := x\<rparr>
         | Some e \<Rightarrow>
             L\<lparr>rl_context := snd (rp_schedule (rl_ports L) x (if e = 0 then 1 else e))\<rparr>)"

definition complete ::
  "'x TbRequestLayer \<Rightarrow> nat \<Rightarrow> TbRequestOutcome \<Rightarrow> int \<Rightarrow> 'x TbRequestLayer \<times> delivery option" where
  "complete L i outcome result =
     (let slot = rl_slots L ! i; sequence = sl_sequence slot; callback = sl_callback slot;
          L1 = arm (set_slot L i (slot\<lparr>sl_active := False\<rparr>))
      in if rl_submitting L1 then (L1\<lparr>rl_immediate := outcome\<rparr>, None)
         else case callback of
                None \<Rightarrow> (L1, None)
              | Some cb \<Rightarrow>
                  (L1, Some (cb, sequence,
                     \<lparr>rs_outcome = outcome, rs_result = result, rs_flags = 0, rs_retry_after = 0,
                      rs_payload = None, rs_length = 0, rs_index = 0, rs_total = 1,
                      rs_final = True\<rparr>)))"

lemma unat_inc_less: "(a :: u8) < b \<Longrightarrow> unat (a + 1) = unat a + 1"
  using unat_plus_no_wrap [of a 1] unat_u8_le [of b] by (simp add: word_less_nat_alt)

text \<open>
  The loop of \<open>attempt\<close> on the slot it works on. The result says whether the loop ended in one
  of its two \<open>arm(layer); return;\<close> exits (\<open>True\<close>) or fell through to \<open>complete\<close>.
\<close>

function attempt_loop ::
  "'x TbRequestPorts \<Rightarrow> u32 \<Rightarrow> 'x \<Rightarrow> TbRequestSlot \<Rightarrow> 'x \<times> TbRequestSlot \<times> bool" where
  "attempt_loop ports now x slot =
     (if sl_attempts slot < sl_max_attempts slot then
        (case rp_send ports x (sl_sequence slot) (sl_args slot) of (sent, x') \<Rightarrow>
           (if sent = TB_SEND_BUSY then
              (let slot1 = (if \<not> sl_queued slot then slot\<lparr>sl_queued_since := now\<rparr> else slot)
               in if sl_queued slot1 \<and> reached now (sl_queued_since slot1 + sl_timeout slot1)
                  then (x', slot1, False)
                  else (x', slot1\<lparr>sl_queued := True, sl_deadline := now + TB_QUEUE_RETRY_MS\<rparr>, True))
            else
              (let slot1 = slot\<lparr>sl_attempts := sl_attempts slot + 1, sl_queued := False\<rparr>
               in if sent = TB_SEND_OK
                  then (x', slot1\<lparr>sl_deadline := now + sl_timeout slot1\<rparr>, True)
                  else attempt_loop ports now x'
                         (slot1\<lparr>sl_unreachable := (sent = TB_SEND_UNREACHABLE)\<rparr>))))
      else (x, slot, False))"
  by pat_completeness auto
termination
  by (relation "measure (\<lambda>(ports, now, x, slot). unat (sl_max_attempts slot) - unat (sl_attempts slot))")
     (auto simp: unat_inc_less word_less_nat_alt)

declare attempt_loop.simps [simp del]

definition attempt :: "'x TbRequestLayer \<Rightarrow> nat \<Rightarrow> 'x TbRequestLayer \<times> delivery option" where
  "attempt L i =
     (case attempt_loop (rl_ports L) (rp_now (rl_ports L) (rl_context L)) (rl_context L)
             (rl_slots L ! i) of
        (x, slot, waits) \<Rightarrow>
          (let L1 = (set_slot L i slot)\<lparr>rl_context := x\<rparr>
           in if waits then (arm L1, None)
              else complete L1 i
                     (if sl_unreachable slot then TB_OUTCOME_UNREACHABLE else TB_OUTCOME_TIMEOUT) 0))"

definition tb_requests_init :: "TbRequestSlot list \<Rightarrow> 'x TbRequestPorts \<Rightarrow> 'x \<Rightarrow> 'x TbRequestLayer" where
  "tb_requests_init slots ports context =
     \<lparr>rl_ports = ports, rl_context = context,
      rl_slots = map (\<lambda>s. s\<lparr>sl_active := False\<rparr>) slots, rl_next_sequence = 0,
      rl_submitting = False, rl_immediate = TB_OUTCOME_TIMEOUT\<rparr>"

text \<open>
  \<open>do { ++next_sequence; } while (next_sequence == 0 || next_sequence > INT32_MAX || find(...))\<close>.
  The loop ends whatever the slots hold: four slots cannot use up all of \<open>1 .. 5\<close>.
\<close>

definition sequence_taken :: "TbRequestSlot list \<Rightarrow> u32 \<Rightarrow> bool" where
  "sequence_taken slots n \<longleftrightarrow> n = 0 \<or> n > INT32_MAX \<or> slots_find slots n \<noteq> None"

lemma free_sequence_exists: "\<exists>n. \<not> sequence_taken slots n"
proof (rule ccontr)
  assume "\<nexists>n. \<not> sequence_taken slots n"
  then have taken: "slots_find slots n \<noteq> None" if "n \<in> {1, 2, 3, 4, 5 :: u32}" for n
    using that by (auto simp: sequence_taken_def dest: spec [of _ n])
  have sub: "{1, 2, 3, 4, 5 :: u32} \<subseteq> (\<lambda>i. sl_sequence (slots ! i)) ` {0..<4}"
  proof
    fix n assume n: "n \<in> {1, 2, 3, 4, 5 :: u32}"
    then obtain i where "List.find (\<lambda>i. sl_active (slots ! i) \<and> sl_sequence (slots ! i) = n) [0..<4] = Some i"
      using taken [OF n] by (auto simp: slots_find_def)
    from find_upt_SomeD [OF this] show "n \<in> (\<lambda>i. sl_sequence (slots ! i)) ` {0..<4}" by auto
  qed
  have "card {1, 2, 3, 4, 5 :: u32} \<le> card {0..<4 :: nat}"
    using card_mono [OF _ sub] card_image_le [of "{0..<4 :: nat}" "\<lambda>i. sl_sequence (slots ! i)"] by simp
  then show False by simp
qed

definition steps_to_free :: "TbRequestSlot list \<Rightarrow> u32 \<Rightarrow> nat" where
  "steps_to_free slots n = (LEAST k. \<not> sequence_taken slots (n + 1 + of_nat k))"

lemma steps_to_free_ex: "\<exists>k. \<not> sequence_taken slots (n + 1 + of_nat k)"
proof -
  obtain m where "\<not> sequence_taken slots m" using free_sequence_exists by blast
  then show ?thesis by (intro exI [of _ "unat (m - (n + 1))"]) simp
qed

lemma steps_to_free_less:
  assumes "sequence_taken slots (n + 1)"
  shows "steps_to_free slots (n + 1) < steps_to_free slots n"
proof -
  have l: "\<not> sequence_taken slots (n + 1 + of_nat (steps_to_free slots n))"
    unfolding steps_to_free_def by (rule LeastI_ex [OF steps_to_free_ex])
  then obtain k where k: "steps_to_free slots n = Suc k"
    using assms by (cases "steps_to_free slots n") auto
  have "n + 1 + of_nat (Suc k) = n + 1 + 1 + of_nat k" by (simp add: algebra_simps)
  then have "\<not> sequence_taken slots (n + 1 + 1 + of_nat k)" using l k by metis
  then have "steps_to_free slots (n + 1) \<le> k" unfolding steps_to_free_def by (rule Least_le)
  then show ?thesis using k by simp
qed

function advance_sequence :: "TbRequestSlot list \<Rightarrow> u32 \<Rightarrow> u32" where
  "advance_sequence slots n =
     (if n + 1 = 0 \<or> n + 1 > INT32_MAX \<or> slots_find slots (n + 1) \<noteq> None
      then advance_sequence slots (n + 1) else n + 1)"
  by pat_completeness auto
termination
  by (relation "measure (\<lambda>(slots, n). steps_to_free slots n)")
     (simp_all add: steps_to_free_less sequence_taken_def)

declare advance_sequence.simps [simp del]

definition tb_requests_submit ::
  "'x TbRequestLayer \<Rightarrow> TbRequestArgs option \<Rightarrow> u32 \<Rightarrow> u8 \<Rightarrow> bool \<Rightarrow> TbRequestCallback option \<Rightarrow>
   'x TbRequestLayer \<times> u32" where
  "tb_requests_submit L args timeout max_attempts resend_on_timeout callback =
     (case (List.find (\<lambda>i. \<not> sl_active (rl_slots L ! i)) [0..<TB_REQUEST_SLOTS], args) of
        (Some i, Some a) \<Rightarrow>
          (if max_attempts = 0 then (L\<lparr>rl_immediate := TB_OUTCOME_TIMEOUT\<rparr>, 0)
           else
             (let sequence = advance_sequence (rl_slots L) (rl_next_sequence L);
                  slot = (rl_slots L ! i)
                    \<lparr>sl_active := True, sl_queued := False, sl_resend_on_timeout := resend_on_timeout,
                     sl_unreachable := False, sl_attempts := 0, sl_max_attempts := max_attempts,
                     sl_next_chunk := 0, sl_sequence := sequence, sl_timeout := timeout,
                     sl_callback := callback, sl_args := a\<rparr>;
                  L1 = (set_slot L i slot)\<lparr>rl_next_sequence := sequence, rl_submitting := True,
                     rl_immediate := TB_OUTCOME_TIMEOUT\<rparr>;
                  L2 = (fst (attempt L1 i))\<lparr>rl_submitting := False\<rparr>
              in (L2, if sl_active (rl_slots L2 ! i) \<and> sl_sequence (rl_slots L2 ! i) = sequence
                      then sequence else 0)))
      | _ \<Rightarrow> (L\<lparr>rl_immediate := TB_OUTCOME_TIMEOUT\<rparr>, 0))"

definition tb_requests_chunk ::
  "'x TbRequestLayer \<Rightarrow> u32 \<Rightarrow> TbResponse \<Rightarrow> 'x TbRequestLayer \<times> bool \<times> delivery option" where
  "tb_requests_chunk L sequence chunk =
     (case slots_find (rl_slots L) sequence of
        None \<Rightarrow> (L, False, None)
      | Some i \<Rightarrow>
          (let slot = rl_slots L ! i
           in if rs_total chunk = 0 \<or> rs_index chunk \<ge> rs_total chunk \<or>
                 rs_index chunk \<noteq> sl_next_chunk slot
              then (case complete L i TB_OUTCOME_PROTOCOL 0 of (L1, d) \<Rightarrow> (L1, True, d))
              else
                (let final = (unat (rs_index chunk) + 1 = unat (rs_total chunk));
                     delivered = chunk\<lparr>rs_outcome := TB_OUTCOME_RESPONSE, rs_final := final\<rparr>;
                     slot1 = (if final then slot\<lparr>sl_active := False\<rparr>
                              else slot\<lparr>sl_next_chunk := sl_next_chunk slot + 1,
                                sl_deadline := rp_now (rl_ports L) (rl_context L) + sl_timeout slot\<rparr>)
                 in (arm (set_slot L i slot1), True,
                     map_option (\<lambda>cb. (cb, sequence, delivered)) (sl_callback slot)))))"

definition tb_requests_response ::
  "'x TbRequestLayer \<Rightarrow> u32 \<Rightarrow> int \<Rightarrow> 'x TbRequestLayer \<times> bool \<times> delivery option" where
  "tb_requests_response L sequence result =
     tb_requests_chunk L sequence
       \<lparr>rs_outcome = TB_OUTCOME_RESPONSE, rs_result = result, rs_flags = 0, rs_retry_after = 0,
        rs_payload = None, rs_length = 0, rs_index = 0, rs_total = 1, rs_final = False\<rparr>"

definition tb_requests_send_failed ::
  "'x TbRequestLayer \<Rightarrow> u32 \<Rightarrow> bool \<Rightarrow> 'x TbRequestLayer \<times> delivery option" where
  "tb_requests_send_failed L sequence unreachable =
     (case slots_find (rl_slots L) sequence of
        None \<Rightarrow> (L, None)
      | Some i \<Rightarrow>
          if sl_next_chunk (rl_slots L ! i) > 0 then (L, None)
          else attempt (set_slot L i ((rl_slots L ! i)\<lparr>sl_unreachable := unreachable\<rparr>)) i)"

definition tb_requests_outbox_ready :: "'x TbRequestLayer \<Rightarrow> 'x TbRequestLayer \<times> delivery option" where
  "tb_requests_outbox_ready L =
     (case List.find (\<lambda>i. sl_active (rl_slots L ! i) \<and> sl_queued (rl_slots L ! i)) [0..<TB_REQUEST_SLOTS] of
        None \<Rightarrow> (L, None)
      | Some i \<Rightarrow> attempt L i)"

text \<open>Running a delivery: \<open>dispatch\<close> is the callback on the layer and the rest of the program.\<close>

definition run_delivery ::
  "(delivery \<Rightarrow> 'x TbRequestLayer \<times> 's \<Rightarrow> 'x TbRequestLayer \<times> 's) \<Rightarrow>
   'x TbRequestLayer \<times> delivery option \<Rightarrow> 's \<Rightarrow> 'x TbRequestLayer \<times> 's" where
  "run_delivery dispatch r s =
     (case r of (L, None) \<Rightarrow> (L, s) | (L, Some d) \<Rightarrow> dispatch d (L, s))"

definition tick_slot ::
  "(delivery \<Rightarrow> 'x TbRequestLayer \<times> 's \<Rightarrow> 'x TbRequestLayer \<times> 's) \<Rightarrow> u32 \<Rightarrow> nat \<Rightarrow>
   'x TbRequestLayer \<times> 's \<Rightarrow> 'x TbRequestLayer \<times> 's" where
  "tick_slot dispatch now i p =
     (case p of (L, s) \<Rightarrow>
        (let slot = rl_slots L ! i
         in if \<not> sl_active slot \<or> \<not> reached now (sl_deadline slot) then (L, s)
            else if sl_queued slot \<or> sl_resend_on_timeout slot \<and> sl_next_chunk slot = 0
            then run_delivery dispatch (attempt (set_slot L i (slot\<lparr>sl_unreachable := False\<rparr>)) i) s
            else run_delivery dispatch (complete L i TB_OUTCOME_TIMEOUT 0) s))"

definition tb_requests_tick ::
  "(delivery \<Rightarrow> 'x TbRequestLayer \<times> 's \<Rightarrow> 'x TbRequestLayer \<times> 's) \<Rightarrow>
   'x TbRequestLayer \<times> 's \<Rightarrow> 'x TbRequestLayer \<times> 's" where
  "tb_requests_tick dispatch p =
     (let now = rp_now (rl_ports (fst p)) (rl_context (fst p));
          (L, s) = fold (tick_slot dispatch now) [0..<TB_REQUEST_SLOTS] p
      in (arm L, s))"

definition tb_requests_cancel ::
  "'x TbRequestLayer \<Rightarrow> u32 \<Rightarrow> 'x TbRequestLayer \<times> delivery option" where
  "tb_requests_cancel L sequence =
     (case slots_find (rl_slots L) sequence of
        None \<Rightarrow> (L, None)
      | Some i \<Rightarrow> complete L i TB_OUTCOME_CANCELLED 0)"

definition cancel_slot ::
  "(delivery \<Rightarrow> 'x TbRequestLayer \<times> 's \<Rightarrow> 'x TbRequestLayer \<times> 's) \<Rightarrow> nat \<Rightarrow>
   'x TbRequestLayer \<times> 's \<Rightarrow> 'x TbRequestLayer \<times> 's" where
  "cancel_slot dispatch i p =
     (case p of (L, s) \<Rightarrow>
        if sl_active (rl_slots L ! i)
        then run_delivery dispatch (complete L i TB_OUTCOME_CANCELLED 0) s else (L, s))"

definition tb_requests_cancel_all ::
  "(delivery \<Rightarrow> 'x TbRequestLayer \<times> 's \<Rightarrow> 'x TbRequestLayer \<times> 's) \<Rightarrow>
   'x TbRequestLayer \<times> 's \<Rightarrow> 'x TbRequestLayer \<times> 's" where
  "tb_requests_cancel_all dispatch p =
     (let (L, s) = fold (cancel_slot dispatch) [0..<TB_REQUEST_SLOTS] p
      in (L\<lparr>rl_context := rp_cancel (rl_ports L) (rl_context L)\<rparr>, s))"

definition tb_requests_pending :: "'x TbRequestLayer \<Rightarrow> u32 \<Rightarrow> bool" where
  "tb_requests_pending L sequence \<longleftrightarrow>
     (\<exists>i\<in>set [0..<TB_REQUEST_SLOTS]. sl_active (rl_slots L ! i) \<and> sl_sequence (rl_slots L ! i) = sequence)"

definition tb_requests_immediate_outcome :: "'x TbRequestLayer \<Rightarrow> TbRequestOutcome" where
  "tb_requests_immediate_outcome L = rl_immediate L"

section \<open>Error codes\<close>

fun tb_error_from_outcome :: "TbRequestOutcome \<Rightarrow> int" where
  "tb_error_from_outcome TB_OUTCOME_UNREACHABLE = TB_ERROR_PHONE_UNREACHABLE"
| "tb_error_from_outcome TB_OUTCOME_PROTOCOL = TB_RESULT_PROTOCOL_ERROR"
| "tb_error_from_outcome TB_OUTCOME_CANCELLED = TB_ERROR_NONE"
| "tb_error_from_outcome _ = TB_ERROR_NO_RESPONSE"

definition tb_error_submit_failed :: "'x TbRequestLayer \<Rightarrow> int" where
  "tb_error_submit_failed L = tb_error_from_outcome (tb_requests_immediate_outcome L)"

definition tb_error_from_response :: "TbResponse \<Rightarrow> int" where
  "tb_error_from_response r =
     (case rs_outcome r of
        TB_OUTCOME_UNREACHABLE \<Rightarrow> TB_ERROR_PHONE_UNREACHABLE
      | TB_OUTCOME_TIMEOUT \<Rightarrow> TB_ERROR_NO_RESPONSE
      | TB_OUTCOME_PROTOCOL \<Rightarrow> TB_RESULT_PROTOCOL_ERROR
      | TB_OUTCOME_CANCELLED \<Rightarrow> TB_ERROR_NONE
      | TB_OUTCOME_RESPONSE \<Rightarrow> rs_result r)"

definition tb_error_is_connection_level :: "int \<Rightarrow> bool" where
  "tb_error_is_connection_level e \<longleftrightarrow>
     e = TB_RESULT_CONFIG_MISSING \<or> e = TB_RESULT_CONFIG_INVALID \<or> e = TB_RESULT_API_UNAUTHORIZED \<or>
     e = TB_RESULT_WRONG_TOKEN_TYPE"

definition tb_error_is_account_level :: "int \<Rightarrow> bool" where
  "tb_error_is_account_level e \<longleftrightarrow>
     e = TB_RESULT_ACCOUNT_NEEDS_LOGIN \<or> e = TB_RESULT_ACCOUNT_GONE"

end
