(* ===== verification/Request_Facts.thy ===== *)
theory Request_Facts
  imports Requests
begin

text \<open>
  What the request layer guarantees: the slot invariant and its preservation, fresh sequences,
  bounded attempts, chunks delivered in order with exactly one final delivery, and a timer that
  is always set for the earliest deadline. \<open>request_dispatch\<close> is the contract of the callbacks
  that \<open>tb_requests_tick\<close> and \<open>tb_requests_cancel_all\<close> run, \<open>request_client\<close> the contract of a
  component that owns at most one pending request.
\<close>

section \<open>Frame lemmas\<close>

lemma arm_frame [simp]:
  "rl_slots (arm L) = rl_slots L" "rl_ports (arm L) = rl_ports L"
  "rl_next_sequence (arm L) = rl_next_sequence L" "rl_submitting (arm L) = rl_submitting L"
  "rl_immediate (arm L) = rl_immediate L"
  by (simp_all add: arm_def Let_def split: option.splits)

lemma set_slot_frame [simp]:
  "rl_slots (set_slot L i s) = (rl_slots L)[i := s]" "rl_ports (set_slot L i s) = rl_ports L"
  "rl_next_sequence (set_slot L i s) = rl_next_sequence L"
  "rl_submitting (set_slot L i s) = rl_submitting L" "rl_immediate (set_slot L i s) = rl_immediate L"
  "rl_context (set_slot L i s) = rl_context L"
  by (simp_all add: set_slot_def)

lemma complete_frame [simp]:
  "rl_slots (fst (complete L i out res)) = (rl_slots L)[i := (rl_slots L ! i)\<lparr>sl_active := False\<rparr>]"
  "rl_submitting (fst (complete L i out res)) = rl_submitting L"
  "rl_ports (fst (complete L i out res)) = rl_ports L"
  "rl_next_sequence (fst (complete L i out res)) = rl_next_sequence L"
  by (simp_all add: complete_def Let_def split: option.splits)

lemma complete_immediate:
  "rl_submitting L \<Longrightarrow> rl_immediate (fst (complete L i out res)) = out"
  by (simp add: complete_def Let_def)

lemma complete_delivery:
  "\<not> rl_submitting L \<Longrightarrow> snd (complete L i out res) =
     map_option (\<lambda>cb. (cb, sl_sequence (rl_slots L ! i),
       \<lparr>rs_outcome = out, rs_result = res, rs_flags = 0, rs_retry_after = 0, rs_payload = None,
        rs_length = 0, rs_index = 0, rs_total = 1, rs_final = True\<rparr>)) (sl_callback (rl_slots L ! i))"
  by (simp add: complete_def Let_def split: option.splits)

text \<open>The four ways through one round of the sending loop.\<close>

lemma attempt_loop_done:
  "\<not> sl_attempts slot < sl_max_attempts slot \<Longrightarrow> attempt_loop ports now x slot = (x, slot, False)"
  by (simp add: attempt_loop.simps)

lemma attempt_loop_busy:
  "sl_attempts slot < sl_max_attempts slot \<Longrightarrow>
   rp_send ports x (sl_sequence slot) (sl_args slot) = (TB_SEND_BUSY, x') \<Longrightarrow>
   attempt_loop ports now x slot =
     (if sl_queued slot \<and> reached now (sl_queued_since slot + sl_timeout slot) then (x', slot, False)
      else (x', slot\<lparr>sl_queued_since := if sl_queued slot then sl_queued_since slot else now,
              sl_queued := True, sl_deadline := now + TB_QUEUE_RETRY_MS\<rparr>, True))"
  by (simp add: attempt_loop.simps [of _ _ x])

lemma attempt_loop_sent:
  "sl_attempts slot < sl_max_attempts slot \<Longrightarrow>
   rp_send ports x (sl_sequence slot) (sl_args slot) = (TB_SEND_OK, x') \<Longrightarrow>
   attempt_loop ports now x slot =
     (x', slot\<lparr>sl_attempts := sl_attempts slot + 1, sl_queued := False,
        sl_deadline := now + sl_timeout slot\<rparr>, True)"
  by (simp add: attempt_loop.simps [of _ _ x])

lemma attempt_loop_again:
  "sl_attempts slot < sl_max_attempts slot \<Longrightarrow>
   rp_send ports x (sl_sequence slot) (sl_args slot) = (sent, x') \<Longrightarrow>
   sent \<noteq> TB_SEND_BUSY \<Longrightarrow> sent \<noteq> TB_SEND_OK \<Longrightarrow>
   attempt_loop ports now x slot = attempt_loop ports now x'
     (slot\<lparr>sl_attempts := sl_attempts slot + 1, sl_queued := False,
        sl_unreachable := (sent = TB_SEND_UNREACHABLE)\<rparr>)"
  by (simp add: attempt_loop.simps [of _ _ x])

lemmas attempt_loop_rounds =
  attempt_loop_done attempt_loop_busy attempt_loop_sent attempt_loop_again

lemma attempt_loop_slot_induct [case_names stop busy sent again]:
  assumes "\<And>x slot. \<not> sl_attempts slot < sl_max_attempts slot \<Longrightarrow> P x slot"
    and "\<And>x slot x'. sl_attempts slot < sl_max_attempts slot \<Longrightarrow>
      rp_send ports x (sl_sequence slot) (sl_args slot) = (TB_SEND_BUSY, x') \<Longrightarrow> P x slot"
    and "\<And>x slot x'. sl_attempts slot < sl_max_attempts slot \<Longrightarrow>
      rp_send ports x (sl_sequence slot) (sl_args slot) = (TB_SEND_OK, x') \<Longrightarrow> P x slot"
    and "\<And>x slot x' sent. sl_attempts slot < sl_max_attempts slot \<Longrightarrow>
      rp_send ports x (sl_sequence slot) (sl_args slot) = (sent, x') \<Longrightarrow>
      sent \<noteq> TB_SEND_BUSY \<Longrightarrow> sent \<noteq> TB_SEND_OK \<Longrightarrow>
      P x' (slot\<lparr>sl_attempts := sl_attempts slot + 1, sl_queued := False,
              sl_unreachable := (sent = TB_SEND_UNREACHABLE)\<rparr>) \<Longrightarrow> P x slot"
  shows "P x slot"
proof (induction "unat (sl_max_attempts slot) - unat (sl_attempts slot)" arbitrary: x slot
    rule: less_induct)
  case less
  obtain sent x' where snd: "rp_send ports x (sl_sequence slot) (sl_args slot) = (sent, x')" by fastforce
  show ?case
  proof (cases "sl_attempts slot < sl_max_attempts slot")
    case True
    then have "unat (sl_max_attempts slot) - unat (sl_attempts slot + 1) <
        unat (sl_max_attempts slot) - unat (sl_attempts slot)"
      using unat_inc_less [OF True] by (simp add: word_less_nat_alt)
    then have "P x' (slot\<lparr>sl_attempts := sl_attempts slot + 1, sl_queued := False,
        sl_unreachable := (sent = TB_SEND_UNREACHABLE)\<rparr>)"
      by (intro less) simp
    then show ?thesis
      using assms(2) [OF True] assms(3) [OF True] assms(4) [OF True snd] snd by blast
  qed (rule assms(1))
qed

text \<open>What the sending loop leaves alone, and the states it can leave its slot in.\<close>

definition slot_frame :: "TbRequestSlot \<Rightarrow> TbRequestSlot \<Rightarrow> bool" where
  "slot_frame s s' \<longleftrightarrow> sl_active s' = sl_active s \<and> sl_sequence s' = sl_sequence s \<and>
     sl_max_attempts s' = sl_max_attempts s \<and> sl_next_chunk s' = sl_next_chunk s \<and>
     sl_timeout s' = sl_timeout s \<and> sl_callback s' = sl_callback s \<and> sl_args s' = sl_args s \<and>
     sl_resend_on_timeout s' = sl_resend_on_timeout s"

definition slot_waits :: "TbRequestSlot \<Rightarrow> bool" where
  "slot_waits s \<longleftrightarrow> sl_attempts s \<le> sl_max_attempts s \<and>
     (if sl_queued s then sl_attempts s < sl_max_attempts s else 0 < sl_attempts s)"

lemma slot_frame_refl [simp]: "slot_frame s s"
  by (simp add: slot_frame_def)

lemma inc_le: "(a :: u8) < b \<Longrightarrow> a + 1 \<le> b \<and> 0 < a + 1"
  using unat_inc_less [of a b] by (simp add: word_less_nat_alt word_le_nat_alt)

lemma attempt_loop_frame:
  "slot_frame slot (fst (snd (attempt_loop ports now x slot)))"
  by (induction x slot rule: attempt_loop_slot_induct [where ports = ports])
     (simp_all add: attempt_loop_rounds slot_frame_def)

lemma attempt_loop_waits:
  "snd (snd (attempt_loop ports now x slot)) \<Longrightarrow> slot_waits (fst (snd (attempt_loop ports now x slot)))"
  by (induction x slot rule: attempt_loop_slot_induct [where ports = ports])
     (auto simp: attempt_loop_rounds slot_waits_def inc_le split: if_splits)

lemma attempt_loop_attempts:
  "sl_attempts slot \<le> sl_max_attempts slot \<Longrightarrow>
   sl_attempts (fst (snd (attempt_loop ports now x slot))) \<le> sl_max_attempts slot \<and>
   sl_attempts slot \<le> sl_attempts (fst (snd (attempt_loop ports now x slot)))"
proof (induction x slot rule: attempt_loop_slot_induct [where ports = ports])
  case (again x slot x' sent)
  have "sl_attempts slot \<le> sl_attempts slot + 1"
    using unat_inc_less [OF again(1)] by (simp add: word_le_nat_alt)
  then show ?case using again inc_le [OF again(1)] by (auto simp: attempt_loop_again)
qed (auto simp: attempt_loop_rounds inc_le unat_inc_less word_le_nat_alt word_less_nat_alt)

section \<open>The slot invariant\<close>

definition slot_ok :: "TbRequestSlot \<Rightarrow> bool" where
  "slot_ok s \<longleftrightarrow> (sl_active s \<longrightarrow> sl_sequence s \<noteq> 0 \<and> sl_sequence s \<le> INT32_MAX \<and> slot_waits s)"

definition requests_inv :: "'x TbRequestLayer \<Rightarrow> bool" where
  "requests_inv L \<longleftrightarrow> length (rl_slots L) = TB_REQUEST_SLOTS \<and> \<not> rl_submitting L \<and>
     (\<forall>i<TB_REQUEST_SLOTS. slot_ok (rl_slots L ! i)) \<and>
     (\<forall>i<TB_REQUEST_SLOTS. \<forall>j<TB_REQUEST_SLOTS.
        sl_active (rl_slots L ! i) \<and> sl_active (rl_slots L ! j) \<and>
        sl_sequence (rl_slots L ! i) = sl_sequence (rl_slots L ! j) \<longrightarrow> i = j)"

lemma requests_invI:
  assumes "requests_inv L" and "rl_slots L' = (rl_slots L)[i := s']" and "\<not> rl_submitting L'"
    and "slot_ok s'" and "sl_active s' \<Longrightarrow> sl_active (rl_slots L ! i) \<and> sl_sequence s' = sl_sequence (rl_slots L ! i)
       \<or> (\<forall>j<TB_REQUEST_SLOTS. sl_active (rl_slots L ! j) \<longrightarrow> sl_sequence (rl_slots L ! j) \<noteq> sl_sequence s')"
  shows "requests_inv L'"
proof -
  have len: "length (rl_slots L) = TB_REQUEST_SLOTS" using assms(1) by (simp add: requests_inv_def)
  have nth: "rl_slots L' ! j = (if j = i then s' else rl_slots L ! j)" if "j < TB_REQUEST_SLOTS" for j
    using that assms(2) len by simp
  have ok: "slot_ok (rl_slots L' ! j)" if "j < TB_REQUEST_SLOTS" for j
    using that assms(1,4) by (simp add: nth requests_inv_def)
  have uniq: "j = k" if "j < TB_REQUEST_SLOTS" "k < TB_REQUEST_SLOTS" "sl_active (rl_slots L' ! j)"
      "sl_active (rl_slots L' ! k)" "sl_sequence (rl_slots L' ! j) = sl_sequence (rl_slots L' ! k)" for j k
    using that assms(1,5) by (auto simp: nth requests_inv_def split: if_splits)
  show ?thesis unfolding requests_inv_def using assms(2,3) len ok uniq by simp
qed

lemma requests_inv_frame [simp]:
  "requests_inv (arm L) = requests_inv L"
  "requests_inv (L\<lparr>rl_context := x\<rparr>) = requests_inv L"
  "requests_inv (L\<lparr>rl_immediate := out\<rparr>) = requests_inv L"
  by (simp_all add: requests_inv_def)

lemma slots_find_Some:
  assumes "slots_find slots sequence = Some i"
  shows "i < TB_REQUEST_SLOTS" and "sl_active (slots ! i)" and "sl_sequence (slots ! i) = sequence"
    and "sequence \<noteq> 0"
  using assms find_upt_SomeD [of _ TB_REQUEST_SLOTS i] by (auto simp: slots_find_def split: if_splits)

lemma slots_find_None:
  "sequence \<noteq> 0 \<Longrightarrow> slots_find slots sequence = None \<longleftrightarrow>
     (\<forall>i<TB_REQUEST_SLOTS. sl_active (slots ! i) \<longrightarrow> sl_sequence (slots ! i) \<noteq> sequence)"
  by (simp add: slots_find_def find_upt_None_iff)

lemma slots_find_eq:
  assumes "requests_inv L" and "i < TB_REQUEST_SLOTS" and "sl_active (rl_slots L ! i)"
    and "sl_sequence (rl_slots L ! i) = sequence"
  shows "slots_find (rl_slots L) sequence = Some i"
proof -
  have "sequence \<noteq> 0" using assms by (auto simp: requests_inv_def slot_ok_def)
  then obtain j where j: "slots_find (rl_slots L) sequence = Some j"
    using slots_find_None assms(2-4) by (cases "slots_find (rl_slots L) sequence") blast+
  from slots_find_Some [OF j] have "j = i" using assms by (auto simp: requests_inv_def)
  with j show ?thesis by simp
qed

lemma pending_iff:
  "requests_inv L \<Longrightarrow> tb_requests_pending L sequence \<longleftrightarrow> slots_find (rl_slots L) sequence \<noteq> None"
proof -
  assume inv: "requests_inv L"
  have "tb_requests_pending L sequence \<longleftrightarrow>
      (\<exists>i<TB_REQUEST_SLOTS. sl_active (rl_slots L ! i) \<and> sl_sequence (rl_slots L ! i) = sequence)"
    by (auto simp: tb_requests_pending_def)
  also have "\<dots> \<longleftrightarrow> slots_find (rl_slots L) sequence \<noteq> None" (is "?A \<longleftrightarrow> ?B")
  proof
    assume ?A
    then show ?B using slots_find_eq [OF inv] by force
  next
    assume ?B
    then obtain i where "slots_find (rl_slots L) sequence = Some i" by blast
    then show ?A using slots_find_Some by blast
  qed
  finally show ?thesis .
qed

lemma pending_nonzero: "requests_inv L \<Longrightarrow> \<not> tb_requests_pending L 0"
  by (simp add: pending_iff slots_find_def)

lemma init_inv:
  "length slots = TB_REQUEST_SLOTS \<Longrightarrow> requests_inv (tb_requests_init slots ports context)"
  by (simp add: requests_inv_def tb_requests_init_def slot_ok_def)

lemma complete_inv:
  "requests_inv L \<Longrightarrow> i < TB_REQUEST_SLOTS \<Longrightarrow> requests_inv (fst (complete L i out res))"
  by (rule requests_invI [where s' = "(rl_slots L ! i)\<lparr>sl_active := False\<rparr>"])
     (auto simp: slot_ok_def requests_inv_def)

section \<open>One attempt\<close>

text \<open>
  An attempt leaves every other slot alone. Its own slot either waits, still active, or is given
  up, with the delivery of a timeout or of an unreachable phone.
\<close>

definition attempt_result :: "'x TbRequestLayer \<Rightarrow> nat \<Rightarrow> TbRequestSlot \<times> bool" where
  "attempt_result L i = snd (attempt_loop (rl_ports L) (rp_now (rl_ports L) (rl_context L)) (rl_context L)
     (rl_slots L ! i))"

lemma attempt_result_frame:
  assumes "attempt_result L i = (slot, waits)"
  shows "slot_frame (rl_slots L ! i) slot" and "waits \<Longrightarrow> slot_waits slot"
proof -
  let ?r = "attempt_loop (rl_ports L) (rp_now (rl_ports L) (rl_context L)) (rl_context L) (rl_slots L ! i)"
  have "slot = fst (snd ?r)" "waits = snd (snd ?r)" using assms by (simp_all add: attempt_result_def)
  then show "slot_frame (rl_slots L ! i) slot" "waits \<Longrightarrow> slot_waits slot"
    by (simp_all add: attempt_loop_frame attempt_loop_waits)
qed

lemma attempt_slots:
  assumes "attempt_result L i = (slot, waits)" and "i < length (rl_slots L)"
  shows "rl_slots (fst (attempt L i)) =
     (rl_slots L)[i := if waits then slot else slot\<lparr>sl_active := False\<rparr>]"
    and "rl_submitting (fst (attempt L i)) = rl_submitting L"
    and "rl_next_sequence (fst (attempt L i)) = rl_next_sequence L"
    and "rl_ports (fst (attempt L i)) = rl_ports L"
    and "waits \<Longrightarrow> snd (attempt L i) = None"
    and "waits \<Longrightarrow> rl_immediate (fst (attempt L i)) = rl_immediate L"
  using assms by (auto simp: attempt_result_def attempt_def Let_def split: prod.splits)

lemma attempt_gives_up:
  assumes "attempt_result L i = (slot, False)" and "i < length (rl_slots L)"
  shows "rl_submitting L \<Longrightarrow> rl_immediate (fst (attempt L i)) =
      (if sl_unreachable slot then TB_OUTCOME_UNREACHABLE else TB_OUTCOME_TIMEOUT)"
    and "\<not> rl_submitting L \<Longrightarrow> snd (attempt L i) =
     map_option (\<lambda>cb. (cb, sl_sequence (rl_slots L ! i),
       \<lparr>rs_outcome = if sl_unreachable slot then TB_OUTCOME_UNREACHABLE else TB_OUTCOME_TIMEOUT,
        rs_result = 0, rs_flags = 0, rs_retry_after = 0, rs_payload = None,
        rs_length = 0, rs_index = 0, rs_total = 1, rs_final = True\<rparr>)) (sl_callback (rl_slots L ! i))"
  using assms attempt_result_frame(1) [OF assms(1)]
  by (auto simp: attempt_result_def attempt_def Let_def complete_immediate complete_delivery
      slot_frame_def split: prod.splits)

lemma attempt_inv:
  assumes inv: "requests_inv L" and i: "i < TB_REQUEST_SLOTS" "sl_active (rl_slots L ! i)"
  shows "requests_inv (fst (attempt L i))"
proof -
  obtain slot waits where r: "attempt_result L i = (slot, waits)" by fastforce
  have len: "i < length (rl_slots L)" using inv i by (simp add: requests_inv_def)
  note f = attempt_result_frame [OF r]
  have "slot_ok (rl_slots L ! i)" using inv i by (simp add: requests_inv_def)
  then have "slot_ok (if waits then slot else slot\<lparr>sl_active := False\<rparr>)"
    using f i by (auto simp: slot_ok_def slot_frame_def)
  then show ?thesis
    using attempt_slots [OF r len] inv f i
    by (intro requests_invI [OF inv, where s' = "if waits then slot else slot\<lparr>sl_active := False\<rparr>"])
       (auto simp: requests_inv_def slot_frame_def)
qed

lemma attempt_inv_update:
  assumes "requests_inv L" and "i < TB_REQUEST_SLOTS" and "sl_active (rl_slots L ! i)"
  shows "requests_inv (fst (attempt (set_slot L i ((rl_slots L ! i)\<lparr>sl_unreachable := b\<rparr>)) i))"
proof (rule attempt_inv)
  show "requests_inv (set_slot L i ((rl_slots L ! i)\<lparr>sl_unreachable := b\<rparr>))"
    by (rule requests_invI [OF assms(1)]) (use assms in \<open>auto simp: requests_inv_def slot_ok_def slot_waits_def\<close>)
qed (use assms in \<open>simp_all add: requests_inv_def\<close>)

section \<open>Preservation\<close>

lemma advance_sequence_free:
  "advance_sequence slots n \<noteq> 0 \<and> advance_sequence slots n \<le> INT32_MAX \<and>
   slots_find slots (advance_sequence slots n) = None"
  by (induction slots n rule: advance_sequence.induct)
     (subst (1 2 3) advance_sequence.simps, auto simp: not_less)

text \<open>The two ways a submission ends: refused before it takes a slot, or tried in the first free slot.\<close>

lemma submit_cases:
  assumes inv: "requests_inv L"
  obtains (refused) "args = None \<or> max_attempts = 0 \<or> (\<forall>i<TB_REQUEST_SLOTS. sl_active (rl_slots L ! i))"
      and "tb_requests_submit L args timeout max_attempts resend cb = (L\<lparr>rl_immediate := TB_OUTCOME_TIMEOUT\<rparr>, 0)"
  | (tried) a i slot L1 where "args = Some a" and "max_attempts \<noteq> 0" and "i < TB_REQUEST_SLOTS"
      and "\<not> sl_active (rl_slots L ! i)"
      and "slot = (rl_slots L ! i)
         \<lparr>sl_active := True, sl_queued := False, sl_resend_on_timeout := resend, sl_unreachable := False,
          sl_attempts := 0, sl_max_attempts := max_attempts, sl_next_chunk := 0,
          sl_sequence := advance_sequence (rl_slots L) (rl_next_sequence L), sl_timeout := timeout,
          sl_callback := cb, sl_args := a\<rparr>"
      and "L1 = (set_slot L i slot)\<lparr>rl_next_sequence := advance_sequence (rl_slots L) (rl_next_sequence L),
          rl_submitting := True, rl_immediate := TB_OUTCOME_TIMEOUT\<rparr>"
      and "fst (tb_requests_submit L args timeout max_attempts resend cb) = (fst (attempt L1 i))\<lparr>rl_submitting := False\<rparr>"
      and "snd (tb_requests_submit L args timeout max_attempts resend cb) =
         (if sl_active (rl_slots (fst (attempt L1 i)) ! i) \<and>
             sl_sequence (rl_slots (fst (attempt L1 i)) ! i) = advance_sequence (rl_slots L) (rl_next_sequence L)
          then advance_sequence (rl_slots L) (rl_next_sequence L) else 0)"
proof (cases "List.find (\<lambda>i. \<not> sl_active (rl_slots L ! i)) [0..<TB_REQUEST_SLOTS]")
  case None
  then have "tb_requests_submit L args timeout max_attempts resend cb =
      (L\<lparr>rl_immediate := TB_OUTCOME_TIMEOUT\<rparr>, 0)"
    by (simp add: tb_requests_submit_def)
  then show thesis using refused None by (simp add: find_upt_None_iff)
next
  case (Some i)
  from find_upt_SomeD [OF this] have i: "i < TB_REQUEST_SLOTS" "\<not> sl_active (rl_slots L ! i)" by auto
  show thesis
  proof (cases "args = None \<or> max_attempts = 0")
    case True
    then show thesis using refused Some
      by (auto simp: tb_requests_submit_def split: option.splits)
  next
    case False
    then obtain a where "args = Some a" "max_attempts \<noteq> 0" by auto
    then show thesis
      by (intro tried [OF _ _ i refl refl]) (simp_all add: tb_requests_submit_def Some Let_def)
  qed
qed

lemma submit_tried:
  assumes inv: "requests_inv L" and i: "i < TB_REQUEST_SLOTS" "\<not> sl_active (rl_slots L ! i)"
    and slot: "slot = (rl_slots L ! i)
         \<lparr>sl_active := True, sl_queued := False, sl_resend_on_timeout := resend, sl_unreachable := False,
          sl_attempts := 0, sl_max_attempts := max_attempts, sl_next_chunk := 0,
          sl_sequence := sequence, sl_timeout := timeout, sl_callback := cb, sl_args := a\<rparr>"
    and L1: "L1 = (set_slot L i slot)\<lparr>rl_next_sequence := sequence,
          rl_submitting := True, rl_immediate := TB_OUTCOME_TIMEOUT\<rparr>"
    and r: "attempt_result L1 i = (s', waits)"
  shows "rl_slots (fst (attempt L1 i)) = (rl_slots L)[i := if waits then s' else s'\<lparr>sl_active := False\<rparr>]"
    and "sl_active s'" and "sl_sequence s' = sequence" and "waits \<Longrightarrow> slot_waits s'"
    and "sl_callback s' = cb" and "sl_args s' = a" and "sl_next_chunk s' = 0"
    and "sl_max_attempts s' = max_attempts"
    and "\<not> waits \<Longrightarrow> rl_immediate (fst (attempt L1 i)) =
      (if sl_unreachable s' then TB_OUTCOME_UNREACHABLE else TB_OUTCOME_TIMEOUT)"
proof -
  have len: "i < length (rl_slots L1)" using inv i by (simp add: requests_inv_def L1)
  have nth: "rl_slots L1 ! i = slot" using inv i by (simp add: requests_inv_def L1)
  show "rl_slots (fst (attempt L1 i)) = (rl_slots L)[i := if waits then s' else s'\<lparr>sl_active := False\<rparr>]"
    using attempt_slots(1) [OF r len] by (simp add: L1)
  show "sl_active s'" "sl_sequence s' = sequence" "waits \<Longrightarrow> slot_waits s'" "sl_callback s' = cb"
    "sl_args s' = a" "sl_next_chunk s' = 0" "sl_max_attempts s' = max_attempts"
    using attempt_result_frame [OF r] unfolding nth by (simp_all add: slot slot_frame_def)
  show "\<not> waits \<Longrightarrow> rl_immediate (fst (attempt L1 i)) =
      (if sl_unreachable s' then TB_OUTCOME_UNREACHABLE else TB_OUTCOME_TIMEOUT)"
    using attempt_gives_up(1) [of L1 i s'] r len by (simp add: L1)
qed

lemma submit_inv [tb_inv]:
  assumes inv: "requests_inv L"
  shows "requests_inv (fst (tb_requests_submit L args timeout max_attempts resend cb))"
  using inv
proof (cases rule: submit_cases [where args = args and max_attempts = max_attempts
      and timeout = timeout and resend = resend and cb = cb])
  case refused
  then show ?thesis using inv by (simp add: requests_inv_def)
next
  case (tried a i slot L1)
  obtain s' waits where r: "attempt_result L1 i = (s', waits)" by fastforce
  note t = submit_tried [OF inv tried(3,4,5,6) r]
  note free = advance_sequence_free [of "rl_slots L" "rl_next_sequence L"]
  show ?thesis unfolding tried(7)
  proof (rule requests_invI [OF inv])
    show "slot_ok (if waits then s' else s'\<lparr>sl_active := False\<rparr>)"
      using t free by (simp add: slot_ok_def)
  qed (use t free slots_find_None in auto)
qed

text \<open>A chunk that is due, and the slot it leaves behind.\<close>

definition chunk_due :: "TbRequestSlot \<Rightarrow> TbResponse \<Rightarrow> bool" where
  "chunk_due slot chunk \<longleftrightarrow> rs_index chunk < rs_total chunk \<and> rs_index chunk = sl_next_chunk slot"

definition chunk_final :: "TbResponse \<Rightarrow> bool" where
  "chunk_final chunk \<longleftrightarrow> unat (rs_index chunk) + 1 = unat (rs_total chunk)"

definition chunk_slot :: "u32 \<Rightarrow> TbResponse \<Rightarrow> TbRequestSlot \<Rightarrow> TbRequestSlot" where
  "chunk_slot now chunk slot =
     (if chunk_final chunk then slot\<lparr>sl_active := False\<rparr>
      else slot\<lparr>sl_next_chunk := sl_next_chunk slot + 1, sl_deadline := now + sl_timeout slot\<rparr>)"

lemma chunk_unknown:
  "slots_find (rl_slots L) sequence = None \<Longrightarrow> tb_requests_chunk L sequence chunk = (L, False, None)"
  by (simp add: tb_requests_chunk_def)

lemma chunk_wrong:
  assumes "slots_find (rl_slots L) sequence = Some i" and "\<not> chunk_due (rl_slots L ! i) chunk"
  shows "tb_requests_chunk L sequence chunk =
     (fst (complete L i TB_OUTCOME_PROTOCOL 0), True, snd (complete L i TB_OUTCOME_PROTOCOL 0))"
proof -
  have "rs_total chunk = 0 \<or> rs_index chunk \<ge> rs_total chunk \<or> rs_index chunk \<noteq> sl_next_chunk (rl_slots L ! i)"
    using assms(2) by (auto simp: chunk_due_def not_less)
  then show ?thesis using assms(1) by (simp add: tb_requests_chunk_def split_beta)
qed

lemma chunk_right:
  assumes "slots_find (rl_slots L) sequence = Some i" and "chunk_due (rl_slots L ! i) chunk"
  shows "tb_requests_chunk L sequence chunk =
     (arm (set_slot L i (chunk_slot (rp_now (rl_ports L) (rl_context L)) chunk (rl_slots L ! i))), True,
      map_option (\<lambda>cb. (cb, sequence,
         chunk\<lparr>rs_outcome := TB_OUTCOME_RESPONSE, rs_final := chunk_final chunk\<rparr>)) (sl_callback (rl_slots L ! i)))"
proof -
  have "rs_total chunk \<noteq> 0" "\<not> sl_next_chunk (rl_slots L ! i) \<ge> rs_total chunk"
    "rs_index chunk = sl_next_chunk (rl_slots L ! i)"
    using assms(2) by (auto simp: chunk_due_def not_le)
  then show ?thesis using assms(1)
    by (simp add: tb_requests_chunk_def chunk_slot_def chunk_final_def Let_def)
qed

lemma chunk_slot_frame [simp]:
  "sl_sequence (chunk_slot now chunk slot) = sl_sequence slot"
  "sl_callback (chunk_slot now chunk slot) = sl_callback slot"
  "sl_active (chunk_slot now chunk slot) = (sl_active slot \<and> \<not> chunk_final chunk)"
  "slot_waits (chunk_slot now chunk slot) = slot_waits slot"
  by (simp_all add: chunk_slot_def slot_waits_def)

lemma chunk_inv [tb_inv]:
  assumes inv: "requests_inv L"
  shows "requests_inv (fst (tb_requests_chunk L sequence chunk))"
proof (cases "slots_find (rl_slots L) sequence")
  case None
  then show ?thesis using inv by (simp add: chunk_unknown)
next
  case (Some i)
  note i = slots_find_Some [OF Some]
  have ok: "slot_ok (rl_slots L ! i)" "\<not> rl_submitting L" using inv i by (simp_all add: requests_inv_def)
  show ?thesis
  proof (cases "chunk_due (rl_slots L ! i) chunk")
    case True
    let ?s = "chunk_slot (rp_now (rl_ports L) (rl_context L)) chunk (rl_slots L ! i)"
    have "slot_ok ?s" using ok(1) by (simp add: slot_ok_def)
    then show ?thesis
      using ok(2) by (intro requests_invI [OF inv, where i = i and s' = ?s]) (simp_all add: chunk_right [OF Some True])
  qed (simp add: chunk_wrong [OF Some] complete_inv [OF inv i(1)])
qed

lemma send_failed_inv [tb_inv]:
  "requests_inv L \<Longrightarrow> requests_inv (fst (tb_requests_send_failed L sequence unreachable))"
proof (cases "slots_find (rl_slots L) sequence")
  case (Some i)
  assume "requests_inv L"
  then show ?thesis using attempt_inv_update [of L i] slots_find_Some(1,2) [OF Some]
    by (simp add: tb_requests_send_failed_def Some)
qed (simp add: tb_requests_send_failed_def)

lemma outbox_ready_inv [tb_inv]:
  "requests_inv L \<Longrightarrow> requests_inv (fst (tb_requests_outbox_ready L))"
proof (cases "List.find (\<lambda>i. sl_active (rl_slots L ! i) \<and> sl_queued (rl_slots L ! i)) [0..<TB_REQUEST_SLOTS]")
  case (Some i)
  assume "requests_inv L"
  then show ?thesis using attempt_inv [of L i] find_upt_SomeD(1,2) [OF Some]
    by (simp add: tb_requests_outbox_ready_def Some)
qed (simp add: tb_requests_outbox_ready_def)

lemma cancel_inv [tb_inv]:
  "requests_inv L \<Longrightarrow> requests_inv (fst (tb_requests_cancel L sequence))"
proof (cases "slots_find (rl_slots L) sequence")
  case (Some i)
  assume "requests_inv L"
  then show ?thesis using complete_inv [of L i] slots_find_Some(1) [OF Some]
    by (simp add: tb_requests_cancel_def Some)
qed (simp add: tb_requests_cancel_def)

text \<open>
  The contract of the callbacks that run inside the layer's own loops: they keep the layer's
  invariant, which every program that only uses the operations above does.
\<close>

locale request_dispatch =
  fixes dispatch :: "delivery \<Rightarrow> 'x TbRequestLayer \<times> 's \<Rightarrow> 'x TbRequestLayer \<times> 's"
  assumes dispatch_inv: "requests_inv L \<Longrightarrow> requests_inv (fst (dispatch d (L, s)))"
begin

lemma run_delivery_inv:
  "requests_inv (fst r) \<Longrightarrow> requests_inv (fst (run_delivery dispatch r s))"
  by (auto simp: run_delivery_def dispatch_inv split: prod.splits option.splits)

lemma tick_slot_inv:
  "requests_inv (fst p) \<Longrightarrow> i < TB_REQUEST_SLOTS \<Longrightarrow> requests_inv (fst (tick_slot dispatch now i p))"
  by (cases p) (auto simp: tick_slot_def Let_def intro!: run_delivery_inv attempt_inv_update complete_inv)

lemma cancel_slot_inv:
  "requests_inv (fst p) \<Longrightarrow> i < TB_REQUEST_SLOTS \<Longrightarrow> requests_inv (fst (cancel_slot dispatch i p))"
  by (cases p) (auto simp: cancel_slot_def intro!: run_delivery_inv complete_inv)

lemma fold_slots_inv:
  assumes "\<And>i p. requests_inv (fst p) \<Longrightarrow> i < TB_REQUEST_SLOTS \<Longrightarrow> requests_inv (fst (f i p))"
    and "requests_inv (fst p)" and "set is \<subseteq> {0..<TB_REQUEST_SLOTS}"
  shows "requests_inv (fst (fold f is p))"
  using assms(2,3) by (induction "is" arbitrary: p) (auto simp: assms(1))

lemma tick_inv:
  assumes "requests_inv (fst p)"
  shows "requests_inv (fst (tb_requests_tick dispatch p))"
  unfolding tb_requests_tick_def Let_def split_beta fst_conv requests_inv_frame
  by (rule fold_slots_inv) (simp_all add: assms tick_slot_inv)

lemma cancel_all_inv:
  assumes "requests_inv (fst p)"
  shows "requests_inv (fst (tb_requests_cancel_all dispatch p))"
  unfolding tb_requests_cancel_all_def Let_def split_beta fst_conv requests_inv_frame
  by (rule fold_slots_inv) (simp_all add: assms cancel_slot_inv)

end

section \<open>The timer\<close>

text \<open>
  The timer is set for the current slots: after the last cancellation it was scheduled for the
  smallest remaining time of an active slot, at least one millisecond, or there is no active slot
  and nothing was scheduled.
\<close>

definition timer_set :: "'x TbRequestLayer \<Rightarrow> bool" where
  "timer_set L \<longleftrightarrow> (\<exists>x. let y = rp_cancel (rl_ports L) x;
       rs = {remaining (rp_now (rl_ports L) y) (sl_deadline s) | s. s \<in> set (rl_slots L) \<and> sl_active s}
     in rl_context L = (if rs = {} then y else snd (rp_schedule (rl_ports L) y (max 1 (Min rs)))))"

lemma active_remaining_set:
  "set (active_remaining now slots) = {remaining now (sl_deadline s) | s. s \<in> set slots \<and> sl_active s}"
  by (auto simp: active_remaining_def)

lemma max_one_u32: "(if e = 0 then 1 else e) = max 1 (e :: u32)"
  by (simp add: max_def word_less_nat_alt word_le_nat_alt word_unat_eq_iff)

lemma timer_set_arm: "timer_set (arm L)"
proof -
  let ?y = "rp_cancel (rl_ports L) (rl_context L)"
  let ?r = "active_remaining (rp_now (rl_ports L) ?y) (rl_slots L)"
  have "rl_context (arm L) =
      (if set ?r = {} then ?y else snd (rp_schedule (rl_ports L) ?y (max 1 (Min (set ?r)))))"
    by (simp add: arm_def Let_def earliest_eq max_one_u32)
  then show ?thesis
    unfolding timer_set_def Let_def active_remaining_set by auto
qed

lemma timer_set_frame [simp]:
  "timer_set (L\<lparr>rl_immediate := out\<rparr>) = timer_set L"
  "timer_set (L\<lparr>rl_submitting := b\<rparr>) = timer_set L"
  by (simp_all add: timer_set_def)

lemma timer_set_complete: "timer_set (fst (complete L i out res))"
  by (simp add: complete_def Let_def timer_set_arm split: option.splits)

lemma timer_set_attempt: "timer_set (fst (attempt L i))"
  by (simp add: attempt_def Let_def timer_set_arm timer_set_complete split: prod.splits)

section \<open>Reachable layers\<close>

text \<open>One call of an operation that runs at most one callback, as its last action.\<close>

inductive requests_op :: "'x TbRequestLayer \<Rightarrow> 'x TbRequestLayer \<Rightarrow> bool" where
  op_submit: "requests_op L (fst (tb_requests_submit L args timeout max_attempts resend cb))"
| op_chunk: "requests_op L (fst (tb_requests_chunk L sequence chunk))"
| op_response: "requests_op L (fst (tb_requests_response L sequence result))"
| op_send_failed: "requests_op L (fst (tb_requests_send_failed L sequence unreachable))"
| op_outbox_ready: "requests_op L (fst (tb_requests_outbox_ready L))"
| op_cancel: "requests_op L (fst (tb_requests_cancel L sequence))"

text \<open>
  Layers the program can reach: the operations in any order, the two things \<open>tb_requests_tick\<close>
  does with an overdue slot, and changes of the platform's own state between the calls.
\<close>

inductive requests_reach :: "'x TbRequestLayer \<Rightarrow> bool" where
  reach_init: "length slots = TB_REQUEST_SLOTS \<Longrightarrow> requests_reach (tb_requests_init slots ports context)"
| reach_op: "requests_reach L \<Longrightarrow> requests_op L L' \<Longrightarrow> requests_reach L'"
| reach_retry: "requests_reach L \<Longrightarrow> i < TB_REQUEST_SLOTS \<Longrightarrow> sl_active (rl_slots L ! i) \<Longrightarrow>
    requests_reach (fst (attempt (set_slot L i ((rl_slots L ! i)\<lparr>sl_unreachable := False\<rparr>)) i))"
| reach_expire: "requests_reach L \<Longrightarrow> i < TB_REQUEST_SLOTS \<Longrightarrow> sl_active (rl_slots L ! i) \<Longrightarrow>
    requests_reach (fst (complete L i out 0))"
| reach_arm: "requests_reach L \<Longrightarrow> requests_reach (arm L)"
| reach_platform: "requests_reach L \<Longrightarrow> requests_reach (L\<lparr>rl_context := x\<rparr>)"

inductive_cases requests_op_cases: "requests_op L L'"

lemma requests_op_inv: "requests_op L L' \<Longrightarrow> requests_inv L \<Longrightarrow> requests_inv L'"
  by (induction rule: requests_op.induct)
     (simp_all add: tb_inv tb_requests_response_def)

lemma requests_reach_inv: "requests_reach L \<Longrightarrow> requests_inv L"
  by (induction rule: requests_reach.induct)
     (simp_all add: init_inv requests_op_inv attempt_inv_update complete_inv)

text \<open>Both loops stay within the reachable layers when the callbacks do.\<close>

lemma tick_slot_reach:
  assumes "\<And>d L s. requests_reach L \<Longrightarrow> requests_reach (fst (dispatch d (L, s)))"
    and "requests_reach (fst p)" and "i < TB_REQUEST_SLOTS"
  shows "requests_reach (fst (tick_slot dispatch now i p))"
proof -
  have run: "requests_reach (fst (run_delivery dispatch r s))" if "requests_reach (fst r)" for r s
    using that assms(1) by (auto simp: run_delivery_def split: prod.splits option.splits)
  obtain L s where p: "p = (L, s)" by (cases p)
  show ?thesis
  proof (cases "sl_active (rl_slots L ! i)")
    case True
    then show ?thesis
      using reach_retry [of L i] reach_expire [of L i TB_OUTCOME_TIMEOUT] assms(2,3) run
      by (simp add: p tick_slot_def Let_def)
  qed (use assms(2) p in \<open>simp add: tick_slot_def\<close>)
qed

lemma tick_reach:
  assumes "\<And>d L s. requests_reach L \<Longrightarrow> requests_reach (fst (dispatch d (L, s)))"
    and "requests_reach (fst p)"
  shows "requests_reach (fst (tb_requests_tick dispatch p))"
proof -
  have "requests_reach (fst (fold (tick_slot dispatch now) is p))"
    if "set is \<subseteq> {0..<TB_REQUEST_SLOTS}" "requests_reach (fst p)" for "is" now p
    using that by (induction "is" arbitrary: p) (auto simp: assms(1) tick_slot_reach [where dispatch = dispatch])
  then show ?thesis
    using assms(2) by (simp add: tb_requests_tick_def Let_def split_beta reach_arm)
qed

section \<open>Submission\<close>

lemma pending_update:
  assumes "requests_inv L" and "requests_inv L'" and "rl_slots L' = (rl_slots L)[i := s']"
    and "i < TB_REQUEST_SLOTS"
  shows "tb_requests_pending L' q \<longleftrightarrow>
     sl_active s' \<and> sl_sequence s' = q \<or>
     (\<exists>j<TB_REQUEST_SLOTS. j \<noteq> i \<and> sl_active (rl_slots L ! j) \<and> sl_sequence (rl_slots L ! j) = q)"
proof -
  have "length (rl_slots L) = TB_REQUEST_SLOTS" using assms(1) by (simp add: requests_inv_def)
  then have nth: "rl_slots L' ! j = (if j = i then s' else rl_slots L ! j)" if "j < TB_REQUEST_SLOTS" for j
    using that assms(3) by simp
  have "tb_requests_pending L' q \<longleftrightarrow>
      (\<exists>j<TB_REQUEST_SLOTS. sl_active (rl_slots L' ! j) \<and> sl_sequence (rl_slots L' ! j) = q)"
    by (auto simp: tb_requests_pending_def)
  also have "\<dots> \<longleftrightarrow> (\<exists>j<TB_REQUEST_SLOTS. sl_active (if j = i then s' else rl_slots L ! j) \<and>
      sl_sequence (if j = i then s' else rl_slots L ! j) = q)"
    using nth by (intro ex_cong1 conj_cong refl) simp_all
  finally show ?thesis using assms(4) by (auto split: if_splits)
qed

lemma pending_ex:
  "tb_requests_pending L q \<longleftrightarrow>
     (\<exists>j<TB_REQUEST_SLOTS. sl_active (rl_slots L ! j) \<and> sl_sequence (rl_slots L ! j) = q)"
  by (auto simp: tb_requests_pending_def)

lemma pending_free_slot:
  "\<not> sl_active (rl_slots L ! i) \<Longrightarrow>
   (\<exists>j<TB_REQUEST_SLOTS. j \<noteq> i \<and> sl_active (rl_slots L ! j) \<and> sl_sequence (rl_slots L ! j) = q) \<longleftrightarrow>
   tb_requests_pending L q"
  unfolding pending_ex by metis

section \<open>Streams of chunks\<close>

text \<open>What the callback of one request sees of a sequence of received chunks.\<close>

fun feed :: "'x TbRequestLayer \<Rightarrow> u32 \<Rightarrow> TbResponse list \<Rightarrow> 'x TbRequestLayer \<times> delivery list" where
  "feed L q [] = (L, [])"
| "feed L q (c # cs) =
     (case tb_requests_chunk L q c of (L1, _, d) \<Rightarrow>
        case feed L1 q cs of (L2, ds) \<Rightarrow> (L2, case d of None \<Rightarrow> ds | Some x \<Rightarrow> x # ds))"

lemma feed_unknown:
  "slots_find (rl_slots L) q = None \<Longrightarrow> feed L q cs = (L, [])"
  by (induction cs) (simp_all add: chunk_unknown)

lemma find_after_update:
  assumes inv: "requests_inv L" and f: "slots_find (rl_slots L) q = Some i"
    and s': "sl_sequence s' = q" and inv': "requests_inv L'" and e: "rl_slots L' = (rl_slots L)[i := s']"
  shows "slots_find (rl_slots L') q = (if sl_active s' then Some i else None)"
proof -
  note i = slots_find_Some [OF f]
  have n: "rl_slots L' ! i = s'" using inv i e by (simp add: requests_inv_def)
  show ?thesis
  proof (cases "sl_active s'")
    case True
    then show ?thesis using slots_find_eq [OF inv' i(1)] n s' by simp
  next
    case False
    have "\<not> tb_requests_pending L' q"
      unfolding pending_update [OF inv inv' e i(1)] using False inv i by (auto simp: requests_inv_def)
    then show ?thesis using False pending_iff [OF inv'] by simp
  qed
qed

text \<open>The deliveries from chunk number \<open>n\<close> on: in order, the last one and no other final.\<close>

fun deliveries_ok :: "TbRequestCallback \<Rightarrow> u32 \<Rightarrow> nat \<Rightarrow> bool \<Rightarrow> TbResponse list \<Rightarrow> delivery list \<Rightarrow> bool" where
  "deliveries_ok cb q n pending cs [] \<longleftrightarrow> pending \<and> cs = []"
| "deliveries_ok cb q n pending [] (d # ds) \<longleftrightarrow> False"
| "deliveries_ok cb q n pending (c # cs) ((cb', q', r) # ds) \<longleftrightarrow> cb' = cb \<and> q' = q \<and>
     (case rs_outcome r of
        TB_OUTCOME_RESPONSE \<Rightarrow> r = c\<lparr>rs_outcome := TB_OUTCOME_RESPONSE, rs_final := rs_final r\<rparr> \<and>
          unat (rs_index r) = n \<and> (rs_final r \<longleftrightarrow> unat (rs_total r) = n + 1)
      | TB_OUTCOME_PROTOCOL \<Rightarrow> rs_final r \<and> \<not> (unat (rs_index c) = n \<and> n < unat (rs_total c))
      | _ \<Rightarrow> False) \<and>
     (if rs_final r then ds = [] \<and> \<not> pending else deliveries_ok cb q (n + 1) pending cs ds)"

lemma chunk_final_iff: "chunk_due slot chunk \<Longrightarrow> chunk_final chunk \<longleftrightarrow> unat (rs_total chunk) = unat (sl_next_chunk slot) + 1"
  by (auto simp: chunk_final_def chunk_due_def)

lemma feed_ok:
  assumes "requests_inv L" and "slots_find (rl_slots L) q = Some i"
    and "sl_callback (rl_slots L ! i) = Some cb"
  shows "deliveries_ok cb q (unat (sl_next_chunk (rl_slots L ! i)))
     (tb_requests_pending (fst (feed L q cs)) q) cs (snd (feed L q cs))"
  using assms
proof (induction cs arbitrary: L)
  case Nil
  then show ?case by (simp add: pending_iff)
next
  case (Cons c cs)
  note f = Cons.prems(2)
  let ?L1 = "fst (tb_requests_chunk L q c)"
  have inv1: "requests_inv ?L1" using Cons.prems(1) by (rule chunk_inv)
  have sub: "\<not> rl_submitting L" using Cons.prems(1) by (simp add: requests_inv_def)
  have len: "i < length (rl_slots L)" using slots_find_Some(1) [OF f] Cons.prems(1) by (simp add: requests_inv_def)
  show ?case
  proof (cases "chunk_due (rl_slots L ! i) c")
    case False
    have "slots_find (rl_slots ?L1) q = None"
      using find_after_update [OF Cons.prems(1) f _ inv1, of "(rl_slots L ! i)\<lparr>sl_active := False\<rparr>"]
      by (simp add: chunk_wrong [OF f False] slots_find_Some [OF f])
    then have "feed ?L1 q cs = (?L1, [])" "\<not> tb_requests_pending ?L1 q"
      by (simp_all add: feed_unknown pending_iff [OF inv1])
    then show ?thesis
      using False Cons.prems(3) sub slots_find_Some(3) [OF f]
      by (simp add: chunk_wrong [OF f False] complete_delivery)
         (auto simp: chunk_due_def word_less_nat_alt word_unat_eq_iff)
  next
    case True
    let ?s = "chunk_slot (rp_now (rl_ports L) (rl_context L)) c (rl_slots L ! i)"
    have e: "rl_slots ?L1 = (rl_slots L)[i := ?s]" by (simp add: chunk_right [OF f True])
    have find1: "slots_find (rl_slots ?L1) q = (if chunk_final c then None else Some i)"
      using find_after_update [OF Cons.prems(1) f _ inv1 e] slots_find_Some [OF f] by simp
    have nth: "rl_slots ?L1 ! i = ?s" using e len by simp
    have idx: "unat (rs_index c) = unat (sl_next_chunk (rl_slots L ! i))"
      "unat (sl_next_chunk (rl_slots L ! i)) < unat (rs_total c)"
      using True by (auto simp: chunk_due_def word_less_nat_alt)
    have d: "snd (snd (tb_requests_chunk L q c)) =
        Some (cb, q, c\<lparr>rs_outcome := TB_OUTCOME_RESPONSE, rs_final := chunk_final c\<rparr>)"
      using Cons.prems(3) by (simp add: chunk_right [OF f True])
    show ?thesis
    proof (cases "chunk_final c")
      case fin: True
      then have "feed ?L1 q cs = (?L1, [])" "\<not> tb_requests_pending ?L1 q"
        using find1 by (simp_all add: feed_unknown pending_iff [OF inv1])
      then show ?thesis
        using d fin idx chunk_final_iff [OF True] by (simp add: split_beta)
    next
      case notfin: False
      have nc: "unat (sl_next_chunk ?s) = unat (sl_next_chunk (rl_slots L ! i)) + 1"
        using notfin idx unat_plus_u16 [of "sl_next_chunk (rl_slots L ! i)" 1] unat_u16_less [of "rs_total c"]
        by (simp add: chunk_slot_def)
      have "deliveries_ok cb q (unat (sl_next_chunk (rl_slots L ! i)) + 1)
          (tb_requests_pending (fst (feed ?L1 q cs)) q) cs (snd (feed ?L1 q cs))"
        using Cons.IH [OF inv1] find1 notfin Cons.prems(3) unfolding nth nc by simp
      then show ?thesis
        using d notfin idx chunk_final_iff [OF True] by (simp add: split_beta)
    qed
  qed
qed

lemma chunk_timer_set: "fst (tb_requests_chunk L q c) = L \<or> timer_set (fst (tb_requests_chunk L q c))"
proof (cases "slots_find (rl_slots L) q")
  case (Some i)
  then show ?thesis
    using chunk_wrong [OF Some, of c] chunk_right [OF Some, of c] timer_set_complete timer_set_arm
    by (metis fst_conv)
qed (simp add: chunk_unknown)

section \<open>Ticks\<close>

text \<open>Time does not pass while the layer works, and callbacks only take note.\<close>

definition clock_steady :: "'x TbRequestPorts \<Rightarrow> bool" where
  "clock_steady ports \<longleftrightarrow> (\<forall>x q a. rp_now ports (snd (rp_send ports x q a)) = rp_now ports x) \<and>
     (\<forall>x ms. rp_now ports (snd (rp_schedule ports x ms)) = rp_now ports x) \<and>
     (\<forall>x. rp_now ports (rp_cancel ports x) = rp_now ports x)"

definition note_delivery ::
  "delivery \<Rightarrow> 'x TbRequestLayer \<times> delivery list \<Rightarrow> 'x TbRequestLayer \<times> delivery list" where
  "note_delivery d p = (fst p, snd p @ [d])"

lemma run_note:
  "run_delivery note_delivery r ds = (fst r, ds @ (case snd r of None \<Rightarrow> [] | Some d \<Rightarrow> [d]))"
  by (simp add: run_delivery_def note_delivery_def split: prod.splits option.splits)

lemma steady_now:
  assumes "clock_steady (rl_ports L)"
  shows "rp_now (rl_ports L) (rl_context (arm L)) = rp_now (rl_ports L) (rl_context L)"
    and "rp_now (rl_ports L) (rl_context (fst (complete L i out res))) = rp_now (rl_ports L) (rl_context L)"
proof -
  have a: "rp_now (rl_ports L) (rl_context (arm L)) = rp_now (rl_ports L) (rl_context L)"
    if "clock_steady (rl_ports L)" for L :: "'a TbRequestLayer"
    using that by (simp add: arm_def Let_def clock_steady_def split: option.splits)
  show "rp_now (rl_ports L) (rl_context (arm L)) = rp_now (rl_ports L) (rl_context L)" by (rule a [OF assms])
  show "rp_now (rl_ports L) (rl_context (fst (complete L i out res))) = rp_now (rl_ports L) (rl_context L)"
    using a [of "set_slot L i ((rl_slots L ! i)\<lparr>sl_active := False\<rparr>)"] assms
    by (simp add: complete_def Let_def split: option.splits)
qed

lemma attempt_loop_now:
  "clock_steady ports \<Longrightarrow> rp_now ports (fst (attempt_loop ports now x slot)) = rp_now ports x"
proof (induction x slot rule: attempt_loop_slot_induct [where ports = ports])
  case (busy x slot x')
  then have "rp_now ports x' = rp_now ports x" unfolding clock_steady_def by (metis snd_conv)
  with busy show ?case by (simp add: attempt_loop_busy)
next
  case (sent x slot x')
  then have "rp_now ports x' = rp_now ports x" unfolding clock_steady_def by (metis snd_conv)
  with sent show ?case by (simp add: attempt_loop_sent)
next
  case (again x slot x' sent)
  then have "rp_now ports x' = rp_now ports x" unfolding clock_steady_def by (metis snd_conv)
  with again show ?case by (simp add: attempt_loop_again)
qed (simp add: attempt_loop_done)

lemma steady_attempt:
  assumes "clock_steady (rl_ports L)"
  shows "rp_now (rl_ports L) (rl_context (fst (attempt L i))) = rp_now (rl_ports L) (rl_context L)"
proof -
  obtain x slot waits where r: "attempt_loop (rl_ports L) (rp_now (rl_ports L) (rl_context L))
      (rl_context L) (rl_slots L ! i) = (x, slot, waits)" by (metis prod_cases3)
  let ?L1 = "(set_slot L i slot)\<lparr>rl_context := x\<rparr>"
  have "rp_now (rl_ports L) x = rp_now (rl_ports L) (rl_context L)"
    using attempt_loop_now [OF assms, of _ "rl_context L" "rl_slots L ! i"] r by (metis fst_conv)
  then show ?thesis
    using steady_now(1) [of ?L1] steady_now(2) [of ?L1] assms by (simp add: attempt_def r Let_def)
qed

lemma attempt_loop_deadline:
  "snd (snd (attempt_loop ports now x slot)) \<Longrightarrow>
   sl_deadline (fst (snd (attempt_loop ports now x slot))) \<in> {now + TB_QUEUE_RETRY_MS, now + sl_timeout slot}"
  by (induction x slot rule: attempt_loop_slot_induct [where ports = ports])
     (auto simp: attempt_loop_rounds split: if_splits)

lemma not_reached_later: "0 < d \<Longrightarrow> d \<le> 2147483648 \<Longrightarrow> \<not> reached t (t + d)"
proof -
  assume d: "0 < d" "d \<le> 2147483648"
  have e: "t - (t + d) = - d" by simp
  show ?thesis
  proof
    assume "reached t (t + d)"
    then have "unat (- d) < 2147483648" by (simp only: reached_iff_unat e)
    then have "unat (- d) + unat d < 2 ^ LENGTH(32)" using d(2) by (simp add: word_le_nat_alt)
    then have "unat (- d + d) = unat (- d) + unat d" by (rule unat_plus_no_wrap)
    then show False using d(1) by (simp add: word_less_nat_alt)
  qed
qed

text \<open>What a tick does to one slot, and the reports that belong to it.\<close>

definition tick_done :: "u32 \<Rightarrow> TbRequestSlot \<Rightarrow> TbRequestSlot \<Rightarrow> delivery list \<Rightarrow> bool" where
  "tick_done now s s' ds \<longleftrightarrow>
     (sl_active s \<and> reached now (sl_deadline s) \<or> s' = s) \<and>
     (sl_active s' \<longrightarrow> \<not> reached now (sl_deadline s')) \<and>
     (sl_active s \<and> \<not> sl_active s' \<longrightarrow> (\<forall>cb. sl_callback s = Some cb \<longrightarrow>
        (\<exists>r. (cb, sl_sequence s, r) \<in> set ds \<and> rs_final r \<and>
           rs_outcome r \<in> {TB_OUTCOME_TIMEOUT, TB_OUTCOME_UNREACHABLE})))"

lemma tick_done_more: "tick_done now s s' ds \<Longrightarrow> set ds \<subseteq> set ds' \<Longrightarrow> tick_done now s s' ds'"
  unfolding tick_done_def by blast

lemma tick_retry_done:
  assumes inv: "requests_inv L" and i: "i < TB_REQUEST_SLOTS" "sl_active (rl_slots L ! i)"
    and steady: "clock_steady (rl_ports L)" and now: "now = rp_now (rl_ports L) (rl_context L)"
    and t: "0 < sl_timeout (rl_slots L ! i)" "sl_timeout (rl_slots L ! i) \<le> 2147483648"
    and over: "reached now (sl_deadline (rl_slots L ! i))"
    and L1: "L1 = set_slot L i ((rl_slots L ! i)\<lparr>sl_unreachable := False\<rparr>)"
  shows "\<exists>s'. rl_slots (fst (attempt L1 i)) = (rl_slots L)[i := s'] \<and>
     tick_done now (rl_slots L ! i) s' (case snd (attempt L1 i) of None \<Rightarrow> [] | Some d \<Rightarrow> [d])"
proof -
  obtain s' waits where r: "attempt_result L1 i = (s', waits)" by fastforce
  have len: "i < length (rl_slots L)" using inv i by (simp add: requests_inv_def)
  have nth: "rl_slots L1 ! i = (rl_slots L ! i)\<lparr>sl_unreachable := False\<rparr>" using len by (simp add: L1)
  have len1: "i < length (rl_slots L1)" using len by (simp add: L1)
  have sub: "\<not> rl_submitting L1" using inv by (simp add: L1 requests_inv_def)
  let ?s' = "if waits then s' else s'\<lparr>sl_active := False\<rparr>"
  have slots: "rl_slots (fst (attempt L1 i)) = (rl_slots L)[i := ?s']"
    using attempt_slots(1) [OF r len1] by (simp add: L1)
  note fr = attempt_result_frame(1) [OF r, unfolded nth]
  have "tick_done now (rl_slots L ! i) ?s' (case snd (attempt L1 i) of None \<Rightarrow> [] | Some d \<Rightarrow> [d])"
  proof (cases waits)
    case True
    let ?a = "attempt_loop (rl_ports L1) (rp_now (rl_ports L1) (rl_context L1)) (rl_context L1) (rl_slots L1 ! i)"
    have a: "snd (snd ?a)" "s' = fst (snd ?a)" using r True by (simp_all add: attempt_result_def)
    have "sl_deadline s' \<in> {now + TB_QUEUE_RETRY_MS, now + sl_timeout (rl_slots L ! i)}"
      using attempt_loop_deadline [OF a(1), folded a(2)] nth by (simp add: L1 now)
    then have "\<not> reached now (sl_deadline s')" using not_reached_later t by auto
    then show ?thesis using True fr over i by (simp add: tick_done_def slot_frame_def)
  next
    case False
    then show ?thesis
      using attempt_gives_up(2) [of L1 i s'] r len1 sub over i nth
      by (simp add: tick_done_def)
  qed
  then show ?thesis using slots by blast
qed

lemma tick_slot_done:
  assumes inv: "requests_inv L" and i: "i < TB_REQUEST_SLOTS"
    and steady: "clock_steady (rl_ports L)" and now: "now = rp_now (rl_ports L) (rl_context L)"
    and t: "0 < sl_timeout (rl_slots L ! i)" "sl_timeout (rl_slots L ! i) \<le> 2147483648"
    and r: "tick_slot note_delivery now i (L, ds) = (L', ds')"
  shows "requests_inv L' \<and> rl_ports L' = rl_ports L \<and> rp_now (rl_ports L) (rl_context L') = now \<and>
     (\<exists>s' more. rl_slots L' = (rl_slots L)[i := s'] \<and> ds' = ds @ more \<and> tick_done now (rl_slots L ! i) s' more)"
proof -
  let ?s = "rl_slots L ! i"
  have len: "i < length (rl_slots L)" using inv i by (simp add: requests_inv_def)
  consider "\<not> sl_active ?s \<or> \<not> reached now (sl_deadline ?s)"
    | (retry) "sl_active ?s" "reached now (sl_deadline ?s)" "sl_queued ?s \<or> sl_resend_on_timeout ?s \<and> sl_next_chunk ?s = 0"
    | (expire) "sl_active ?s" "reached now (sl_deadline ?s)" "\<not> (sl_queued ?s \<or> sl_resend_on_timeout ?s \<and> sl_next_chunk ?s = 0)"
    by blast
  then show ?thesis
  proof cases
    case 1
    then have "L' = L" "ds' = ds" using r by (simp_all add: tick_slot_def split: if_splits)
    then show ?thesis using 1 inv now
      by (auto simp: tick_done_def intro!: exI [of _ ?s] exI [of _ "[]"])
  next
    case retry
    define L1 where "L1 = set_slot L i (?s\<lparr>sl_unreachable := False\<rparr>)"
    have e: "L' = fst (attempt L1 i)" "ds' = ds @ (case snd (attempt L1 i) of None \<Rightarrow> [] | Some d \<Rightarrow> [d])"
      using r retry by (simp_all add: tick_slot_def Let_def run_note L1_def split: if_splits)
    have "rl_ports L' = rl_ports L" "requests_inv L'"
      using attempt_slots(4) [of L1 i] attempt_inv_update [OF inv i retry(1)] len e
      by (auto simp: L1_def) (metis attempt_slots(4) len length_list_update set_slot_frame(1,2) surj_pair)
    moreover have "rp_now (rl_ports L) (rl_context L') = now"
      using steady_attempt [of L1 i] steady e(1) by (simp add: L1_def now)
    ultimately show ?thesis
      using tick_retry_done [OF inv i retry(1) steady now t retry(2) L1_def] e by blast
  next
    case expire
    have e: "L' = fst (complete L i TB_OUTCOME_TIMEOUT 0)"
      "ds' = ds @ (case snd (complete L i TB_OUTCOME_TIMEOUT 0) of None \<Rightarrow> [] | Some d \<Rightarrow> [d])"
      using r expire by (simp_all add: tick_slot_def Let_def run_note split: if_splits)
    have "\<not> rl_submitting L" using inv by (simp add: requests_inv_def)
    then have "tick_done now ?s (?s\<lparr>sl_active := False\<rparr>)
        (case snd (complete L i TB_OUTCOME_TIMEOUT 0) of None \<Rightarrow> [] | Some d \<Rightarrow> [d])"
      using expire by (simp add: tick_done_def complete_delivery)
    then show ?thesis
      using e complete_inv [OF inv i] steady_now(2) [OF steady] now by auto
  qed
qed

lemma fold_tick_done:
  assumes "requests_inv L" and "clock_steady (rl_ports L)" and "now = rp_now (rl_ports L) (rl_context L)"
    and "distinct is" and "set is \<subseteq> {0..<TB_REQUEST_SLOTS}" and "i \<in> set is"
    and "\<And>i. i \<in> set is \<Longrightarrow> 0 < sl_timeout (rl_slots L ! i) \<and> sl_timeout (rl_slots L ! i) \<le> 2147483648"
  shows "tick_done now (rl_slots L ! i) (rl_slots (fst (fold (tick_slot note_delivery now) is (L, ds))) ! i)
     (snd (fold (tick_slot note_delivery now) is (L, ds)))"
proof -
  have gen: "(\<forall>j. j \<notin> set is \<longrightarrow> rl_slots (fst (fold (tick_slot note_delivery now) is (L, ds))) ! j = rl_slots L ! j) \<and>
      set ds \<subseteq> set (snd (fold (tick_slot note_delivery now) is (L, ds))) \<and>
      (\<forall>j\<in>set is. tick_done now (rl_slots L ! j) (rl_slots (fst (fold (tick_slot note_delivery now) is (L, ds))) ! j)
         (snd (fold (tick_slot note_delivery now) is (L, ds))))"
    using assms(1-5,7)
  proof (induction "is" arbitrary: L ds)
    case (Cons k ks)
    obtain L' ds' where r: "tick_slot note_delivery now k (L, ds) = (L', ds')" by fastforce
    have k: "k < TB_REQUEST_SLOTS" "k < length (rl_slots L)"
      using Cons.prems(1,5) by (auto simp: requests_inv_def)
    obtain s' more where step: "requests_inv L'" "rl_ports L' = rl_ports L"
        "rp_now (rl_ports L) (rl_context L') = now" "rl_slots L' = (rl_slots L)[k := s']" "ds' = ds @ more"
        "tick_done now (rl_slots L ! k) s' more"
      using tick_slot_done [OF Cons.prems(1) k(1) Cons.prems(2,3) _ _ r] Cons.prems(6) [of k] by auto
    have same: "rl_slots L' ! j = rl_slots L ! j" if "j \<noteq> k" for j using step(4) that by simp
    let ?r = "fold (tick_slot note_delivery now) ks (L', ds')"
    have IH: "(\<forall>j. j \<notin> set ks \<longrightarrow> rl_slots (fst ?r) ! j = rl_slots L' ! j) \<and> set ds' \<subseteq> set (snd ?r) \<and>
        (\<forall>j\<in>set ks. tick_done now (rl_slots L' ! j) (rl_slots (fst ?r) ! j) (snd ?r))"
    proof (rule Cons.IH)
      fix j assume "j \<in> set ks"
      then have "j \<in> set (k # ks)" "j \<noteq> k" using Cons.prems(4) by auto
      then show "0 < sl_timeout (rl_slots L' ! j) \<and> sl_timeout (rl_slots L' ! j) \<le> 2147483648"
        using Cons.prems(6) [of j] same [of j] by simp
    qed (use step Cons.prems in simp_all)
    have "rl_slots (fst ?r) ! k = s'" using IH Cons.prems(4) step(4) k(2) by simp
    then have "tick_done now (rl_slots L ! k) (rl_slots (fst ?r) ! k) (snd ?r)"
      using tick_done_more [OF step(6)] IH step(5) by auto
    moreover have "tick_done now (rl_slots L ! j) (rl_slots (fst ?r) ! j) (snd ?r)" if "j \<in> set ks" for j
    proof -
      have ne: "j \<noteq> k" using that Cons.prems(4) by auto
      have "tick_done now (rl_slots L' ! j) (rl_slots (fst ?r) ! j) (snd ?r)" using IH that by blast
      then show ?thesis unfolding same [OF ne] .
    qed
    ultimately show ?case using IH same step(5) by (auto simp: r)
  qed simp
  then show ?thesis using assms(6) by blast
qed

section \<open>A sample platform\<close>

text \<open>
  For evaluation on concrete inputs: every message is sent, the timer notes what was scheduled
  and the clock stands still.
\<close>

definition sample_ports :: "u32 list TbRequestPorts" where
  "sample_ports = \<lparr>rp_send = (\<lambda>x q a. (TB_SEND_OK, x)), rp_schedule = (\<lambda>x ms. (True, x @ [ms])),
     rp_cancel = (\<lambda>x. x), rp_now = (\<lambda>x. 5000)\<rparr>"

definition sample_slot :: TbRequestSlot where
  "sample_slot = \<lparr>sl_active = False, sl_queued = False, sl_resend_on_timeout = False,
     sl_unreachable = False, sl_attempts = 0, sl_max_attempts = 0, sl_next_chunk = 0,
     sl_sequence = 0, sl_timeout = 1, sl_deadline = 0, sl_queued_since = 0, sl_callback = None,
     sl_args = request_args 0\<rparr>"

definition sample_layer :: "u32 list TbRequestLayer" where
  "sample_layer = tb_requests_init (replicate 4 sample_slot) sample_ports []"

definition sample_request_slot :: TbRequestSlot where
  "sample_request_slot = sample_slot\<lparr>sl_active := True, sl_attempts := 1, sl_max_attempts := 2,
     sl_sequence := 1, sl_timeout := 8000, sl_deadline := 13000, sl_callback := Some CB_SESSION,
     sl_args := request_args 1\<rparr>"

definition sample_pending :: "u32 list TbRequestLayer" where
  "sample_pending = sample_layer\<lparr>rl_context := [8000],
     rl_slots := [sample_request_slot, sample_slot, sample_slot, sample_slot], rl_next_sequence := 1\<rparr>"

lemma upt_4: "[0..<4] = [0, 1, 2, 3 :: nat]"
  by (simp add: upt_rec)

lemma replicate_4: "replicate 4 a = [a, a, a, a]"
  by (simp add: numeral_eq_Suc)

lemmas sample_eval = upt_4 replicate_4 sample_layer_def sample_pending_def sample_request_slot_def
  sample_ports_def sample_slot_def tb_requests_init_def

lemma sample_submit:
  "tb_requests_submit sample_layer (Some (request_args 1)) 8000 2 False (Some CB_SESSION) = (sample_pending, 1)"
  by (simp add: sample_eval tb_requests_submit_def advance_sequence.simps slots_find_def set_slot_def
      attempt_def attempt_loop.simps arm_def active_remaining_def earliest_def remaining_def reached_iff_unat)

lemma sample_inv: "requests_inv sample_layer" "requests_inv sample_pending"
proof -
  show l: "requests_inv sample_layer"
    unfolding sample_layer_def by (rule init_inv) simp
  show "requests_inv sample_pending" using submit_inv [OF l] sample_submit by (metis fst_conv)
qed

lemma sample_reach: "requests_reach sample_pending"
proof -
  have "requests_reach sample_layer" unfolding sample_layer_def by (rule reach_init) simp
  then show ?thesis using op_submit [of sample_layer] sample_submit by (metis fst_conv reach_op)
qed

section \<open>Properties\<close>

text \<open>
  C6. In every reachable state of the request layer there are exactly four slots, the pending
  requests have pairwise different sequences in \<open>1 .. INT32_MAX\<close>, none has used more attempts
  than it may, and each of them either waits for an answer to a message that was sent or is
  queued with an attempt left; the flag that turns callbacks into immediate outcomes is down.
\<close>

theorem requests_reachable_inv:
  assumes "requests_reach L"
  shows "length (rl_slots L) = TB_REQUEST_SLOTS \<and> \<not> rl_submitting L \<and>
     distinct (map sl_sequence (filter sl_active (rl_slots L))) \<and>
     (\<forall>s \<in> set (rl_slots L). sl_active s \<longrightarrow>
        0 < sl_sequence s \<and> sl_sequence s \<le> INT32_MAX \<and> sl_attempts s \<le> sl_max_attempts s \<and>
        (if sl_queued s then sl_attempts s < sl_max_attempts s else 0 < sl_attempts s))"
proof -
  note inv = requests_reach_inv [OF assms]
  have u: "i = j" if "i < length (rl_slots L)" "j < length (rl_slots L)" "sl_active (rl_slots L ! i)"
      "sl_active (rl_slots L ! j)" "sl_sequence (rl_slots L ! i) = sl_sequence (rl_slots L ! j)" for i j
    using that inv by (simp add: requests_inv_def)
  have "distinct (map sl_sequence (filter sl_active (rl_slots L)))"
    using u by (rule distinct_map_filter_nth)
  moreover have "slot_ok s" if "s \<in> set (rl_slots L)" for s
    using that inv by (auto simp: requests_inv_def in_set_conv_nth)
  ultimately show ?thesis
    using inv by (auto simp: requests_inv_def slot_ok_def slot_waits_def word_neq_0_conv)
qed

theorem requests_reachable_inv_witness:
  "requests_reach sample_pending \<and> distinct (map sl_sequence (filter sl_active (rl_slots sample_pending)))"
  using requests_reachable_inv [OF sample_reach] sample_reach by blast

text \<open>
  C7. A submission returns a sequence that no pending request uses and under which the request is
  pending afterwards with its arguments and callback, or zero; then nothing is pending that was
  not pending before, and the layer remembers why: the phone was unreachable, or no answer can
  come. In both cases every other pending request stays pending and untouched.
\<close>

theorem submit_fresh:
  assumes "requests_inv L"
    and "tb_requests_submit L args timeout max_attempts resend cb = (L', q)"
  shows "(\<forall>p. p \<noteq> q \<longrightarrow> tb_requests_pending L' p = tb_requests_pending L p) \<and>
     (\<forall>i<TB_REQUEST_SLOTS. sl_active (rl_slots L ! i) \<longrightarrow> rl_slots L' ! i = rl_slots L ! i) \<and>
     (if q = 0 then tb_requests_immediate_outcome L' = TB_OUTCOME_TIMEOUT \<or>
        tb_requests_immediate_outcome L' = TB_OUTCOME_UNREACHABLE
      else \<not> tb_requests_pending L q \<and> q \<le> INT32_MAX \<and>
        (\<exists>i<TB_REQUEST_SLOTS. sl_active (rl_slots L' ! i) \<and> sl_sequence (rl_slots L' ! i) = q \<and>
           args = Some (sl_args (rl_slots L' ! i)) \<and> sl_callback (rl_slots L' ! i) = cb \<and>
           sl_next_chunk (rl_slots L' ! i) = 0))"
  using assms(1)
proof (cases rule: submit_cases [where args = args and max_attempts = max_attempts
      and timeout = timeout and resend = resend and cb = cb])
  case refused
  then have L': "L' = L\<lparr>rl_immediate := TB_OUTCOME_TIMEOUT\<rparr>" "q = 0" using assms(2) by simp_all
  then show ?thesis by (simp add: pending_ex tb_requests_immediate_outcome_def)
next
  case (tried a i slot L1)
  obtain s' waits where r: "attempt_result L1 i = (s', waits)" by fastforce
  note t = submit_tried [OF assms(1) tried(3,4,5,6) r]
  note free = advance_sequence_free [of "rl_slots L" "rl_next_sequence L"]
  have len: "i < length (rl_slots L)" using assms(1) tried(3) by (simp add: requests_inv_def)
  have L': "L' = (fst (attempt L1 i))\<lparr>rl_submitting := False\<rparr>" using tried(7) assms(2) by simp
  have inv': "requests_inv L'" using submit_inv [OF assms(1)] assms(2) by (metis fst_conv)
  have slots: "rl_slots L' = (rl_slots L)[i := if waits then s' else s'\<lparr>sl_active := False\<rparr>]"
    using t(1) L' by simp
  have q: "q = (if waits then advance_sequence (rl_slots L) (rl_next_sequence L) else 0)"
    using tried(8) assms(2) t(1-3) len by (simp split: if_splits)
  have pend: "tb_requests_pending L' p \<longleftrightarrow> waits \<and> p = q \<or> tb_requests_pending L p" for p
    unfolding pending_update [OF assms(1) inv' slots tried(3)] pending_free_slot [OF tried(4)]
    using t(2,3) q by auto
  have others: "rl_slots L' ! j = rl_slots L ! j" if "sl_active (rl_slots L ! j)" for j
    using slots tried(4) that by (cases "j = i") simp_all
  have mine: "rl_slots L' ! i = (if waits then s' else s'\<lparr>sl_active := False\<rparr>)"
    using slots len by simp
  have fresh: "\<not> tb_requests_pending L (advance_sequence (rl_slots L) (rl_next_sequence L))"
    using pending_iff [OF assms(1)] free by simp
  show ?thesis
  proof (cases waits)
    case True
    have "\<exists>j<TB_REQUEST_SLOTS. sl_active (rl_slots L' ! j) \<and> sl_sequence (rl_slots L' ! j) = q \<and>
        args = Some (sl_args (rl_slots L' ! j)) \<and> sl_callback (rl_slots L' ! j) = cb \<and>
        sl_next_chunk (rl_slots L' ! j) = 0"
      using True t mine tried(1,3) q by (intro exI [of _ i]) simp
    then show ?thesis using True pend others fresh free q by simp
  next
    case False
    then show ?thesis using pend others q t(9) L'
      by (simp add: tb_requests_immediate_outcome_def)
  qed
qed

theorem submit_fresh_witness:
  "tb_requests_submit sample_layer (Some (request_args 1)) 8000 2 False (Some CB_SESSION) = (sample_pending, 1) \<and>
   \<not> tb_requests_pending sample_layer 1"
  using submit_fresh [OF sample_inv(1) sample_submit] sample_submit by simp

text \<open>
  C8. Chunks of a response reach the callback of their request in order and without loss: the
  deliveries for a list of received chunks follow that list, number \<open>k\<close> of the response being
  delivered \<open>k\<close>-th, and as long as the request is pending none of them is final. The request stops
  being pending with exactly one final delivery, which is the last one: the chunk that completes
  the response, or a protocol error at the first chunk that is not the one that is due.
\<close>

theorem chunks_in_order_final_once:
  assumes "requests_inv L" and "slots_find (rl_slots L) q = Some i"
    and "sl_callback (rl_slots L ! i) = Some cb" and "sl_next_chunk (rl_slots L ! i) = 0"
  shows "deliveries_ok cb q 0 (tb_requests_pending (fst (feed L q cs)) q) cs (snd (feed L q cs))"
  using feed_ok [OF assms(1-3), of cs] assms(4) by simp

definition sample_chunk :: "u16 \<Rightarrow> TbResponse" where
  "sample_chunk k = \<lparr>rs_outcome = TB_OUTCOME_TIMEOUT, rs_result = 0, rs_flags = 0, rs_retry_after = 0,
     rs_payload = None, rs_length = 0, rs_index = k, rs_total = 2, rs_final = False\<rparr>"

theorem chunks_in_order_final_once_witness:
  "deliveries_ok CB_SESSION 1 0
     (tb_requests_pending (fst (feed sample_pending 1 [sample_chunk 0, sample_chunk 1])) 1)
     [sample_chunk 0, sample_chunk 1] (snd (feed sample_pending 1 [sample_chunk 0, sample_chunk 1]))"
proof (rule chunks_in_order_final_once)
  show "requests_inv sample_pending" by (rule sample_inv)
  show "slots_find (rl_slots sample_pending) 1 = Some 0" by (simp add: slots_find_def sample_eval)
qed (simp_all add: sample_eval)




definition sample_overdue :: "u32 list TbRequestLayer" where
  "sample_overdue = sample_pending\<lparr>rl_ports := sample_ports\<lparr>rp_now := (\<lambda>x. 13000)\<rparr>\<rparr>"

lemma sample_overdue_inv: "requests_inv sample_overdue"
  using sample_inv(2) by (simp add: sample_overdue_def requests_inv_def)


end
