(* ===== verification/Clients.thy ===== *)
theory Clients
  imports Request_Facts Text
begin

text \<open>
  What the components that own a request have in common: the view ports (\<^verbatim>\<open>view_ports.h\<close>) and
  the contract \<open>request_client\<close>. A client remembers the sequence of its pending request and its
  callback ignores every delivery for another sequence and every cancellation, so that cancelling
  a request never reaches back into a client.
\<close>

section \<open>View ports\<close>

text \<open>The platform behind a view is a record of functions over a context of any type.\<close>

record 'v TbViewPorts =
  vp_changed :: "'v \<Rightarrow> 'v"
  vp_schedule :: "'v \<Rightarrow> u32 \<Rightarrow> bool \<times> 'v"
  vp_cancel :: "'v \<Rightarrow> 'v"
  vp_now :: "'v \<Rightarrow> u32"

section \<open>Responses\<close>

text \<open>A response whose length does not exceed its payload, as the inbox hands it over.\<close>

definition response_ok :: "TbResponse \<Rightarrow> bool" where
  "response_ok r \<longleftrightarrow> (case rs_payload r of None \<Rightarrow> True | Some d \<Rightarrow> unat (rs_length r) \<le> length d)"

lemma response_cursor [simp]: "response_ok r \<Longrightarrow> wf_cursor (tb_cursor_init (rs_payload r) (rs_length r))"
  by (cases "rs_payload r") (simp_all add: response_ok_def)

text \<open>
  \<open>tb_requests_cancel\<close> as a client calls it. The callback it runs is that of the request with this
  sequence, which ignores a cancellation (\<open>request_client.cancel_quiet\<close>).
\<close>

definition cancel_request :: "'x TbRequestLayer \<Rightarrow> u32 \<Rightarrow> 'x TbRequestLayer" where
  "cancel_request L q = fst (tb_requests_cancel L q)"

lemma cancel_request_inv [tb_inv]: "requests_inv L \<Longrightarrow> requests_inv (cancel_request L q)"
  by (simp add: cancel_request_def tb_inv)

lemma cancel_request_zero [simp]: "cancel_request L 0 = L"
  by (simp add: cancel_request_def tb_requests_cancel_def slots_find_def)

lemma cancel_delivers_cancelled:
  "snd (tb_requests_cancel L q) = Some (cb, q', r) \<Longrightarrow> rs_outcome r = TB_OUTCOME_CANCELLED"
  by (auto simp: tb_requests_cancel_def complete_def Let_def split: option.splits if_splits)

text \<open>Every layer that a client reaches by submitting and cancelling keeps the invariant.\<close>

lemma submit_pair_inv:
  "requests_inv L \<Longrightarrow> tb_requests_submit L args t m b cb = (L', q) \<Longrightarrow> requests_inv L'"
  by (metis fst_conv submit_inv)

section \<open>The client contract\<close>

locale request_client =
  fixes pending_of :: "'c \<Rightarrow> u32"
    and completed :: "u32 \<Rightarrow> TbResponse \<Rightarrow> 'x TbRequestLayer \<times> 'c \<Rightarrow> 'x TbRequestLayer \<times> 'c"
    and client_inv :: "'c \<Rightarrow> bool"
  assumes stale: "q \<noteq> pending_of c \<or> rs_outcome r = TB_OUTCOME_CANCELLED \<Longrightarrow> completed q r (L, c) = (L, c)"
    and keeps_layer: "requests_inv L \<Longrightarrow> requests_inv (fst (completed q r (L, c)))"
    and keeps_client: "requests_inv L \<Longrightarrow> client_inv c \<Longrightarrow> q \<noteq> 0 \<Longrightarrow> response_ok r \<Longrightarrow>
      client_inv (snd (completed q r (L, c)))"
begin

text \<open>Running the callback of a cancelled request changes nothing: it may be left out.\<close>

lemma cancel_quiet:
  "run_delivery (\<lambda>(cb, q, r). completed q r) (tb_requests_cancel L q) c = (cancel_request L q, c)"
  using cancel_delivers_cancelled [of L q] stale [of _ c]
  by (auto simp: run_delivery_def cancel_request_def split: prod.splits option.splits)

text \<open>
  A client survives every sequence of deliveries, in whatever order they come; no request has the
  sequence zero.
\<close>

lemma deliveries_inv:
  assumes "requests_inv L" and "client_inv c" and "\<forall>(q, r) \<in> set ds. q \<noteq> 0 \<and> response_ok r"
  shows "requests_inv (fst (fold (\<lambda>(q, r). completed q r) ds (L, c))) \<and>
     client_inv (snd (fold (\<lambda>(q, r). completed q r) ds (L, c)))"
  using assms
proof (induction ds arbitrary: L c)
  case (Cons d ds)
  obtain q r where d: "d = (q, r)" by (cases d)
  obtain L' c' where s: "completed q r (L, c) = (L', c')" by fastforce
  have "requests_inv L'" "client_inv c'"
    using keeps_layer [of L q r c] keeps_client [of L c q r] Cons.prems d s by auto
  then show ?case using Cons.IH Cons.prems(3) d s by simp
qed simp

end

section \<open>Deliveries\<close>

text \<open>
  A delivery that the layer makes is for a request, which never has the sequence zero, and carries a
  well-formed response when the chunk it hands on is one.
\<close>

definition delivery_ok :: "delivery option \<Rightarrow> bool" where
  "delivery_ok d \<longleftrightarrow> pred_option (\<lambda>(cb, q, r). q \<noteq> 0 \<and> response_ok r) d"

lemma delivery_ok_simps [simp]:
  "delivery_ok None" "delivery_ok (Some (cb, q, r)) \<longleftrightarrow> q \<noteq> 0 \<and> response_ok r"
  by (simp_all add: delivery_ok_def)

lemma delivery_okI [intro]: "q \<noteq> 0 \<Longrightarrow> response_ok r \<Longrightarrow> delivery_ok (map_option (\<lambda>cb. (cb, q, r)) callback)"
  by (cases callback) simp_all

lemma response_ok_empty [simp]: "rs_payload r = None \<Longrightarrow> response_ok r"
  by (simp add: response_ok_def)

lemma response_ok_delivered: "response_ok r \<Longrightarrow> response_ok (r\<lparr>rs_outcome := out, rs_final := fin\<rparr>)"
  by (cases "rs_payload r") (simp_all add: response_ok_def)

lemma complete_delivery_ok:
  assumes "requests_inv L" and "i < TB_REQUEST_SLOTS" and "sl_active (rl_slots L ! i)"
  shows "delivery_ok (snd (complete L i out res))"
proof -
  have "sl_sequence (rl_slots L ! i) \<noteq> 0" "\<not> rl_submitting L"
    using assms by (auto simp: requests_inv_def slot_ok_def)
  then show ?thesis by (auto simp: complete_delivery)
qed

lemma attempt_delivery_ok:
  assumes "requests_inv L" and "i < TB_REQUEST_SLOTS" and "sl_active (rl_slots L ! i)"
  shows "delivery_ok (snd (attempt L i))"
proof -
  have len: "i < length (rl_slots L)" "\<not> rl_submitting L" "sl_sequence (rl_slots L ! i) \<noteq> 0"
    using assms by (auto simp: requests_inv_def slot_ok_def)
  obtain slot waits where r: "attempt_result L i = (slot, waits)" by fastforce
  show ?thesis
  proof (cases waits)
    case True
    then show ?thesis using r by (auto simp: attempt_def attempt_result_def delivery_ok_def Let_def split: prod.splits)
  next
    case False
    then show ?thesis using attempt_gives_up(2) [of L i slot] r len by auto
  qed
qed

lemma attempt_update_delivery_ok:
  assumes "requests_inv L" and "i < TB_REQUEST_SLOTS" and "sl_active (rl_slots L ! i)"
  shows "delivery_ok (snd (attempt (set_slot L i ((rl_slots L ! i)\<lparr>sl_unreachable := b\<rparr>)) i))"
proof (rule attempt_delivery_ok)
  show "requests_inv (set_slot L i ((rl_slots L ! i)\<lparr>sl_unreachable := b\<rparr>))"
    by (rule requests_invI [OF assms(1)]) (use assms in \<open>auto simp: requests_inv_def slot_ok_def slot_waits_def\<close>)
qed (use assms in \<open>simp_all add: requests_inv_def\<close>)

lemma chunk_delivery_ok:
  assumes "requests_inv L" and "response_ok chunk"
  shows "delivery_ok (snd (snd (tb_requests_chunk L q chunk)))"
proof (cases "slots_find (rl_slots L) q")
  case None
  then show ?thesis by (simp add: chunk_unknown delivery_ok_def)
next
  case (Some i)
  note i = slots_find_Some [OF Some]
  have q: "q \<noteq> 0" using Some by (auto simp: slots_find_def split: if_splits)
  show ?thesis
  proof (cases "chunk_due (rl_slots L ! i) chunk")
    case True
    then show ?thesis using chunk_right [OF Some True] q delivery_okI [OF q response_ok_delivered [OF assms(2)]] by simp
  next
    case False
    then show ?thesis using chunk_wrong [OF Some False] complete_delivery_ok [OF assms(1)] i by simp
  qed
qed

lemma outbox_delivery_ok:
  assumes "requests_inv L"
  shows "delivery_ok (snd (tb_requests_outbox_ready L))" and "delivery_ok (snd (tb_requests_send_failed L q b))"
proof -
  show "delivery_ok (snd (tb_requests_outbox_ready L))"
  proof (cases "List.find (\<lambda>i. sl_active (rl_slots L ! i) \<and> sl_queued (rl_slots L ! i)) [0..<TB_REQUEST_SLOTS]")
    case (Some i)
    then show ?thesis
      using attempt_delivery_ok [OF assms] find_upt_SomeD(1,2) [OF Some] by (simp add: tb_requests_outbox_ready_def)
  qed (simp add: tb_requests_outbox_ready_def)
  show "delivery_ok (snd (tb_requests_send_failed L q b))"
    using attempt_update_delivery_ok [OF assms] slots_find_Some
    by (auto simp: tb_requests_send_failed_def split: option.split)
qed

text \<open>
  The callbacks of a whole program: they keep the layer and the state of all its clients. Then so do
  the loops of the layer that run them, and everything the transport reports.
\<close>

locale request_clients = request_dispatch dispatch
  for dispatch :: "delivery \<Rightarrow> 'x TbRequestLayer \<times> 's \<Rightarrow> 'x TbRequestLayer \<times> 's" +
  fixes clients_inv :: "'s \<Rightarrow> bool"
  assumes dispatch_clients: "requests_inv L \<Longrightarrow> clients_inv s \<Longrightarrow> q \<noteq> 0 \<Longrightarrow> response_ok r \<Longrightarrow>
    clients_inv (snd (dispatch (cb, q, r) (L, s)))"
begin

lemma run_delivery_keeps:
  assumes "requests_inv (fst d)" and "delivery_ok (snd d)" and "clients_inv s"
  shows "requests_inv (fst (run_delivery dispatch d s)) \<and> clients_inv (snd (run_delivery dispatch d s))"
proof (cases "snd d")
  case None
  then show ?thesis using assms by (cases d) (simp add: run_delivery_def)
next
  case (Some e)
  obtain cb q r where "e = (cb, q, r)" by (metis prod_cases3)
  then show ?thesis using Some assms dispatch_inv dispatch_clients
    by (cases d) (simp add: run_delivery_def)
qed

lemma tick_slot_keeps:
  assumes "requests_inv (fst p) \<and> clients_inv (snd p)" and "i < TB_REQUEST_SLOTS"
  shows "requests_inv (fst (tick_slot dispatch now i p)) \<and> clients_inv (snd (tick_slot dispatch now i p))"
proof -
  obtain L s where p: "p = (L, s)" by (cases p)
  have inv: "requests_inv L" "clients_inv s" using assms(1) by (simp_all add: p)
  show ?thesis
  proof (cases "sl_active (rl_slots L ! i)")
    case True
    note due = run_delivery_keeps [OF attempt_inv_update attempt_update_delivery_ok inv(2), OF inv(1) assms(2) True inv(1) assms(2) True]
    note over = run_delivery_keeps [OF complete_inv complete_delivery_ok inv(2), OF inv(1) assms(2) inv(1) assms(2) True]
    show ?thesis using inv due [of False] over [of TB_OUTCOME_TIMEOUT 0] by (simp add: p tick_slot_def Let_def)
  next
    case False
    then show ?thesis using inv by (simp add: p tick_slot_def)
  qed
qed

lemma tick_keeps:
  assumes "requests_inv (fst p)" and "clients_inv (snd p)"
  shows "requests_inv (fst (tb_requests_tick dispatch p)) \<and> clients_inv (snd (tb_requests_tick dispatch p))"
proof -
  have "requests_inv (fst (fold (tick_slot dispatch now) is p)) \<and> clients_inv (snd (fold (tick_slot dispatch now) is p))"
    if "set is \<subseteq> {0..<TB_REQUEST_SLOTS}" for now "is"
    using assms that by (induction "is" arbitrary: p) (simp_all add: tick_slot_keeps)
  from this [of "[0..<TB_REQUEST_SLOTS]"] show ?thesis
    using tick_inv [OF assms(1)] by (simp add: tb_requests_tick_def Let_def split_beta)
qed

end

section \<open>Sample platforms\<close>

text \<open>A heap that never fails and the ports the witnesses use.\<close>

definition grants_all :: "heap \<Rightarrow> bool" where
  "grants_all h \<longleftrightarrow> (\<forall>i n. grants h i n)"

definition sample_view_ports :: "nat TbViewPorts" where
  "sample_view_ports = \<lparr>vp_changed = Suc, vp_schedule = (\<lambda>v _. (True, v)), vp_cancel = (\<lambda>v. v), vp_now = (\<lambda>_. 0)\<rparr>"

definition sample_heap :: heap where
  "sample_heap = \<lparr>requests_made = 0, grants = \<lambda>_ _. True\<rparr>"

end
