(* ===== verification/Session.thy ===== *)
theory Session
  imports Clients
begin

text \<open>
  The session (\<^verbatim>\<open>session.h\<close>, \<^verbatim>\<open>session.c\<close>): the hello and bootstrap requests and the account
  list. The account array holds \<open>count\<close> live entries and is the list of them.
\<close>

section \<open>Data\<close>

abbreviation (input) TB_MAX_ACCOUNTS :: nat where "TB_MAX_ACCOUNTS \<equiv> 8"
abbreviation (input) TB_ACCOUNT_NAME_SIZE :: nat where "TB_ACCOUNT_NAME_SIZE \<equiv> 49"
abbreviation (input) TB_HOST_SIZE :: nat where "TB_HOST_SIZE \<equiv> 65"
abbreviation (input) TB_HELLO_TIMEOUT :: u32 where "TB_HELLO_TIMEOUT \<equiv> 1500"
abbreviation (input) TB_HELLO_ATTEMPTS :: u8 where "TB_HELLO_ATTEMPTS \<equiv> 3"
abbreviation (input) TB_BOOTSTRAP_TIMEOUT :: u32 where "TB_BOOTSTRAP_TIMEOUT \<equiv> 25000"
abbreviation (input) TB_BOOTSTRAP_ATTEMPTS :: u8 where "TB_BOOTSTRAP_ATTEMPTS \<equiv> 2"

datatype TbSessionPhase = TB_SESSION_IDLE | TB_SESSION_HELLO | TB_SESSION_BOOTSTRAP

record TbAccount =
  ac_id :: cstring
  ac_name :: cstring
  ac_state :: u8
  ac_flags :: u8

record 'v TbSessionPorts =
  sp_changed :: "'v \<Rightarrow> 'v"
  sp_extra :: "('v \<Rightarrow> u8 \<Rightarrow> bytes \<Rightarrow> u16 \<Rightarrow> 'v) option"

record 'v TbSession =
  se_ports :: "'v TbSessionPorts"
  se_context :: 'v
  se_phase :: TbSessionPhase
  se_pending :: u32
  se_error :: int
  se_retry_after :: u32
  se_loaded :: bool
  se_generation :: u32
  se_accounts :: "TbAccount list"
  se_default_account :: cstring
  se_chat_list :: u8
  se_show_archive :: bool
  se_unread_mode :: u8
  se_photo_mode :: u8
  se_host :: cstring
  se_failure :: "string option"

section \<open>Operations\<close>

definition session_changed :: "'v TbSession \<Rightarrow> 'v TbSession" where
  "session_changed s = s\<lparr>se_context := sp_changed (se_ports s) (se_context s)\<rparr>"

definition session_settle :: "'v TbSession \<Rightarrow> int \<Rightarrow> 'v TbSession" where
  "session_settle s error =
     session_changed (s\<lparr>se_phase := TB_SESSION_IDLE, se_pending := 0, se_error := error\<rparr>)"

definition session_submit ::
  "'x TbRequestLayer \<times> 'v TbSession \<Rightarrow> u8 \<Rightarrow> u32 \<Rightarrow> u8 \<Rightarrow> bool \<Rightarrow> 'x TbRequestLayer \<times> 'v TbSession" where
  "session_submit p kind timeout attempts resend =
     (case p of (L, s) \<Rightarrow>
        case tb_requests_submit L (Some (request_args kind)) timeout attempts resend (Some CB_SESSION) of
          (L1, q) \<Rightarrow>
            (let s1 = s\<lparr>se_pending := q\<rparr>
             in if q = 0 \<and> se_phase s1 \<noteq> TB_SESSION_IDLE
                then (L1, session_settle s1 (tb_error_submit_failed L1)) else (L1, s1)))"

definition session_bootstrap ::
  "'x TbRequestLayer \<times> 'v TbSession \<Rightarrow> 'x TbRequestLayer \<times> 'v TbSession" where
  "session_bootstrap p =
     (case p of (L, s) \<Rightarrow>
        (let L1 = (if se_pending s \<noteq> 0 then cancel_request L (se_pending s) else L);
             s1 = session_changed
               (s\<lparr>se_pending := 0, se_phase := TB_SESSION_BOOTSTRAP, se_error := TB_ERROR_NONE\<rparr>)
         in session_submit (L1, s1) TB_REQUEST_BOOTSTRAP TB_BOOTSTRAP_TIMEOUT TB_BOOTSTRAP_ATTEMPTS False))"

definition session_record :: "u8 \<Rightarrow> TbCursor \<Rightarrow> 'v TbSession \<Rightarrow> 'v TbSession \<times> bool option" where
  "session_record t body s =
     (if t = TB_RECORD_PREFS then
        (case tb_codec_prefs body of
           None \<Rightarrow> (s, Some False)
         | Some prefs \<Rightarrow>
             (let (ok, uid) = tb_copy_uuid (se_default_account s) TB_ACCOUNT_ID_SIZE (pfr_default_account prefs);
                  show_archive = (pfr_show_archive prefs \<noteq> 0)
              in (s\<lparr>se_default_account := (if ok then uid else []),
                    se_show_archive := show_archive,
                    se_chat_list := (if show_archive \<and> pfr_chat_list prefs = TB_LIST_ARCHIVE
                                     then TB_LIST_ARCHIVE else TB_LIST_MAIN),
                    se_unread_mode := (if pfr_unread_mode prefs = TB_UNREAD_MODE_MESSAGES
                                       then TB_UNREAD_MODE_MESSAGES else TB_UNREAD_MODE_CHATS),
                    se_photo_mode := (if pfr_photo_mode prefs = TB_PHOTO_MODE_MANUAL
                                      then TB_PHOTO_MODE_MANUAL else TB_PHOTO_MODE_AUTO),
                    se_host := tb_copy_span (se_host s) TB_HOST_SIZE (pfr_host prefs)\<rparr>, None)))
      else if t = TB_RECORD_ACCOUNT then
        (case tb_codec_account body of
           None \<Rightarrow> (s, Some False)
         | Some rec \<Rightarrow>
             if length (se_accounts s) \<ge> TB_MAX_ACCOUNTS then (s, None)
             else (case tb_copy_uuid [] TB_ACCOUNT_ID_SIZE (acr_id rec) of
                     (False, _) \<Rightarrow> (s, Some False)
                   | (True, uid) \<Rightarrow>
                       (s\<lparr>se_accounts := se_accounts s @
                          [\<lparr>ac_id = uid, ac_name = tb_copy_span [] TB_ACCOUNT_NAME_SIZE (acr_name rec),
                            ac_state = acr_state rec, ac_flags = acr_flags rec\<rparr>]\<rparr>, None)))
      else if t = TB_RECORD_PENDING_SEND then
        (case sp_extra (se_ports s) of
           None \<Rightarrow> (s, None)
         | Some extra \<Rightarrow>
             (s\<lparr>se_context := extra (se_context s) t (cur_data body) (cur_length body)\<rparr>, None))
      else (s, Some False))"

definition session_parse :: "'v TbSession \<Rightarrow> TbResponse \<Rightarrow> 'v TbSession \<times> bool" where
  "session_parse s r =
     (let s1 = (if rs_index r = 0
                then s\<lparr>se_accounts := [], se_default_account := [], se_host := [],
                       se_chat_list := TB_LIST_MAIN, se_show_archive := True,
                       se_unread_mode := TB_UNREAD_MODE_CHATS, se_photo_mode := TB_PHOTO_MODE_AUTO\<rparr>
                else s)
      in records_loop False True session_record (tb_cursor_init (rs_payload r) (rs_length r)) s1)"

definition session_completed ::
  "u32 \<Rightarrow> TbResponse \<Rightarrow> 'x TbRequestLayer \<times> 'v TbSession \<Rightarrow> 'x TbRequestLayer \<times> 'v TbSession" where
  "session_completed q r p =
     (case p of (L, s) \<Rightarrow>
        if q \<noteq> se_pending s \<or> rs_outcome r = TB_OUTCOME_CANCELLED then (L, s)
        else if se_phase s = TB_SESSION_HELLO then
          (let s1 = s\<lparr>se_pending := 0\<rparr>
           in if rs_outcome r = TB_OUTCOME_RESPONSE then session_bootstrap (L, s1)
              else (L, session_settle s1 (tb_error_from_response r)))
        else
          (let s1 = s\<lparr>se_failure := if rs_outcome r = TB_OUTCOME_PROTOCOL then Some ''chunk order'' else None\<rparr>
           in if rs_outcome r \<noteq> TB_OUTCOME_RESPONSE \<or> rs_result r \<noteq> TB_RESULT_OK then
                ((if \<not> rs_final r then cancel_request L q else L),
                 session_settle (s1\<lparr>se_retry_after := rs_retry_after r\<rparr>) (tb_error_from_response r))
              else
                (case session_parse s1 r of
                   (s2, False) \<Rightarrow>
                     (let s3 = (if \<not> rs_final r then s2\<lparr>se_pending := 0\<rparr> else s2);
                          L1 = (if \<not> rs_final r then cancel_request L q else L)
                      in (L1, session_settle (s3\<lparr>se_accounts := []\<rparr>) TB_RESULT_PROTOCOL_ERROR))
                 | (s2, True) \<Rightarrow>
                     (L, if rs_final r
                         then session_settle (s2\<lparr>se_loaded := True, se_generation := se_generation s2 + 1\<rparr>)
                                TB_ERROR_NONE
                         else s2))))"

definition tb_session_init :: "'v TbSessionPorts \<Rightarrow> 'v \<Rightarrow> 'v TbSession" where
  "tb_session_init ports context =
     \<lparr>se_ports = ports, se_context = context, se_phase = TB_SESSION_IDLE, se_pending = 0,
      se_error = 0, se_retry_after = 0, se_loaded = False, se_generation = 0, se_accounts = [],
      se_default_account = [], se_chat_list = 0, se_show_archive = False, se_unread_mode = 0,
      se_photo_mode = 0, se_host = [], se_failure = None\<rparr>"

definition tb_session_start ::
  "'x TbRequestLayer \<times> 'v TbSession \<Rightarrow> bool \<Rightarrow> 'x TbRequestLayer \<times> 'v TbSession" where
  "tb_session_start p transport_ready =
     (case p of (L, s) \<Rightarrow>
        (let L1 = (if se_pending s \<noteq> 0 then cancel_request L (se_pending s) else L);
             s1 = s\<lparr>se_pending := 0, se_loaded := False, se_accounts := []\<rparr>
         in if \<not> transport_ready then (L1, session_settle s1 TB_ERROR_NO_RESPONSE)
            else session_submit
                   (L1, session_changed (s1\<lparr>se_phase := TB_SESSION_HELLO, se_error := TB_ERROR_NONE\<rparr>))
                   TB_REQUEST_HELLO TB_HELLO_TIMEOUT TB_HELLO_ATTEMPTS True))"

definition tb_session_retry ::
  "'x TbRequestLayer \<times> 'v TbSession \<Rightarrow> 'x TbRequestLayer \<times> 'v TbSession" where
  "tb_session_retry p = (if se_phase (snd p) \<noteq> TB_SESSION_IDLE then p else tb_session_start p True)"

text \<open>
  The response that \<open>tb_session_ready\<close> feeds to the layer is for the session's own request, so the
  callback it runs is the session's own.
\<close>

definition tb_session_ready ::
  "'x TbRequestLayer \<times> 'v TbSession \<Rightarrow> u32 \<Rightarrow> 'x TbRequestLayer \<times> 'v TbSession" where
  "tb_session_ready p q =
     (case p of (L, s) \<Rightarrow>
        if se_phase s = TB_SESSION_HELLO \<and> q = se_pending s then
          (case tb_requests_response L q TB_RESULT_OK of
             (L1, _, d) \<Rightarrow> run_delivery (\<lambda>(cb, q', r). session_completed q' r) (L1, d) s)
        else if se_phase s = TB_SESSION_IDLE \<and> \<not> se_loaded s then session_bootstrap (L, s)
        else (L, s))"

definition tb_session_refresh ::
  "'x TbRequestLayer \<times> 'v TbSession \<Rightarrow> 'x TbRequestLayer \<times> 'v TbSession" where
  "tb_session_refresh p =
     (case p of (L, s) \<Rightarrow>
        if se_phase s = TB_SESSION_HELLO then (L, s)
        else session_bootstrap (L, s\<lparr>se_loaded := False, se_accounts := []\<rparr>))"

definition tb_session_stop ::
  "'x TbRequestLayer \<times> 'v TbSession \<Rightarrow> 'x TbRequestLayer \<times> 'v TbSession" where
  "tb_session_stop p =
     (case p of (L, s) \<Rightarrow>
        ((if se_pending s \<noteq> 0 then cancel_request L (se_pending s) else L),
         s\<lparr>se_pending := 0, se_phase := TB_SESSION_IDLE\<rparr>))"

definition tb_session_busy :: "'v TbSession \<Rightarrow> bool" where
  "tb_session_busy s \<longleftrightarrow> se_phase s \<noteq> TB_SESSION_IDLE"

definition tb_session_find :: "'v TbSession \<Rightarrow> cstring \<Rightarrow> int" where
  "tb_session_find s account =
     (case List.find (\<lambda>i. ac_id (se_accounts s ! i) = account) [0..<length (se_accounts s)] of
        None \<Rightarrow> - 1 | Some i \<Rightarrow> int i)"

definition tb_session_initial_account :: "'v TbSession \<Rightarrow> int" where
  "tb_session_initial_account s =
     (let i = tb_session_find s (se_default_account s)
      in if se_default_account s \<noteq> [] \<and> i \<ge> 0 \<and>
            ac_state (se_accounts s ! nat i) = TB_ACCOUNT_STATE_READY then i
         else if length (se_accounts s) = 1 \<and> ac_state (se_accounts s ! 0) = TB_ACCOUNT_STATE_READY then 0
         else - 1)"

section \<open>Invariant\<close>

text \<open>
  What the records keep: at most eight accounts with proper identifiers and names that fit their
  arrays, and preferences within their ranges.
\<close>

definition session_data_ok :: "'v TbSession \<Rightarrow> bool" where
  "session_data_ok s \<longleftrightarrow> length (se_accounts s) \<le> TB_MAX_ACCOUNTS \<and>
     (\<forall>a \<in> set (se_accounts s). length (ac_id a) = 36 \<and> 0 \<notin> set (ac_id a) \<and>
        length (ac_name a) < TB_ACCOUNT_NAME_SIZE) \<and>
     (se_default_account s = [] \<or> length (se_default_account s) = 36) \<and>
     length (se_host s) < TB_HOST_SIZE \<and>
     (se_chat_list s = TB_LIST_ARCHIVE \<longrightarrow> se_show_archive s) \<and>
     se_chat_list s \<in> {TB_LIST_MAIN, TB_LIST_ARCHIVE} \<and>
     se_unread_mode s \<in> {TB_UNREAD_MODE_CHATS, TB_UNREAD_MODE_MESSAGES} \<and>
     se_photo_mode s \<in> {TB_PHOTO_MODE_AUTO, TB_PHOTO_MODE_MANUAL}"

text \<open>
  A session is idle exactly when it waits for no request, and it is not loaded while it is busy.
\<close>

definition session_inv :: "'v TbSession \<Rightarrow> bool" where
  "session_inv s \<longleftrightarrow> session_data_ok s \<and> (se_phase s = TB_SESSION_IDLE \<longleftrightarrow> se_pending s = 0) \<and>
     (se_phase s \<noteq> TB_SESSION_IDLE \<longrightarrow> \<not> se_loaded s)"

lemma session_data_frame [simp]:
  "session_data_ok (s\<lparr>se_context := v\<rparr>) = session_data_ok s"
  "session_data_ok (s\<lparr>se_phase := ph\<rparr>) = session_data_ok s"
  "session_data_ok (s\<lparr>se_pending := q\<rparr>) = session_data_ok s"
  "session_data_ok (s\<lparr>se_error := e\<rparr>) = session_data_ok s"
  "session_data_ok (s\<lparr>se_retry_after := ra\<rparr>) = session_data_ok s"
  "session_data_ok (s\<lparr>se_loaded := b\<rparr>) = session_data_ok s"
  "session_data_ok (s\<lparr>se_generation := g\<rparr>) = session_data_ok s"
  "session_data_ok (s\<lparr>se_failure := f\<rparr>) = session_data_ok s"
  by (simp_all add: session_data_ok_def)

lemma session_data_no_accounts:
  "session_data_ok s \<Longrightarrow> session_data_ok (s\<lparr>se_accounts := []\<rparr>)"
  by (simp add: session_data_ok_def)

lemma session_changed_frame [simp]:
  "se_phase (session_changed s) = se_phase s" "se_pending (session_changed s) = se_pending s"
  "se_loaded (session_changed s) = se_loaded s" "session_data_ok (session_changed s) = session_data_ok s"
  "se_accounts (session_changed s) = se_accounts s" "se_error (session_changed s) = se_error s"
  by (simp_all add: session_changed_def)

lemma session_inv_data: "session_inv s \<Longrightarrow> session_data_ok s"
  by (simp add: session_inv_def)

lemma settle_inv: "session_data_ok s \<Longrightarrow> session_inv (session_settle s e)"
  by (simp add: session_settle_def session_inv_def)

lemma session_submit_inv:
  assumes "session_data_ok s" and "se_phase s \<noteq> TB_SESSION_IDLE" and "\<not> se_loaded s"
  shows "session_inv (snd (session_submit (L, s) kind t a b))"
  using assms by (auto simp: session_submit_def Let_def settle_inv split: prod.splits)
    (simp add: session_inv_def)

lemma session_submit_layer [tb_inv]:
  "requests_inv L \<Longrightarrow> requests_inv (fst (session_submit (L, s) kind t a b))"
  by (auto simp: session_submit_def Let_def dest: submit_pair_inv split: prod.splits)

lemma session_bootstrap_inv:
  assumes "session_data_ok s" and "\<not> se_loaded s"
  shows "session_inv (snd (session_bootstrap (L, s)))"
  using assms by (simp add: session_bootstrap_def Let_def session_submit_inv)

lemma session_bootstrap_layer [tb_inv]:
  "requests_inv L \<Longrightarrow> requests_inv (fst (session_bootstrap (L, s)))"
  by (simp add: session_bootstrap_def Let_def tb_inv)

text \<open>The handler of one record keeps the data within bounds, so a whole payload does.\<close>

lemma session_record_ok:
  assumes "session_data_ok s" and "wf_cursor body" and "session_record t body s = (s', r)"
  shows "session_data_ok s' \<and> se_phase s' = se_phase s \<and> se_pending s' = se_pending s \<and>
     se_loaded s' = se_loaded s"
proof -
  consider (prefs) "t = TB_RECORD_PREFS" | (account) "t = TB_RECORD_ACCOUNT" | (other) "t \<noteq> TB_RECORD_PREFS" "t \<noteq> TB_RECORD_ACCOUNT"
    by blast
  then show ?thesis
  proof cases
    case prefs
    show ?thesis
    proof (cases "tb_codec_prefs body")
      case (Some p)
      obtain ok uid where u: "tb_copy_uuid (se_default_account s) TB_ACCOUNT_ID_SIZE (pfr_default_account p) = (ok, uid)"
        by fastforce
      have "length uid = 36" if ok using copy_uuid_length [of _ _ _ uid] u prefs_spans(1) [OF assms(2) Some] that by simp
      moreover have "length (tb_copy_span (se_host s) TB_HOST_SIZE (pfr_host p)) < TB_HOST_SIZE"
        by (rule copy_span_fits) simp
      moreover have "s' = fst (session_record t body s)" using assms(3) by simp
      ultimately show ?thesis
        using assms(1) unfolding session_data_ok_def
        by (simp add: session_record_def prefs Some u Let_def)
    qed (use assms prefs in \<open>auto simp: session_record_def\<close>)
  next
    case account
    show ?thesis
    proof (cases "tb_codec_account body")
      case (Some a)
      obtain ok uid where u: "tb_copy_uuid [] TB_ACCOUNT_ID_SIZE (acr_id a) = (ok, uid)" by fastforce
      have "length uid = 36" if ok using copy_uuid_length [of _ _ _ uid] u account_spans(1) [OF assms(2) Some] that by simp
      moreover have "0 \<notin> set uid" if ok using u that by (auto simp: tb_copy_uuid_def split: if_splits)
      ultimately show ?thesis
        using assms(1,3) account Some u copy_span_fits [of TB_ACCOUNT_NAME_SIZE "[]" "acr_name a"]
        by (auto simp: session_record_def session_data_ok_def split: if_splits bool.splits)
    qed (use assms account in \<open>auto simp: session_record_def\<close>)
  next
    case other
    then show ?thesis using assms(1,3)
      by (auto simp: session_record_def split: if_splits option.splits)
  qed
qed

interpretation session_records: record_handler session_record
  "\<lambda>s. session_data_ok s \<and> se_phase s = ph \<and> se_pending s = q \<and> se_loaded s = b" for ph q b
  using session_record_ok by unfold_locales blast

lemma session_parse_ok:
  assumes "session_data_ok s" and "response_ok r" and "session_parse s r = (s', ok)"
  shows "session_data_ok s' \<and> se_phase s' = se_phase s \<and> se_pending s' = se_pending s \<and>
     se_loaded s' = se_loaded s"
proof -
  define s1 where "s1 = (if rs_index r = 0
      then s\<lparr>se_accounts := [], se_default_account := [], se_host := [], se_chat_list := TB_LIST_MAIN,
        se_show_archive := True, se_unread_mode := TB_UNREAD_MODE_CHATS, se_photo_mode := TB_PHOTO_MODE_AUTO\<rparr>
      else s)"
  have "session_data_ok s1 \<and> se_phase s1 = se_phase s \<and> se_pending s1 = se_pending s \<and> se_loaded s1 = se_loaded s"
    using assms(1) by (simp add: s1_def session_data_ok_def)
  then show ?thesis
    using session_records.loop_inv [OF response_cursor [OF assms(2)], of s1 "se_phase s" "se_pending s" "se_loaded s" False True]
      assms(3) by (simp add: session_parse_def Let_def flip: s1_def)
qed

lemma session_completed_inv:
  assumes inv: "session_inv s" and r: "response_ok r"
  shows "session_inv (snd (session_completed q r (L, s)))"
proof (cases "q \<noteq> se_pending s \<or> rs_outcome r = TB_OUTCOME_CANCELLED")
  case True
  then show ?thesis using inv by (auto simp: session_completed_def)
next
  case cur: False
  have data: "session_data_ok s" and idle: "se_phase s = TB_SESSION_IDLE \<longleftrightarrow> se_pending s = 0"
    and busy: "se_phase s \<noteq> TB_SESSION_IDLE \<Longrightarrow> \<not> se_loaded s" using inv by (auto simp: session_inv_def)
  define s1 where "s1 = s\<lparr>se_failure := if rs_outcome r = TB_OUTCOME_PROTOCOL then Some ''chunk order'' else None\<rparr>"
  obtain s2 ok where parse: "session_parse s1 r = (s2, ok)" by fastforce
  have p: "session_data_ok s2 \<and> se_phase s2 = se_phase s \<and> se_pending s2 = se_pending s \<and> se_loaded s2 = se_loaded s"
    using session_parse_ok [OF _ r parse] data by (simp add: s1_def)
  show ?thesis
  proof (cases "se_phase s = TB_SESSION_HELLO")
    case True
    then show ?thesis using cur data busy
      by (simp add: session_completed_def Let_def session_bootstrap_inv settle_inv)
  next
    case False
    have "session_data_ok s1" "session_inv s2" using data p inv by (simp_all add: s1_def session_inv_def)
    then show ?thesis
      using cur False p parse
      by (simp add: session_completed_def Let_def s1_def [symmetric] settle_inv session_data_no_accounts
          split: bool.splits)
  qed
qed

lemma session_completed_layer [tb_inv]:
  "requests_inv L \<Longrightarrow> requests_inv (fst (session_completed q r (L, s)))"
  by (auto simp: session_completed_def Let_def tb_inv split: prod.splits bool.splits)

interpretation session: request_client se_pending session_completed session_inv
  by unfold_locales (simp_all add: session_completed_inv tb_inv, auto simp: session_completed_def)

section \<open>Reachable sessions\<close>

lemma session_start_inv:
  "session_inv s \<Longrightarrow> session_inv (snd (tb_session_start (L, s) ready))"
  by (simp add: tb_session_start_def Let_def session_inv_def [of s] settle_inv session_submit_inv
      session_data_no_accounts)

lemma session_start_layer [tb_inv]:
  "requests_inv L \<Longrightarrow> requests_inv (fst (tb_session_start (L, s) ready))"
  by (simp add: tb_session_start_def Let_def tb_inv)

lemma session_inv_context [simp]: "session_inv (s\<lparr>se_context := v\<rparr>) = session_inv s"
  by (simp add: session_inv_def)

lemma session_inv_accounts:
  assumes "session_inv s" and "map ac_id xs = map ac_id (se_accounts s)" and "map ac_name xs = map ac_name (se_accounts s)"
  shows "session_inv (s\<lparr>se_accounts := xs\<rparr>)"
proof -
  have n: "length xs = length (se_accounts s)" using assms(2) by (metis length_map)
  have same: "ac_id (xs ! i) = ac_id (se_accounts s ! i) \<and> ac_name (xs ! i) = ac_name (se_accounts s ! i)" if "i < length xs" for i
    using that n assms(2,3) by (metis nth_map)
  have ok: "session_data_ok s" using assms(1) by (rule session_inv_data)
  then have "\<forall>a \<in> set xs. length (ac_id a) = 36 \<and> 0 \<notin> set (ac_id a) \<and> length (ac_name a) < TB_ACCOUNT_NAME_SIZE"
    unfolding all_set_conv_all_nth session_data_ok_def by (simp add: same n)
  then have "session_data_ok (s\<lparr>se_accounts := xs\<rparr>)" using ok n by (simp add: session_data_ok_def)
  then show ?thesis using assms(1) by (simp add: session_inv_def)
qed

text \<open>
  The program's use of the session: its operations and the deliveries of the request layer; \<^verbatim>\<open>main.c\<close> itself
  changes the states and flags of accounts. The last rule is the rest of the program and the platform: the
  layer and the context of the ports may be others.
\<close>

inductive session_step ::
  "'x TbRequestLayer \<times> 'v TbSession \<Rightarrow> 'x TbRequestLayer \<times> 'v TbSession \<Rightarrow> bool" where
  st_start: "session_step p (tb_session_start p ready)"
| st_retry: "session_step p (tb_session_retry p)"
| st_ready: "session_step p (tb_session_ready p q)"
| st_refresh: "session_step p (tb_session_refresh p)"
| st_stop: "session_step p (tb_session_stop p)"
| st_completed: "response_ok r \<Longrightarrow> session_step p (session_completed q r p)"
| st_accounts: "map ac_id xs = map ac_id (se_accounts s) \<Longrightarrow> map ac_name xs = map ac_name (se_accounts s) \<Longrightarrow>
    session_step (L, s) (L, s\<lparr>se_accounts := xs\<rparr>)"
| st_layer: "requests_inv L' \<Longrightarrow> session_step (L, s) (L', s\<lparr>se_context := v\<rparr>)"

lemma response_delivers:
  assumes "requests_inv L" and "tb_requests_response L q res = (L', b, d)"
  shows "requests_inv L'" and "d = Some (cb, q', r) \<Longrightarrow> response_ok r"
proof -
  show "requests_inv L'" using chunk_inv [OF assms(1)] assms(2) by (metis fst_conv tb_requests_response_def)
  assume d: "d = Some (cb, q', r)"
  show "response_ok r"
  proof (cases "slots_find (rl_slots L) q")
    case (Some i)
    let ?c = "\<lparr>rs_outcome = TB_OUTCOME_RESPONSE, rs_result = res, rs_flags = 0, rs_retry_after = 0,
        rs_payload = None, rs_length = 0, rs_index = 0, rs_total = 1, rs_final = False\<rparr>"
    have sub: "\<not> rl_submitting L" using assms(1) by (simp add: requests_inv_def)
    show ?thesis
      using assms(2) d chunk_right [OF Some, of ?c] chunk_wrong [OF Some, of ?c] complete_delivery [OF sub]
      by (cases "chunk_due (rl_slots L ! i) ?c") (auto simp: tb_requests_response_def response_ok_def)
  qed (use assms(2) d in \<open>simp add: tb_requests_response_def chunk_unknown\<close>)
qed

lemma session_ready_inv:
  assumes "requests_inv L" and "session_inv s"
  shows "requests_inv (fst (tb_session_ready (L, s) q)) \<and> session_inv (snd (tb_session_ready (L, s) q))"
proof -
  obtain L1 b d where r: "tb_requests_response L q TB_RESULT_OK = (L1, b, d)" by (metis prod_cases3)
  note del = response_delivers [OF assms(1) r]
  have "requests_inv (fst (run_delivery (\<lambda>(cb, q', r). session_completed q' r) (L1, d) s)) \<and>
      session_inv (snd (run_delivery (\<lambda>(cb, q', r). session_completed q' r) (L1, d) s))"
    using del assms(2) session_completed_inv session_completed_layer
    by (cases d) (auto simp: run_delivery_def)
  then show ?thesis
    using assms session_bootstrap_inv [of s L] session_bootstrap_layer [of L s] r
    by (auto simp: tb_session_ready_def session_inv_def [of s])
qed

lemma session_step_inv:
  assumes "session_step p p'" and "requests_inv (fst p)" and "session_inv (snd p)"
  shows "requests_inv (fst p') \<and> session_inv (snd p')"
  using assms
proof (induction rule: session_step.induct)
  case (st_start p ready)
  then show ?case by (cases p) (simp add: session_start_inv tb_inv)
next
  case (st_retry p)
  then show ?case by (cases p) (simp add: tb_session_retry_def session_start_inv tb_inv)
next
  case (st_ready p q)
  then show ?case by (cases p) (simp add: session_ready_inv)
next
  case (st_refresh p)
  then show ?case
    by (cases p) (simp add: tb_session_refresh_def tb_inv session_bootstrap_inv session_data_no_accounts
        session_inv_data)
next
  case (st_stop p)
  then show ?case by (cases p) (simp add: tb_session_stop_def tb_inv session_inv_def)
next
  case (st_completed r p q)
  then show ?case by (cases p) (simp add: session_completed_inv tb_inv)
next
  case (st_accounts xs s L)
  then show ?case by (simp add: session_inv_accounts)
qed simp

lemma session_init_inv: "session_inv (tb_session_init ports context)"
  by (simp add: tb_session_init_def session_inv_def session_data_ok_def)

lemma session_steps_inv:
  "session_step\<^sup>*\<^sup>* p p' \<Longrightarrow> requests_inv (fst p) \<Longrightarrow> session_inv (snd p) \<Longrightarrow>
   requests_inv (fst p') \<and> session_inv (snd p')"
  by (induction rule: rtranclp_induct) (auto dest: session_step_inv)

section \<open>Properties\<close>

text \<open>
  C11. However the session is started, refreshed, stopped and answered, it is idle exactly when no
  request of its own is pending, it never counts as loaded while it is busy, it holds at most
  eight accounts with 36-character identifiers and names that fit their arrays, and its
  preferences stay in their ranges: the archive is only selected when it is shown.
\<close>

theorem session_reachable_inv:
  assumes "requests_inv L" and "session_step\<^sup>*\<^sup>* (L, tb_session_init ports context) (L', s)"
  shows "(tb_session_busy s \<longleftrightarrow> se_pending s \<noteq> 0) \<and> (tb_session_busy s \<longrightarrow> \<not> se_loaded s) \<and>
     length (se_accounts s) \<le> TB_MAX_ACCOUNTS \<and>
     (\<forall>a \<in> set (se_accounts s). length (ac_id a) = 36 \<and> length (ac_name a) < TB_ACCOUNT_NAME_SIZE) \<and>
     (se_chat_list s = TB_LIST_ARCHIVE \<longrightarrow> se_show_archive s)"
proof -
  have inv: "session_inv s" using session_steps_inv [OF assms(2)] assms(1) session_init_inv [of ports] by simp
  then have data: "session_data_ok s" by (rule session_inv_data)
  then have "se_chat_list s = TB_LIST_ARCHIVE \<longrightarrow> se_show_archive s" by (simp add: session_data_ok_def)
  with inv data show ?thesis unfolding session_inv_def session_data_ok_def tb_session_busy_def by simp
qed

definition sample_session_ports :: "nat TbSessionPorts" where
  "sample_session_ports = \<lparr>sp_changed = Suc, sp_extra = None\<rparr>"

theorem session_reachable_inv_witness:
  "tb_session_busy (snd (tb_session_start (sample_layer, tb_session_init sample_session_ports 0) True)) \<longleftrightarrow>
   se_pending (snd (tb_session_start (sample_layer, tb_session_init sample_session_ports 0) True)) \<noteq> 0"
proof -
  let ?p = "(sample_layer, tb_session_init sample_session_ports 0)"
  have "session_step\<^sup>*\<^sup>* ?p (fst (tb_session_start ?p True), snd (tb_session_start ?p True))"
    by (rule r_into_rtranclp) (simp add: st_start)
  from session_reachable_inv [OF sample_inv(1) this] show ?thesis by (rule conjunct1)
qed

text \<open>
  The account opened at start is the stored default when it is still listed and ready,
  otherwise the only account when it is ready; no account is opened in any other case.
\<close>

lemma initial_account_choice:
  "tb_session_initial_account s =
     (if se_default_account s \<noteq> [] \<and>
         (\<exists>i<length (se_accounts s). ac_id (se_accounts s ! i) = se_default_account s \<and>
            (\<forall>j<i. ac_id (se_accounts s ! j) \<noteq> se_default_account s) \<and> ac_state (se_accounts s ! i) = TB_ACCOUNT_STATE_READY)
      then int (LEAST i. ac_id (se_accounts s ! i) = se_default_account s)
      else if (\<exists>a. se_accounts s = [a] \<and> ac_state a = TB_ACCOUNT_STATE_READY) then 0 else - 1)"
proof -
  let ?P = "\<lambda>i. ac_id (se_accounts s ! i) = se_default_account s"
  have one: "(length (se_accounts s) = 1 \<and> ac_state (se_accounts s ! 0) = TB_ACCOUNT_STATE_READY) \<longleftrightarrow>
      (\<exists>a. se_accounts s = [a] \<and> ac_state a = TB_ACCOUNT_STATE_READY)"
    by (cases "se_accounts s") auto
  show ?thesis
  proof (cases "List.find ?P [0..<length (se_accounts s)]")
    case None
    then have "\<forall>i<length (se_accounts s). \<not> ?P i" by (simp add: find_upt_None_iff)
    then show ?thesis using None one by (auto simp: tb_session_initial_account_def tb_session_find_def)
  next
    case (Some k)
    note k = find_upt_SomeD [OF Some]
    have least: "(LEAST i. ?P i) = k"
      by (rule Least_equality) (use k in \<open>auto simp: not_less [symmetric]\<close>)
    have ex: "(\<exists>i<length (se_accounts s). ?P i \<and> (\<forall>j<i. \<not> ?P j) \<and> ac_state (se_accounts s ! i) = TB_ACCOUNT_STATE_READY) \<longleftrightarrow>
        ac_state (se_accounts s ! k) = TB_ACCOUNT_STATE_READY"
      using k by (metis nat_neq_iff)
    show ?thesis
      using Some one unfolding least ex
      by (auto simp: tb_session_initial_account_def tb_session_find_def)
  qed
qed

end
