(* ===== verification/Connection.thy ===== *)
theory Connection
  imports Clients
begin

text \<open>
  The connection state of the open account (\<^verbatim>\<open>connection.h\<close>, \<^verbatim>\<open>connection.c\<close>): polling with a
  bounded window while Telegram connects or updates.
\<close>

section \<open>Data\<close>

abbreviation (input) TB_CONNECTING_INTERVAL :: u32 where "TB_CONNECTING_INTERVAL \<equiv> 2000"
abbreviation (input) TB_CONNECTING_LIMIT :: u32 where "TB_CONNECTING_LIMIT \<equiv> 14000"
abbreviation (input) TB_UPDATING_INTERVAL :: u32 where "TB_UPDATING_INTERVAL \<equiv> 2500"
abbreviation (input) TB_UPDATING_STEP :: u32 where "TB_UPDATING_STEP \<equiv> 250"
abbreviation (input) TB_UPDATING_LIMIT :: u32 where "TB_UPDATING_LIMIT \<equiv> 20000"

datatype TbConnectionError =
  TB_CONNECTION_ERROR_NONE | TB_CONNECTION_ERROR_CANNOT_CONNECT | TB_CONNECTION_ERROR_LONG_UPDATE

record 'v TbConnectionPorts =
  cp_changed :: "'v \<Rightarrow> 'v"
  cp_reload :: "'v \<Rightarrow> 'v"
  cp_schedule :: "'v \<Rightarrow> u32 \<Rightarrow> bool \<times> 'v"
  cp_cancel :: "'v \<Rightarrow> 'v"
  cp_now :: "'v \<Rightarrow> u32"
  cp_records :: "('v \<Rightarrow> bytes \<Rightarrow> u16 \<Rightarrow> 'v) option"

record 'v TbConnection =
  co_ports :: "'v TbConnectionPorts"
  co_context :: 'v
  co_timeout :: u32
  co_account :: cstring
  co_state :: u8
  co_known :: bool
  co_proxy :: bool
  co_fresh :: bool
  co_active :: bool
  co_polling :: bool
  co_error :: TbConnectionError
  co_pending :: u32
  co_window :: u32
  co_delay :: u32
  co_polls :: u8

section \<open>Operations\<close>

definition connection_changed :: "'v TbConnection \<Rightarrow> 'v TbConnection" where
  "connection_changed c = c\<lparr>co_context := cp_changed (co_ports c) (co_context c)\<rparr>"

definition limit_of :: "u8 \<Rightarrow> u32" where
  "limit_of state = (if state = TB_CONNECTION_UPDATING then TB_UPDATING_LIMIT else TB_CONNECTING_LIMIT)"

definition delay_of :: "u8 \<Rightarrow> u8 \<Rightarrow> u32" where
  "delay_of state polls =
     (if state = TB_CONNECTION_UPDATING then TB_UPDATING_INTERVAL + ucast polls * TB_UPDATING_STEP
      else TB_CONNECTING_INTERVAL)"

definition connection_cancel :: "'v TbConnection \<Rightarrow> 'v TbConnection" where
  "connection_cancel c = c\<lparr>co_context := cp_cancel (co_ports c) (co_context c)\<rparr>"

definition connection_arm :: "'v TbConnection \<Rightarrow> 'v TbConnection" where
  "connection_arm c =
     (let c1 = connection_cancel c
      in if \<not> co_polling c1 \<or> \<not> co_active c1 \<or> co_pending c1 \<noteq> 0 then c1
         else if co_window c1 + co_delay c1 > limit_of (co_state c1) then
           connection_changed (c1\<lparr>co_polling := False,
             co_error := (if co_state c1 = TB_CONNECTION_UPDATING then TB_CONNECTION_ERROR_LONG_UPDATE
                          else TB_CONNECTION_ERROR_CANNOT_CONNECT)\<rparr>)
         else c1\<lparr>co_context := snd (cp_schedule (co_ports c1) (co_context c1) (co_delay c1))\<rparr>)"

definition connection_enter :: "'v TbConnection \<Rightarrow> u8 \<Rightarrow> 'v TbConnection" where
  "connection_enter c state =
     connection_arm (c\<lparr>co_state := state, co_known := True, co_fresh := False,
       co_error := TB_CONNECTION_ERROR_NONE, co_window := 0, co_polls := 0,
       co_polling := (state \<noteq> TB_CONNECTION_READY), co_delay := delay_of state 0\<rparr>)"

definition connection_proceed :: "'v TbConnection \<Rightarrow> 'v TbConnection" where
  "connection_proceed c = connection_arm (c\<lparr>co_delay := delay_of (co_state c) (co_polls c)\<rparr>)"

definition connection_apply :: "'v TbConnection \<Rightarrow> u8 \<Rightarrow> bool \<Rightarrow> bool \<Rightarrow> 'v TbConnection" where
  "connection_apply c state0 proxy polled =
     (let state = (if state0 > TB_CONNECTION_READY then TB_CONNECTION_CONNECTING else state0);
          c1 = c\<lparr>co_proxy := proxy\<rparr>
      in if co_known c1 \<and> \<not> co_fresh c1 \<and> state = co_state c1 then
           connection_changed (if polled \<and> co_polling c1 then connection_proceed c1 else c1)
         else
           (let arrived = (polled \<and> co_known c1 \<and> co_state c1 \<noteq> TB_CONNECTION_READY \<and>
                           state = TB_CONNECTION_READY);
                c2 = connection_changed (connection_enter c1 state)
            in if arrived then c2\<lparr>co_context := cp_reload (co_ports c2) (co_context c2)\<rparr> else c2))"

text \<open>The first record of a poll response, when it is a well-formed status, and the cursor behind it.\<close>

definition status_record :: "TbResponse \<Rightarrow> (TbStatusRecord \<times> TbCursor) option" where
  "status_record r =
     (case tb_codec_next (tb_cursor_init (rs_payload r) (rs_length r)) of
        None \<Rightarrow> None
      | Some (t, body, cursor) \<Rightarrow>
          if t = TB_RECORD_STATUS then map_option (\<lambda>st. (st, cursor)) (tb_codec_status body) else None)"

definition connection_records :: "'v TbConnection \<Rightarrow> TbResponse \<Rightarrow> TbCursor \<Rightarrow> 'v TbConnection" where
  "connection_records c r cursor =
     (case (cp_records (co_ports c), rs_payload r) of
        (Some records, Some payload) \<Rightarrow>
          if cur_offset cursor < cur_length cursor
          then c\<lparr>co_context := records (co_context c) (drop (unat (cur_offset cursor)) payload)
                  (cur_length cursor - cur_offset cursor)\<rparr>
          else c
      | _ \<Rightarrow> c)"

definition connection_completed ::
  "u32 \<Rightarrow> TbResponse \<Rightarrow> 'x TbRequestLayer \<times> 'v TbConnection \<Rightarrow> 'x TbRequestLayer \<times> 'v TbConnection" where
  "connection_completed q r p =
     (case p of (L, c) \<Rightarrow>
        if q \<noteq> co_pending c \<or> rs_outcome r = TB_OUTCOME_CANCELLED then (L, c)
        else
          (let c1 = c\<lparr>co_pending := 0\<rparr>
           in case (if rs_outcome r = TB_OUTCOME_RESPONSE \<and> rs_result r = TB_RESULT_OK
                    then status_record r else None) of
                Some (st, cursor) \<Rightarrow>
                  (L, connection_apply (connection_records c1 r cursor) (str_connection st)
                        (str_proxy st \<noteq> 0) True)
              | None \<Rightarrow>
                  ((if \<not> rs_final r then cancel_request L q else L),
                   if co_polling c1 then connection_proceed c1 else c1)))"

definition tb_connection_init :: "'v TbConnectionPorts \<Rightarrow> 'v \<Rightarrow> u32 \<Rightarrow> 'v TbConnection" where
  "tb_connection_init ports context timeout =
     \<lparr>co_ports = ports, co_context = context, co_timeout = timeout, co_account = [],
      co_state = TB_CONNECTION_CONNECTING, co_known = False, co_proxy = False, co_fresh = False,
      co_active = False, co_polling = False, co_error = TB_CONNECTION_ERROR_NONE, co_pending = 0,
      co_window = 0, co_delay = 0, co_polls = 0\<rparr>"

definition tb_connection_close ::
  "'x TbRequestLayer \<times> 'v TbConnection \<Rightarrow> 'x TbRequestLayer \<times> 'v TbConnection" where
  "tb_connection_close p =
     (case p of (L, c) \<Rightarrow>
        ((if co_pending c \<noteq> 0 then cancel_request L (co_pending c) else L),
         (connection_cancel (c\<lparr>co_pending := 0\<rparr>))
           \<lparr>co_account := [], co_state := TB_CONNECTION_CONNECTING, co_known := False,
            co_proxy := False, co_fresh := False, co_active := False, co_polling := False,
            co_error := TB_CONNECTION_ERROR_NONE, co_window := 0, co_delay := 0, co_polls := 0\<rparr>))"

definition tb_connection_open ::
  "'x TbRequestLayer \<times> 'v TbConnection \<Rightarrow> cstring \<Rightarrow> 'x TbRequestLayer \<times> 'v TbConnection" where
  "tb_connection_open p account =
     (let active = co_active (snd p); (L, c) = tb_connection_close p
      in (L, c\<lparr>co_account := strncpy TB_ACCOUNT_ID_SIZE account, co_active := active\<rparr>))"

definition tb_connection_summary :: "'v TbConnection \<Rightarrow> u8 \<Rightarrow> bool \<Rightarrow> 'v TbConnection" where
  "tb_connection_summary c state proxy =
     (if co_account c = [] then c else connection_apply c state proxy False)"

definition tb_connection_refresh ::
  "'x TbRequestLayer \<times> 'v TbConnection \<Rightarrow> 'x TbRequestLayer \<times> 'v TbConnection" where
  "tb_connection_refresh p =
     (case p of (L, c) \<Rightarrow>
        if co_account c = [] then (L, c)
        else
          ((if co_pending c \<noteq> 0 then cancel_request L (co_pending c) else L),
           connection_changed ((connection_cancel (c\<lparr>co_pending := 0\<rparr>))
             \<lparr>co_fresh := True, co_polling := False, co_error := TB_CONNECTION_ERROR_NONE\<rparr>)))"

definition tb_connection_set_active :: "'v TbConnection \<Rightarrow> bool \<Rightarrow> 'v TbConnection" where
  "tb_connection_set_active c active =
     (let c1 = c\<lparr>co_active := active\<rparr>
      in if \<not> active then connection_cancel c1 else connection_arm c1)"

definition tb_connection_timer ::
  "'x TbRequestLayer \<times> 'v TbConnection \<Rightarrow> 'x TbRequestLayer \<times> 'v TbConnection" where
  "tb_connection_timer p =
     (case p of (L, c) \<Rightarrow>
        if \<not> co_polling c \<or> \<not> co_active c \<or> co_pending c \<noteq> 0 \<or> co_account c = [] then (L, c)
        else
          (let c1 = c\<lparr>co_window := co_window c + co_delay c, co_polls := co_polls c + 1\<rparr>;
               args = (request_args TB_REQUEST_EVENTS)
                 \<lparr>ra_account := strncpy TB_ACCOUNT_ID_SIZE (co_account c1)\<rparr>
           in case tb_requests_submit L (Some args) (co_timeout c1) 1 False (Some CB_CONNECTION) of
                (L1, q) \<Rightarrow>
                  (L1, if q = 0 then connection_proceed (c1\<lparr>co_pending := q\<rparr>) else c1\<lparr>co_pending := q\<rparr>)))"

section \<open>Invariant\<close>

text \<open>The time the polls made so far have waited.\<close>

definition poll_time :: "u8 \<Rightarrow> nat \<Rightarrow> nat" where
  "poll_time state n = (if state = TB_CONNECTION_UPDATING then 2375 * n + 125 * n * n else 2000 * n)"

lemma poll_time_0 [simp]: "poll_time state 0 = 0"
  by (simp add: poll_time_def)

lemma unat_limit_of: "unat (limit_of state) = (if state = TB_CONNECTION_UPDATING then 20000 else 14000)"
  by (simp add: limit_of_def)

lemma unat_delay_of:
  "unat (delay_of state polls) = (if state = TB_CONNECTION_UPDATING then 2500 + unat polls * 250 else 2000)"
proof -
  have p: "unat (ucast polls :: u32) = unat polls"
    by (simp add: unsigned_ucast_eq take_bit_nat_eq_self_iff less_trans [OF unat_u8_less])
  have small: "unat polls * 250 < 4294967296" using unat_u8_less [of polls] by linarith
  have m: "unat (ucast polls * 250 :: u32) = unat polls * 250"
    using small p by (simp add: unat_word_ariths)
  show ?thesis using unat_plus_no_wrap [of 2500 "ucast polls * 250 :: u32"] m unat_u8_less [of polls]
    by (simp add: delay_of_def)
qed

lemma poll_time_Suc:
  "poll_time state (unat polls + 1) = poll_time state (unat polls) + unat (delay_of state polls)"
  by (simp add: poll_time_def unat_delay_of algebra_simps)

definition connection_inv :: "'v TbConnection \<Rightarrow> bool" where
  "connection_inv c \<longleftrightarrow>
     unat (co_window c) = poll_time (co_state c) (unat (co_polls c)) \<and>
     co_window c \<le> limit_of (co_state c) \<and>
     (co_polling c \<and> co_pending c = 0 \<longrightarrow> co_delay c = delay_of (co_state c) (co_polls c)) \<and>
     (co_error c \<noteq> TB_CONNECTION_ERROR_NONE \<longrightarrow> \<not> co_polling c) \<and>
     (co_polling c \<longrightarrow> co_state c \<noteq> TB_CONNECTION_READY)"

text \<open>A poll may go out: the next wait still fits the window.\<close>

definition poll_fits :: "'v TbConnection \<Rightarrow> bool" where
  "poll_fits c \<longleftrightarrow> co_polling c \<and> co_active c \<and> co_pending c = 0 \<and>
     co_window c + co_delay c \<le> limit_of (co_state c)"

text \<open>
  A timer platform: \<open>armed\<close> reads from the context whether the timer is running. Only scheduling
  starts it, cancelling stops it, and the other ports leave it alone.
\<close>

definition timer_laws :: "'v TbConnectionPorts \<Rightarrow> ('v \<Rightarrow> bool) \<Rightarrow> bool" where
  "timer_laws ports armed \<longleftrightarrow> (\<forall>v. \<not> armed (cp_cancel ports v)) \<and>
     (\<forall>v. armed (cp_changed ports v) = armed v) \<and> (\<forall>v. armed (cp_reload ports v) = armed v) \<and>
     (\<forall>f v d n. cp_records ports = Some f \<longrightarrow> armed (f v d n) = armed v)"

definition connection_ok :: "('v \<Rightarrow> bool) \<Rightarrow> 'v TbConnection \<Rightarrow> bool" where
  "connection_ok armed c \<longleftrightarrow> connection_inv c \<and> timer_laws (co_ports c) armed \<and>
     (armed (co_context c) \<longrightarrow> poll_fits c)"

lemma connection_changed_frame [simp]:
  "connection_inv (connection_changed c) = connection_inv c" "poll_fits (connection_changed c) = poll_fits c"
  "co_ports (connection_changed c) = co_ports c"
  by (simp_all add: connection_changed_def connection_inv_def poll_fits_def)

lemma connection_cancel_frame [simp]:
  "connection_inv (connection_cancel c) = connection_inv c" "poll_fits (connection_cancel c) = poll_fits c"
  "co_ports (connection_cancel c) = co_ports c" "co_polling (connection_cancel c) = co_polling c"
  "co_active (connection_cancel c) = co_active c" "co_pending (connection_cancel c) = co_pending c"
  "co_window (connection_cancel c) = co_window c" "co_delay (connection_cancel c) = co_delay c"
  "co_state (connection_cancel c) = co_state c" "co_polls (connection_cancel c) = co_polls c"
  "co_error (connection_cancel c) = co_error c"
  by (simp_all add: connection_cancel_def connection_inv_def poll_fits_def)

lemma connection_context_frame [simp]:
  "connection_inv (c\<lparr>co_context := v\<rparr>) = connection_inv c"
  "poll_fits (c\<lparr>co_context := v\<rparr>) = poll_fits c"
  by (simp_all add: connection_inv_def poll_fits_def)

lemma connection_proxy_frame [simp]:
  "connection_inv (c\<lparr>co_proxy := proxy\<rparr>) = connection_inv c"
  "poll_fits (c\<lparr>co_proxy := proxy\<rparr>) = poll_fits c"
  by (simp_all add: connection_inv_def poll_fits_def)

lemma changed_ok: "connection_ok armed c \<Longrightarrow> connection_ok armed (connection_changed c)"
  by (simp add: connection_ok_def) (simp add: connection_changed_def timer_laws_def)

lemma cancel_ok:
  "connection_inv c \<Longrightarrow> timer_laws (co_ports c) armed \<Longrightarrow> connection_ok armed (connection_cancel c)"
  by (simp add: connection_ok_def) (simp add: connection_cancel_def timer_laws_def)

lemma arm_ok:
  assumes inv: "connection_inv c" and laws: "timer_laws (co_ports c) armed"
  shows "connection_ok armed (connection_arm c)"
proof -
  let ?c = "connection_cancel c"
  consider (idle) "\<not> co_polling c \<or> \<not> co_active c \<or> co_pending c \<noteq> 0"
    | (over) "co_polling c" "co_active c" "co_pending c = 0" "co_window c + co_delay c > limit_of (co_state c)"
    | (fits) "co_polling c" "co_active c" "co_pending c = 0" "\<not> co_window c + co_delay c > limit_of (co_state c)"
    by blast
  then show ?thesis
  proof cases
    case idle
    then show ?thesis using cancel_ok [OF inv laws] by (auto simp: connection_arm_def)
  next
    case over
    let ?e = "?c\<lparr>co_polling := False, co_error := (if co_state c = TB_CONNECTION_UPDATING
        then TB_CONNECTION_ERROR_LONG_UPDATE else TB_CONNECTION_ERROR_CANNOT_CONNECT)\<rparr>"
    have "connection_inv ?e" using inv by (simp add: connection_inv_def)
    moreover have "\<not> armed (co_context ?e)" using laws by (simp add: timer_laws_def connection_cancel_def)
    ultimately have "connection_ok armed ?e" using laws by (simp add: connection_ok_def)
    then show ?thesis using over changed_ok [of armed ?e] by (auto simp: connection_arm_def split: if_splits)
  next
    case fits
    then show ?thesis using inv laws
      by (simp add: connection_arm_def Let_def connection_ok_def) (simp add: connection_inv_def poll_fits_def not_less)
  qed
qed

lemma enter_ok:
  assumes "timer_laws (co_ports c) armed"
  shows "connection_ok armed (connection_enter c state)"
  unfolding connection_enter_def
  by (rule arm_ok) (use assms in \<open>simp_all add: connection_inv_def\<close>)

lemma proceed_ok:
  assumes "connection_inv c \<or> connection_inv (c\<lparr>co_delay := d\<rparr>)" and "timer_laws (co_ports c) armed"
  shows "connection_ok armed (connection_proceed c)"
  unfolding connection_proceed_def
  by (rule arm_ok) (use assms in \<open>auto simp: connection_inv_def\<close>)

text \<open>After an answer the delay may be stale: everything but the delay is as it should be.\<close>

definition connection_answered :: "'v TbConnection \<Rightarrow> bool" where
  "connection_answered c \<longleftrightarrow> connection_inv (c\<lparr>co_delay := delay_of (co_state c) (co_polls c)\<rparr>)"

lemma answered_inv: "connection_inv c \<Longrightarrow> connection_answered (c\<lparr>co_pending := q\<rparr>)"
  by (simp add: connection_answered_def connection_inv_def)

lemma answered_proceed:
  "connection_answered c \<Longrightarrow> timer_laws (co_ports c) armed \<Longrightarrow> connection_ok armed (connection_proceed c)"
  using proceed_ok [of c "delay_of (co_state c) (co_polls c)"] by (simp add: connection_answered_def)

lemma answered_stopped:
  "connection_answered c \<Longrightarrow> \<not> co_polling c \<Longrightarrow> connection_inv c"
  by (simp add: connection_answered_def connection_inv_def)

lemma apply_polled_ok:
  assumes a: "connection_answered c" and laws: "timer_laws (co_ports c) armed"
    and quiet: "armed (co_context c) \<longrightarrow> co_polling c"
  shows "connection_ok armed (connection_apply c state proxy True)"
proof -
  define st where "st = (if state > TB_CONNECTION_READY then TB_CONNECTION_CONNECTING else state)"
  define c1 where "c1 = c\<lparr>co_proxy := proxy\<rparr>"
  have a1: "connection_answered c1" and laws1: "timer_laws (co_ports c1) armed"
    and quiet1: "armed (co_context c1) \<longrightarrow> co_polling c1"
    using a laws quiet by (simp_all add: c1_def connection_answered_def connection_inv_def)
  have same: "connection_ok armed (if co_polling c1 then connection_proceed c1 else c1)"
    using answered_proceed [OF a1 laws1] answered_stopped [OF a1] laws1 quiet1
    by (auto simp: connection_ok_def)
  have new: "connection_ok armed (connection_changed (connection_enter c1 st))"
    by (intro changed_ok enter_ok laws1)
  have rel: "connection_ok armed (c'\<lparr>co_context := cp_reload (co_ports c') (co_context c')\<rparr>)"
    if "connection_ok armed c'" for c'
    using that by (auto simp: connection_ok_def timer_laws_def connection_inv_def poll_fits_def)
  show ?thesis
    unfolding connection_apply_def Let_def st_def [symmetric] c1_def [symmetric]
    using changed_ok [OF same] new rel [OF new] by (auto simp del: connection_changed_frame split: if_splits)
qed

lemma apply_summary_ok:
  assumes ok: "connection_ok armed c"
  shows "connection_ok armed (connection_apply c state proxy False)"
proof -
  have ok1: "connection_ok armed (c\<lparr>co_proxy := proxy\<rparr>)"
    using ok by (simp add: connection_ok_def)
  then have "timer_laws (co_ports (c\<lparr>co_proxy := proxy\<rparr>)) armed" by (simp add: connection_ok_def)
  then show ?thesis
    unfolding connection_apply_def Let_def
    using changed_ok [OF ok1] changed_ok [OF enter_ok [of "c\<lparr>co_proxy := proxy\<rparr>"]] by simp
qed

lemma connection_records_frame [simp]:
  "co_ports (connection_records c r cursor) = co_ports c"
  "connection_answered (connection_records c r cursor) = connection_answered c"
  by (simp_all add: connection_records_def connection_answered_def connection_inv_def split: option.splits)

lemma connection_records_timer:
  "timer_laws (co_ports c) armed \<Longrightarrow> armed (co_context (connection_records c r cursor)) = armed (co_context c)"
  by (auto simp: connection_records_def timer_laws_def split: option.splits)

lemma connection_completed_ok:
  assumes ok: "connection_ok armed c"
  shows "connection_ok armed (snd (connection_completed q r (L, c)))"
proof (cases "q \<noteq> co_pending c \<or> rs_outcome r = TB_OUTCOME_CANCELLED")
  case True
  then show ?thesis using ok by (auto simp: connection_completed_def)
next
  case False
  let ?c = "c\<lparr>co_pending := 0\<rparr>"
  have laws: "timer_laws (co_ports ?c) armed" and ans: "connection_answered ?c"
    and inv: "connection_inv c"
    using ok answered_inv by (auto simp: connection_ok_def)
  have quiet: "armed (co_context c) \<longrightarrow> co_polling c" using ok by (auto simp: connection_ok_def poll_fits_def)
  have fail: "connection_ok armed (if co_polling c then connection_proceed ?c else ?c)"
    using answered_proceed [OF ans laws] answered_stopped [OF ans] laws quiet
    by (auto simp: connection_ok_def)
  have "co_polling (connection_records ?c r cursor) = co_polling c" for cursor
    by (simp add: connection_records_def split: option.splits)
  then have succ: "connection_ok armed (connection_apply (connection_records ?c r cursor) state proxy True)"
    for cursor state proxy
    using laws ans quiet connection_records_timer [OF laws, of r cursor]
    by (intro apply_polled_ok) simp_all
  show ?thesis using False fail succ
    by (auto simp: connection_completed_def Let_def split: option.splits)
qed

lemma connection_completed_layer [tb_inv]:
  "requests_inv L \<Longrightarrow> requests_inv (fst (connection_completed q r (L, c)))"
  by (auto simp: connection_completed_def Let_def tb_inv split: option.splits)

interpretation connection: request_client co_pending connection_completed "connection_ok armed" for armed
  by unfold_locales (simp_all add: connection_completed_ok tb_inv, auto simp: connection_completed_def)

lemma connection_timer_ok:
  assumes inv: "connection_inv c" and laws: "timer_laws (co_ports c) armed" and fits: "poll_fits c"
    and quiet: "\<not> armed (co_context c)"
  shows "connection_ok armed (snd (tb_connection_timer (L, c)))"
proof (cases "co_account c = []")
  case True
  then show ?thesis using inv laws quiet by (simp add: tb_connection_timer_def connection_ok_def)
next
  case False
  have delay: "co_delay c = delay_of (co_state c) (co_polls c)" using inv fits by (simp add: connection_inv_def poll_fits_def)
  have small: "unat (co_window c) + unat (co_delay c) < 2 ^ LENGTH(32)"
  proof -
    have "unat (co_window c) \<le> 20000"
      using inv unat_limit_of [of "co_state c"] by (auto simp: connection_inv_def word_le_nat_alt split: if_splits)
    moreover have "unat (co_delay c) \<le> 66250"
      using unat_delay_of [of "co_state c" "co_polls c"] unat_u8_le [of "co_polls c"] delay by (auto split: if_splits)
    ultimately show ?thesis by simp
  qed
  have w: "unat (co_window c + co_delay c) = poll_time (co_state c) (unat (co_polls c) + 1)"
    using unat_plus_no_wrap [OF small] poll_time_Suc [of "co_state c" "co_polls c"] inv delay
    by (simp add: connection_inv_def)
  have le: "co_window c + co_delay c \<le> limit_of (co_state c)" using fits by (simp add: poll_fits_def)
  have "poll_time (co_state c) (unat (co_polls c) + 1) \<le> 20000"
    using le w unat_limit_of [of "co_state c"] by (auto simp: word_le_nat_alt split: if_splits)
  then have "unat (co_polls c) + 1 \<le> 10" by (simp add: poll_time_def split: if_splits)
  then have p: "unat (co_polls c + 1) = unat (co_polls c) + 1"
    using unat_plus_no_wrap [of "co_polls c" 1] by simp
  let ?c = "c\<lparr>co_window := co_window c + co_delay c, co_polls := co_polls c + 1\<rparr>"
  have inv1: "connection_answered (?c\<lparr>co_pending := q\<rparr>)" for q
    using inv w p le by (simp add: connection_answered_def connection_inv_def)
  have "connection_ok armed (?c\<lparr>co_pending := q\<rparr>)" if "q \<noteq> 0" for q
    using inv1 [of q] that laws quiet by (simp add: connection_ok_def connection_answered_def connection_inv_def)
  then show ?thesis
    using False fits answered_proceed [OF inv1] laws
    by (simp add: tb_connection_timer_def Let_def poll_fits_def split: prod.splits)
qed

section \<open>Reachable connections\<close>

text \<open>
  The operations, the deliveries, the timer when it runs, and a platform that may stop the timer
  but does not start it on its own.
\<close>

inductive connection_step ::
  "('v \<Rightarrow> bool) \<Rightarrow> 'x TbRequestLayer \<times> 'v TbConnection \<Rightarrow> 'x TbRequestLayer \<times> 'v TbConnection \<Rightarrow> bool"
  for armed where
  cs_open: "connection_step armed p (tb_connection_open p account)"
| cs_close: "connection_step armed p (tb_connection_close p)"
| cs_refresh: "connection_step armed p (tb_connection_refresh p)"
| cs_summary: "connection_step armed (L, c) (L, tb_connection_summary c state proxy)"
| cs_active: "connection_step armed (L, c) (L, tb_connection_set_active c active)"
| cs_completed: "connection_step armed p (connection_completed q r p)"
| cs_timer: "armed (co_context c) \<Longrightarrow> \<not> armed v \<Longrightarrow>
    connection_step armed (L, c) (tb_connection_timer (L, c\<lparr>co_context := v\<rparr>))"
| cs_platform: "armed v \<longrightarrow> armed (co_context c) \<Longrightarrow> connection_step armed (L, c) (L', c\<lparr>co_context := v\<rparr>)"

lemma connection_close_ok:
  "connection_ok armed c \<Longrightarrow> connection_ok armed (snd (tb_connection_close (L, c)))"
  by (simp add: tb_connection_close_def connection_ok_def timer_laws_def connection_inv_def
      connection_cancel_def limit_of_def)

lemma connection_step_ok:
  assumes "connection_step armed p p'" and "connection_ok armed (snd p)"
  shows "connection_ok armed (snd p')"
  using assms
proof (induction rule: connection_step.induct)
  case (cs_open p account)
  obtain L c where p: "p = (L, c)" by (cases p)
  have "connection_ok armed (snd (tb_connection_close p))" "\<not> co_polling (snd (tb_connection_close p))"
    using connection_close_ok [of armed c L] cs_open p by (simp_all add: tb_connection_close_def)
  then show ?case
    by (auto simp: tb_connection_open_def Let_def split_beta connection_ok_def connection_inv_def poll_fits_def)
next
  case (cs_close p)
  then show ?case using connection_close_ok by (cases p) simp
next
  case (cs_refresh p)
  obtain L c where p: "p = (L, c)" by (cases p)
  have "connection_ok armed ((connection_cancel (c\<lparr>co_pending := 0\<rparr>))
      \<lparr>co_fresh := True, co_polling := False, co_error := TB_CONNECTION_ERROR_NONE\<rparr>)"
    using cs_refresh p
    by (simp add: connection_ok_def connection_inv_def timer_laws_def connection_cancel_def)
  from changed_ok [OF this] show ?case using cs_refresh p by (simp add: tb_connection_refresh_def)
next
  case (cs_summary L c state proxy)
  then show ?case by (simp add: tb_connection_summary_def apply_summary_ok)
next
  case (cs_active L c active)
  then have "connection_inv (c\<lparr>co_active := active\<rparr>)" "timer_laws (co_ports (c\<lparr>co_active := active\<rparr>)) armed"
    by (simp_all add: connection_ok_def connection_inv_def)
  from arm_ok [OF this] cancel_ok [OF this] show ?case by (cases active) (simp_all add: tb_connection_set_active_def Let_def)
next
  case (cs_completed p q r)
  then show ?case using connection_completed_ok by (cases p) simp
next
  case (cs_timer c v L)
  show ?case
    by (rule connection_timer_ok) (use cs_timer in \<open>simp_all add: connection_ok_def\<close>)
next
  case (cs_platform v c L L')
  then show ?case by (auto simp: connection_ok_def)
qed

lemma connection_init_ok:
  "timer_laws ports armed \<Longrightarrow> \<not> armed v \<Longrightarrow> connection_ok armed (tb_connection_init ports v timeout)"
  by (simp add: tb_connection_init_def connection_ok_def connection_inv_def limit_of_def)

section \<open>Properties\<close>

lemma poll_time_limit:
  assumes "poll_time state n \<le> unat (limit_of state)"
  shows "n \<le> 7"
proof (rule ccontr)
  assume "\<not> n \<le> 7"
  then have "8 \<le> n" by simp
  then have "8 * 8 \<le> n * n" by (intro mult_le_mono)
  then have "2375 * 8 + 125 * (8 * 8) \<le> 2375 * n + 125 * (n * n)" "2000 * 8 \<le> 2000 * n"
    using \<open>8 \<le> n\<close> by linarith+
  then show False using assms by (auto simp: poll_time_def unat_limit_of split: if_splits)
qed

text \<open>
  C13. Polling is bounded: on a platform whose timer runs only when it was scheduled, the
  connection never waits beyond its window of 14 s while connecting and 20 s while updating, it
  never makes more than seven polls in one window, the counters never wrap around, the timer only
  runs while a poll is due and still fits, and an error is shown only when polling has stopped.
\<close>

theorem connection_polls_bounded:
  assumes "timer_laws ports armed" and "\<not> armed v"
    and "(connection_step armed)\<^sup>*\<^sup>* (L, tb_connection_init ports v timeout) (L', c)"
  shows "unat (co_polls c) \<le> 7 \<and> co_window c \<le> limit_of (co_state c) \<and>
     (armed (co_context c) \<longrightarrow> co_polling c \<and> co_active c \<and> co_pending c = 0 \<and>
        co_window c + co_delay c \<le> limit_of (co_state c)) \<and>
     (co_error c = TB_CONNECTION_ERROR_NONE \<or> \<not> co_polling c) \<and>
     (co_polling c \<longrightarrow> co_state c \<noteq> TB_CONNECTION_READY)"
proof -
  have "connection_ok armed (snd p)" if "(connection_step armed)\<^sup>*\<^sup>* (L, tb_connection_init ports v timeout) p" for p
    using that connection_init_ok [OF assms(1,2)]
    by (induction rule: rtranclp_induct) (auto intro: connection_step_ok)
  from this [OF assms(3)] have ok: "connection_inv c" "armed (co_context c) \<longrightarrow> poll_fits c"
    by (simp_all add: connection_ok_def)
  have "poll_time (co_state c) (unat (co_polls c)) \<le> unat (limit_of (co_state c))"
    using ok(1) by (auto simp: connection_inv_def word_le_nat_alt)
  then have "unat (co_polls c) \<le> 7" by (rule poll_time_limit)
  then show ?thesis using ok unfolding connection_inv_def poll_fits_def by auto
qed

definition sample_connection_ports :: "bool TbConnectionPorts" where
  "sample_connection_ports = \<lparr>cp_changed = (\<lambda>v. v), cp_reload = (\<lambda>v. v), cp_schedule = (\<lambda>v ms. (True, True)),
     cp_cancel = (\<lambda>v. False), cp_now = (\<lambda>v. 0), cp_records = None\<rparr>"

theorem connection_polls_bounded_witness:
  "unat (co_polls (snd (tb_connection_open (sample_layer, tb_connection_init sample_connection_ports False 8000) [49]))) \<le> 7"
proof -
  let ?p = "(sample_layer, tb_connection_init sample_connection_ports False 8000)"
  have laws: "timer_laws sample_connection_ports (\<lambda>v. v)"
    by (simp add: timer_laws_def sample_connection_ports_def)
  have "(connection_step (\<lambda>v. v))\<^sup>*\<^sup>* ?p (fst (tb_connection_open ?p [49]), snd (tb_connection_open ?p [49]))"
    by (rule r_into_rtranclp) (simp add: cs_open)
  from connection_polls_bounded [OF laws _ this] show ?thesis by simp
qed

end
