(* ===== verification/Image.thy ===== *)
theory Image
  imports Prelude "HOL-Library.Signed_Division"
begin

text \<open>
  The picture decoder (\<^verbatim>\<open>image.h\<close>, \<^verbatim>\<open>image.c\<close>): header, row geometry, the streaming
  decompressor and the checksum. The header bytes read so far are the list \<open>im_head\<close>, whose length
  is \<open>head_length\<close>; \<open>im_pixels\<close> is the buffer of \<open>size\<close> bytes the client allocates.
\<close>

section \<open>Data\<close>

abbreviation (input) TB_IMAGE_HEADER_SIZE :: nat where "TB_IMAGE_HEADER_SIZE \<equiv> 22"
abbreviation (input) TB_IMAGE_MAX_COLORS :: nat where "TB_IMAGE_MAX_COLORS \<equiv> 16"
abbreviation (input) TB_IMAGE_VERSION :: u8 where "TB_IMAGE_VERSION \<equiv> 1"

record TbImageHeader =
  ih_bits :: u8
  ih_shape :: u8
  ih_colors :: u8
  ih_width :: u16
  ih_height :: u16
  ih_canvas_width :: u16
  ih_canvas_height :: u16
  ih_tag :: u32
  ih_crc :: u32
  ih_palette :: bytes

datatype TbImageStatus = TB_IMAGE_MORE | TB_IMAGE_HEADER_READY | TB_IMAGE_DONE | TB_IMAGE_BAD

datatype image_op = OP_NONE | OP_LITERAL | OP_REPEAT | OP_DISTANCE_LOW | OP_DISTANCE_HIGH

record TbImageDecoder =
  im_header :: TbImageHeader
  im_head :: bytes
  im_header_ready :: bool
  im_pixels :: "bytes option"
  im_size :: u16
  im_filled :: u16
  im_op :: image_op
  im_remaining :: u8
  im_distance :: u16

record TbImageRow =
  row_x :: int
  row_y :: int
  row_count :: u16
  row_bytes :: u16

section \<open>Operations\<close>

definition tb_image_reset :: TbImageDecoder where
  "tb_image_reset =
     \<lparr>im_header = \<lparr>ih_bits = 0, ih_shape = 0, ih_colors = 0, ih_width = 0, ih_height = 0,
        ih_canvas_width = 0, ih_canvas_height = 0, ih_tag = 0, ih_crc = 0,
        ih_palette = replicate TB_IMAGE_MAX_COLORS 0\<rparr>,
      im_head = [], im_header_ready = False, im_pixels = None, im_size = 0, im_filled = 0,
      im_op = OP_NONE, im_remaining = 0, im_distance = 0\<rparr>"

lemma shift_two_less: "(b :: u32) \<noteq> 0 \<Longrightarrow> unat (drop_bit 2 b) < unat b"
  using unat_gt_0 [of b] by (simp add: drop_bit_eq_div unat_div)

text \<open>\<open>while (bit > value) { bit >>= 2; }\<close>\<close>

function isqrt_top :: "u32 \<Rightarrow> u32 \<Rightarrow> u32" where
  "isqrt_top v b = (if b > v then isqrt_top v (drop_bit 2 b) else b)"
  by pat_completeness auto
termination
  by (relation "measure (\<lambda>(v, b). unat b)")
     (auto intro!: shift_two_less)

text \<open>\<open>while (bit) { ... bit >>= 2; }\<close>\<close>

function isqrt_loop :: "u32 \<Rightarrow> u32 \<Rightarrow> u32 \<Rightarrow> u32" where
  "isqrt_loop v root b =
     (if b \<noteq> 0 then
        (if v \<ge> root + b then isqrt_loop (v - (root + b)) (drop_bit 1 root + b) (drop_bit 2 b)
         else isqrt_loop v (drop_bit 1 root) (drop_bit 2 b))
      else root)"
  by pat_completeness auto
termination
  by (relation "measure (\<lambda>(v, root, b). unat b)")
     (auto intro!: shift_two_less)

declare isqrt_top.simps [simp del] isqrt_loop.simps [simp del]

definition tb_image_isqrt :: "u32 \<Rightarrow> u16" where
  "tb_image_isqrt v = ucast (isqrt_loop v 0 (isqrt_top v (push_bit 30 1)))"

definition to_int16 :: "int \<Rightarrow> int" where
  "to_int16 i = sint (word_of_int i :: 16 word)"

definition tb_image_row :: "TbImageHeader \<Rightarrow> u16 \<Rightarrow> TbImageRow" where
  "tb_image_row h y =
     (let left = to_int16 ((uint (ih_canvas_width h) - uint (ih_width h)) sdiv 2);
          top = to_int16 ((uint (ih_canvas_height h) - uint (ih_height h)) sdiv 2);
          ry = to_int16 (top + uint y);
          (x, count) =
            (if ih_shape h = 1 then
               (let diameter = uint (ih_canvas_width h);
                    dy = 2 * ry + 1 - uint (ih_canvas_height h);
                    (from0, to0) =
                      (if dy > - diameter \<and> dy < diameter then
                         (let half = uint (tb_image_isqrt (word_of_int (diameter * diameter - dy * dy)))
                          in ((diameter - half - 1) sdiv 2 - 1, (diameter + half - 1) sdiv 2 + 2))
                       else (0, 0));
                    from1 = (if from0 < left then left else from0);
                    to1 = (if to0 > left + uint (ih_width h) then left + uint (ih_width h) else to0)
                in (to_int16 from1, word_of_int (if to1 > from1 then to1 - from1 else 0)))
             else (left, ih_width h))
      in \<lparr>row_x = x, row_y = ry, row_count = count,
          row_bytes = word_of_int ((uint count * uint (ih_bits h) + 7) sdiv 8)\<rparr>)"

definition tb_image_size :: "TbImageHeader \<Rightarrow> u32" where
  "tb_image_size h =
     foldl (\<lambda>total y. total + ucast (row_bytes (tb_image_row h (of_nat y)))) 0 [0..<unat (ih_height h)]"

definition tb_image_pixel :: "TbImageHeader \<Rightarrow> bytes \<Rightarrow> u16 \<Rightarrow> u8" where
  "tb_image_pixel h row index =
     (let b = word_of_int (uint index * uint (ih_bits h)) :: u16;
          shift = word_of_int (8 - uint (ih_bits h) - uint (b AND 7)) :: u8
      in drop_bit (unat shift) (row ! unat (drop_bit 3 b)) AND (push_bit (unat (ih_bits h)) 1 - 1))"

definition crc_bit :: "u32 \<Rightarrow> u32" where
  "crc_bit crc = drop_bit 1 crc XOR (0xEDB88320 AND (0 - (crc AND 1)))"

fun crc_loop :: "u32 \<Rightarrow> bytes \<Rightarrow> u32" where
  "crc_loop crc [] = crc"
| "crc_loop crc (b # bs) = crc_loop ((crc_bit ^^ 8) (crc XOR ucast b)) bs"

definition tb_image_crc :: "u32 \<Rightarrow> bytes \<Rightarrow> nat \<Rightarrow> u32" where
  "tb_image_crc crc data len = NOT (crc_loop (NOT crc) (take len data))"

definition le16 :: "bytes \<Rightarrow> u16" where
  "le16 p = ucast (p ! 0) OR push_bit 8 (ucast (p ! 1))"

definition le32 :: "bytes \<Rightarrow> u32" where
  "le32 p = ucast (le16 p) OR push_bit 16 (ucast (le16 (drop 2 p)))"

definition parse_header :: "TbImageDecoder \<Rightarrow> TbImageDecoder option" where
  "parse_header d =
     (let head = im_head d; colors = head ! 5;
          header = \<lparr>ih_bits = head ! 3, ih_shape = head ! 4, ih_colors = colors,
            ih_width = le16 (drop 6 head), ih_height = le16 (drop 8 head),
            ih_canvas_width = le16 (drop 10 head), ih_canvas_height = le16 (drop 12 head),
            ih_tag = le32 (drop 14 head), ih_crc = le32 (drop 18 head),
            ih_palette = take (unat colors) (drop TB_IMAGE_HEADER_SIZE head) @
              drop (unat colors) (ih_palette (im_header d))\<rparr>;
          size = tb_image_size header
      in if size = 0 \<or> size > 0xFFFF then None
         else Some (d\<lparr>im_header := header, im_size := ucast size\<rparr>))"

definition header_valid :: "bytes \<Rightarrow> bool" where
  "header_valid head \<longleftrightarrow>
     (let bits = head ! 3; width = le16 (drop 6 head); height = le16 (drop 8 head)
      in head ! 0 = 0x54 \<and> head ! 1 = 0x42 \<and> head ! 2 = TB_IMAGE_VERSION \<and>
         (bits = 1 \<or> bits = 2 \<or> bits = 4) \<and> head ! 4 \<le> 1 \<and>
         head ! 5 \<ge> 1 \<and> unat (head ! 5) \<le> 2 ^ unat bits \<and> width > 0 \<and> height > 0 \<and>
         width \<le> le16 (drop 10 head) \<and> height \<le> le16 (drop 12 head))"

text \<open>\<open>emit\<close> on the buffer; \<open>None\<close> is \<open>false\<close>.\<close>

definition emit :: "TbImageDecoder \<Rightarrow> u8 \<Rightarrow> TbImageDecoder option" where
  "emit d v =
     (if im_filled d \<ge> im_size d then None
      else Some (d\<lparr>im_pixels := map_option (\<lambda>px. px[unat (im_filled d) := v]) (im_pixels d),
                   im_filled := im_filled d + 1\<rparr>))"

lemma emit_remaining: "emit d v = Some d' \<Longrightarrow> im_remaining d' = im_remaining d"
  by (auto simp: emit_def split: if_splits)

text \<open>
  The two loops \<open>while (remaining) { if (!emit(...)) return false; --remaining; }\<close>, with the byte
  to emit as a function of the decoder.
\<close>

function emit_loop :: "(TbImageDecoder \<Rightarrow> u8) \<Rightarrow> TbImageDecoder \<Rightarrow> TbImageDecoder option" where
  "emit_loop src d =
     (if im_remaining d = 0 then Some d
      else case emit d (src d) of
             None \<Rightarrow> None
           | Some d' \<Rightarrow> emit_loop src (d'\<lparr>im_remaining := im_remaining d' - 1\<rparr>))"
  by pat_completeness auto
termination
  by (relation "measure (\<lambda>(src, d). unat (im_remaining d))")
     (auto simp: emit_remaining measure_unat)

declare emit_loop.simps [simp del]

definition pixel_back :: "TbImageDecoder \<Rightarrow> u8" where
  "pixel_back d =
     (case im_pixels d of None \<Rightarrow> 0 | Some px \<Rightarrow> px ! (unat (im_filled d) - unat (im_distance d)))"

fun image_step_op :: "image_op \<Rightarrow> TbImageDecoder \<Rightarrow> u8 \<Rightarrow> TbImageDecoder option" where
  "image_step_op OP_NONE d byte =
     Some (if byte < 0x80 then d\<lparr>im_op := OP_LITERAL, im_remaining := byte + 1\<rparr>
           else if byte < 0xC0 then d\<lparr>im_op := OP_REPEAT, im_remaining := (byte AND 0x3F) + 3\<rparr>
           else d\<lparr>im_op := OP_DISTANCE_LOW, im_remaining := (byte AND 0x3F) + 3\<rparr>)"
| "image_step_op OP_LITERAL d byte =
     (case emit d byte of
        None \<Rightarrow> None
      | Some d1 \<Rightarrow>
          (let d2 = d1\<lparr>im_remaining := im_remaining d1 - 1\<rparr>
           in Some (if im_remaining d2 = 0 then d2\<lparr>im_op := OP_NONE\<rparr> else d2)))"
| "image_step_op OP_REPEAT d byte =
     map_option (\<lambda>d1. d1\<lparr>im_op := OP_NONE\<rparr>) (emit_loop (\<lambda>_. byte) d)"
| "image_step_op OP_DISTANCE_LOW d byte =
     Some (d\<lparr>im_distance := ucast byte, im_op := OP_DISTANCE_HIGH\<rparr>)"
| "image_step_op OP_DISTANCE_HIGH d byte =
     (let d1 = d\<lparr>im_distance := im_distance d OR push_bit 8 (ucast byte)\<rparr>
      in if im_distance d1 = 0 \<or> im_distance d1 > im_filled d1 then None
         else map_option (\<lambda>d2. d2\<lparr>im_op := OP_NONE\<rparr>) (emit_loop pixel_back d1))"

definition image_step :: "TbImageDecoder \<Rightarrow> u8 \<Rightarrow> TbImageDecoder option" where
  "image_step d byte = image_step_op (im_op d) d byte"

text \<open>
  The header loop of \<open>tb_image_feed\<close> on the bytes not yet used, with the number of those used. The
  decoder that comes with \<open>TB_IMAGE_BAD\<close> is not looked at again: every caller drops it.
\<close>

fun feed_header :: "TbImageDecoder \<Rightarrow> bytes \<Rightarrow> nat \<Rightarrow> TbImageStatus \<times> TbImageDecoder \<times> nat" where
  "feed_header d [] offset = (TB_IMAGE_MORE, d, offset)"
| "feed_header d (b # bs) offset =
     (let d1 = d\<lparr>im_head := im_head d @ [b]\<rparr>
      in if length (im_head d1) = TB_IMAGE_HEADER_SIZE \<and> \<not> header_valid (im_head d1)
         then (TB_IMAGE_BAD, d1, 0)
         else if length (im_head d1) \<ge> TB_IMAGE_HEADER_SIZE \<and>
                 length (im_head d1) = TB_IMAGE_HEADER_SIZE + unat (im_head d1 ! 5)
         then (case parse_header d1 of
                 None \<Rightarrow> (TB_IMAGE_BAD, d1, 0)
               | Some d2 \<Rightarrow> (TB_IMAGE_HEADER_READY, d2\<lparr>im_header_ready := True\<rparr>, offset + 1))
         else feed_header d1 bs (offset + 1))"

fun feed_pixels :: "TbImageDecoder \<Rightarrow> bytes \<Rightarrow> TbImageDecoder option" where
  "feed_pixels d [] = Some d"
| "feed_pixels d (b # bs) =
     (if im_filled d \<ge> im_size d \<and> im_op d = OP_NONE then None
      else case image_step d b of None \<Rightarrow> None | Some d1 \<Rightarrow> feed_pixels d1 bs)"

definition tb_image_feed :: "TbImageDecoder \<Rightarrow> bytes \<Rightarrow> TbImageStatus \<times> TbImageDecoder \<times> nat" where
  "tb_image_feed d data =
     (if \<not> im_header_ready d then feed_header d data 0
      else case im_pixels d of
             None \<Rightarrow> (TB_IMAGE_BAD, d, 0)
           | Some _ \<Rightarrow>
               (case feed_pixels d data of
                  None \<Rightarrow> (TB_IMAGE_BAD, d, 0)
                | Some d1 \<Rightarrow>
                    (if im_filled d1 < im_size d1 \<or> im_op d1 \<noteq> OP_NONE then TB_IMAGE_MORE
                     else if tb_image_crc 0 (the (im_pixels d1)) (unat (im_size d1)) = ih_crc (im_header d1)
                     then TB_IMAGE_DONE else TB_IMAGE_BAD, d1, length data)))"

end
