(* ===== verification/Image_Facts.thy ===== *)
theory Image_Facts
  imports Image
begin

text \<open>
  What the picture decoder guarantees: the integer square root is exact, feeding a picture in
  pieces gives what feeding it at once gives, the decoder stays inside its buffers, and it inverts
  the compressed format, with success exactly when the checksum matches.
\<close>

section \<open>The integer square root\<close>

text \<open>The digit-by-digit method on natural numbers, \<open>n\<close> binary digits of the root to go.\<close>

fun isq :: "nat \<Rightarrow> nat \<Rightarrow> nat \<Rightarrow> nat" where
  "isq 0 v root = root"
| "isq (Suc k) v root =
     (if v \<ge> root + 4 ^ k then isq k (v - (root + 4 ^ k)) (root div 2 + 4 ^ k)
      else isq k v (root div 2))"

lemma isq_correct:
  "v + s * s < (s + 2 ^ n) * (s + 2 ^ n) \<Longrightarrow>
   (isq n v (s * 2 ^ n))\<^sup>2 \<le> v + s * s \<and> v + s * s < (isq n v (s * 2 ^ n) + 1)\<^sup>2"
proof (induction n arbitrary: v s)
  case 0
  then show ?case by (simp add: power2_eq_square)
next
  case (Suc k)
  have four: "(4 :: nat) ^ k = 2 ^ k * 2 ^ k" by (simp flip: power_mult_distrib)
  have half: "s * 2 ^ Suc k div 2 = s * 2 ^ k" by simp
  show ?case
  proof (cases "v \<ge> s * 2 ^ Suc k + 4 ^ k")
    case True
    let ?s = "s + 2 ^ k"
    have sq: "?s * ?s = s * s + (s * 2 ^ Suc k + 4 ^ k)" by (simp add: four algebra_simps)
    have v: "v - (s * 2 ^ Suc k + 4 ^ k) + ?s * ?s = v + s * s" using True sq by simp
    have "v + s * s < (?s + 2 ^ k) * (?s + 2 ^ k)" using Suc.prems by (simp add: algebra_simps)
    then have "(isq k (v - (s * 2 ^ Suc k + 4 ^ k)) (?s * 2 ^ k))\<^sup>2 \<le> v + s * s \<and>
        v + s * s < (isq k (v - (s * 2 ^ Suc k + 4 ^ k)) (?s * 2 ^ k) + 1)\<^sup>2"
      using Suc.IH [of "v - (s * 2 ^ Suc k + 4 ^ k)" ?s] unfolding v by blast
    moreover have "s * 2 ^ Suc k div 2 + 4 ^ k = ?s * 2 ^ k" by (simp add: half four algebra_simps)
    ultimately show ?thesis using True by simp
  next
    case False
    then have "v + s * s < (s + 2 ^ k) * (s + 2 ^ k)" by (simp add: four algebra_simps)
    then show ?thesis using Suc.IH [of v s] False half by simp
  qed
qed

definition isqrt_bit :: "nat \<Rightarrow> u32 \<Rightarrow> bool" where
  "isqrt_bit n b \<longleftrightarrow> n \<le> 16 \<and> unat b = (if n = 0 then 0 else 4 ^ (n - 1))"

lemma isqrt_bit_next: "isqrt_bit (Suc k) b \<Longrightarrow> isqrt_bit k (drop_bit 2 b)"
  by (cases k) (auto simp: isqrt_bit_def drop_bit_eq_div unat_div)

lemma four_pow_le: "k < 16 \<Longrightarrow> (4 :: nat) ^ k \<le> 1073741824"
  using power_increasing [of k 15 "4 :: nat"] by simp

lemma isqrt_loop_isq:
  "isqrt_bit n b \<Longrightarrow> unat root < 2147483648 \<Longrightarrow>
   unat (isqrt_loop v root b) = isq n (unat v) (unat root)"
proof (induction n arbitrary: v root b)
  case 0
  then have "b = 0" by (simp add: isqrt_bit_def unat_eq_0)
  then show ?case by (simp add: isqrt_loop.simps)
next
  case (Suc k)
  have b: "unat b = 4 ^ k" and k: "k < 16" using Suc.prems(1) by (auto simp: isqrt_bit_def)
  have nz: "b \<noteq> 0" using b by auto
  have sum: "unat (root + b) = unat root + 4 ^ k"
    using unat_plus_no_wrap [of root b] Suc.prems(2) b four_pow_le [OF k] by simp
  have half: "unat (drop_bit 1 root) = unat root div 2" by (simp add: drop_bit_eq_div unat_div)
  have sum2: "unat (drop_bit 1 root + b) = unat root div 2 + 4 ^ k"
    using unat_plus_no_wrap [of "drop_bit 1 root" b] Suc.prems(2) b four_pow_le [OF k] half by simp
  have lim: "unat (drop_bit 1 root + b) < 2147483648" "unat (drop_bit 1 root) < 2147483648"
    using sum2 half Suc.prems(2) four_pow_le [OF k] by linarith+
  note nx = isqrt_bit_next [OF Suc.prems(1)]
  show ?case
  proof (cases "root + b \<le> v")
    case True
    have "unat (v - (root + b)) = unat v - (unat root + 4 ^ k)"
      using True sum by (simp add: unat_sub)
    then show ?thesis
      using True nz sum sum2 Suc.IH [OF nx lim(1)]
      by (simp add: isqrt_loop.simps [of v root b] word_le_nat_alt)
  next
    case False
    then show ?thesis
      using nz sum half Suc.IH [OF nx lim(2)]
      by (simp add: isqrt_loop.simps [of v root b] word_le_nat_alt)
  qed
qed

lemma isqrt_top_bit:
  "isqrt_bit n b \<Longrightarrow> unat v < 4 ^ n \<Longrightarrow>
   \<exists>m. isqrt_bit m (isqrt_top v b) \<and> unat v < 4 ^ m"
proof (induction n arbitrary: b)
  case 0
  then have "b = 0" by (simp add: isqrt_bit_def unat_eq_0)
  then have "isqrt_top v b = b" by (simp add: isqrt_top.simps [of v 0])
  then show ?case using 0 by metis
next
  case (Suc k)
  show ?case
  proof (cases "b > v")
    case True
    then have "unat v < 4 ^ k" using Suc.prems(1) by (simp add: isqrt_bit_def word_less_nat_alt)
    then show ?thesis
      using Suc.IH [OF isqrt_bit_next [OF Suc.prems(1)]] True by (simp add: isqrt_top.simps [of v b])
  next
    case False
    then have "isqrt_top v b = b" by (simp add: isqrt_top.simps [of v b])
    then show ?thesis using Suc.prems by metis
  qed
qed

lemma isqrt_bounds:
  "(unat (tb_image_isqrt v))\<^sup>2 \<le> unat v \<and> unat v < (unat (tb_image_isqrt v) + 1)\<^sup>2"
proof -
  have "isqrt_bit 16 (push_bit 30 1)" by (simp add: isqrt_bit_def push_bit_eq_mult)
  moreover have "unat v < 4 ^ 16" using unat_u32_less [of v] by simp
  ultimately obtain m where m: "isqrt_bit m (isqrt_top v (push_bit 30 1))" "unat v < 4 ^ m"
    using isqrt_top_bit by blast
  define t where "t = isqrt_loop v 0 (isqrt_top v (push_bit 30 1))"
  have t: "unat t = isq m (unat v) 0" using isqrt_loop_isq [OF m(1), of 0 v] by (simp add: t_def)
  have "(4 :: nat) ^ m = 2 ^ m * 2 ^ m" by (simp flip: power_mult_distrib)
  then have r: "(unat t)\<^sup>2 \<le> unat v" "unat v < (unat t + 1)\<^sup>2"
    using isq_correct [of "unat v" 0 m] m(2) t by auto
  have "unat t < 65536"
  proof (rule ccontr)
    assume "\<not> unat t < 65536"
    then have "65536\<^sup>2 \<le> (unat t)\<^sup>2" by (intro power_mono) auto
    then show False using r(1) unat_u32_less [of v] by simp
  qed
  then have "unat (ucast t :: u16) = unat t" by (simp add: unsigned_ucast_eq take_bit_nat_eq_self_iff)
  then show ?thesis using r by (simp add: tb_image_isqrt_def t_def)
qed

section \<open>Feeding in pieces\<close>

lemma feed_pixels_append:
  "feed_pixels d (a @ b) = (case feed_pixels d a of None \<Rightarrow> None | Some d1 \<Rightarrow> feed_pixels d1 b)"
  by (induction a arbitrary: d) (auto split: option.splits)

lemma feed_header_append:
  "feed_header d a off = (TB_IMAGE_MORE, d1, n) \<Longrightarrow> feed_header d (a @ b) off = feed_header d1 b n"
  by (induction a arbitrary: d off) (auto simp: Let_def split: if_splits option.splits)

lemma feed_header_offset:
  "feed_header d bs (off + k) =
     (case feed_header d bs off of (st, d', n) \<Rightarrow> (st, d', if st = TB_IMAGE_BAD then n else n + k))"
proof (induction bs arbitrary: d off)
  case (Cons b bs)
  have "Suc (off + k) = Suc off + k" by simp
  then show ?case
    using Cons.IH [of "d\<lparr>im_head := im_head d @ [b]\<rparr>" "Suc off"]
    by (simp add: Let_def split: option.splits prod.splits)
qed simp

lemma feed_header_more_used:
  "feed_header d a off = (TB_IMAGE_MORE, d1, n) \<Longrightarrow> n = off + length a \<and> im_header_ready d1 = im_header_ready d"
  by (induction a arbitrary: d off) (fastforce simp: Let_def split: if_splits option.splits)+

lemma emit_pixels: "emit d v = Some d' \<Longrightarrow> im_pixels d' = None \<longleftrightarrow> im_pixels d = None"
  by (auto simp: emit_def split: if_splits)

lemma emit_frame:
  "emit d v = Some d' \<Longrightarrow> im_header_ready d' = im_header_ready d \<and> im_size d' = im_size d \<and>
     im_op d' = im_op d \<and> im_distance d' = im_distance d \<and> im_header d' = im_header d \<and>
     im_remaining d' = im_remaining d"
  by (auto simp: emit_def split: if_splits)

text \<open>The part of a decoder that decompression does not touch.\<close>

definition image_frame :: "TbImageDecoder \<Rightarrow> TbImageDecoder \<Rightarrow> bool" where
  "image_frame d d' \<longleftrightarrow> im_header_ready d' = im_header_ready d \<and> im_size d' = im_size d \<and>
     im_header d' = im_header d \<and> (im_pixels d' = None \<longleftrightarrow> im_pixels d = None)"

lemma emit_loop_frame: "emit_loop src d = Some d' \<Longrightarrow> image_frame d d' \<and> im_distance d' = im_distance d"
proof (induction src d arbitrary: d' rule: emit_loop.induct)
  case (1 src d)
  show ?case
  proof (cases "im_remaining d = 0")
    case True
    then show ?thesis using 1 by (simp add: emit_loop.simps image_frame_def)
  next
    case False
    then obtain d1 where e: "emit d (src d) = Some d1"
      and l: "emit_loop src (d1\<lparr>im_remaining := im_remaining d1 - 1\<rparr>) = Some d'"
      using "1.prems" by (auto simp: emit_loop.simps [of src d] split: option.splits)
    show ?thesis
      using "1.IH" [OF False e l] emit_frame [OF e] emit_pixels [OF e] by (simp add: image_frame_def)
  qed
qed

lemma image_step_frame: "image_step d b = Some d' \<Longrightarrow> image_frame d d'"
proof (cases "im_op d")
  case OP_LITERAL
  assume "image_step d b = Some d'"
  then obtain d1 where "emit d b = Some d1" "image_frame d1 d'"
    using OP_LITERAL by (auto simp: image_step_def Let_def image_frame_def split: option.splits)
  then show ?thesis using emit_frame [of d b d1] emit_pixels [of d b d1] by (simp add: image_frame_def)
next
  case OP_REPEAT
  assume "image_step d b = Some d'"
  then show ?thesis using OP_REPEAT emit_loop_frame [of "\<lambda>_. b" d]
    by (auto simp: image_step_def image_frame_def)
next
  case OP_DISTANCE_HIGH
  assume "image_step d b = Some d'"
  then show ?thesis
    using OP_DISTANCE_HIGH emit_loop_frame [of pixel_back "d\<lparr>im_distance := im_distance d OR push_bit 8 (ucast b)\<rparr>"]
    by (auto simp: image_step_def image_frame_def Let_def split: if_splits)
qed (auto simp: image_step_def image_frame_def split: if_splits)

lemma feed_pixels_frame: "feed_pixels d bs = Some d' \<Longrightarrow> image_frame d d'"
proof (induction bs arbitrary: d)
  case (Cons b bs)
  then obtain d1 where "image_step d b = Some d1" "feed_pixels d1 bs = Some d'"
    by (auto split: if_splits option.splits)
  then show ?case using Cons.IH [of d1] image_step_frame [of d b d1] by (simp add: image_frame_def)
qed (simp add: image_frame_def)

section \<open>Staying inside the buffers\<close>

text \<open>
  A decoder in use: before the header is complete it holds less than the header announces, which
  is at most 38 bytes; afterwards the pixel buffer, once the client has provided it, has the
  announced size and at most that much of it is filled.
\<close>

definition image_ok :: "TbImageDecoder \<Rightarrow> bool" where
  "image_ok d \<longleftrightarrow>
     (if im_header_ready d
      then im_filled d \<le> im_size d \<and> (\<forall>px. im_pixels d = Some px \<longrightarrow> length px = unat (im_size d))
      else length (im_head d) < TB_IMAGE_HEADER_SIZE \<or>
        header_valid (im_head d) \<and> length (im_head d) < TB_IMAGE_HEADER_SIZE + unat (im_head d ! 5))"

lemma le16_append: "2 \<le> length p \<Longrightarrow> le16 (p @ q) = le16 p"
  by (cases p; cases "tl p") (simp_all add: le16_def)

lemma header_valid_append: "TB_IMAGE_HEADER_SIZE \<le> length h \<Longrightarrow> header_valid (h @ q) = header_valid h"
  by (cases "h = []") (simp_all add: header_valid_def Let_def nth_append le16_append)

lemma header_valid_colors: "header_valid h \<Longrightarrow> unat (h ! 5) \<le> TB_IMAGE_MAX_COLORS"
  by (auto simp: header_valid_def Let_def)

lemma emit_ok:
  assumes "image_ok d" and "im_header_ready d" and "emit d v = Some d'"
  shows "image_ok d'"
proof -
  have "im_filled d < im_size d" and d': "d' = d\<lparr>im_pixels := map_option (\<lambda>px. px[unat (im_filled d) := v]) (im_pixels d),
      im_filled := im_filled d + 1\<rparr>"
    using assms(3) by (auto simp: emit_def not_le split: if_splits)
  then have "unat (im_filled d + 1) \<le> unat (im_size d)"
    using unat_plus_u16 [of "im_filled d" 1] unat_u16_less [of "im_size d"] by (simp add: word_less_nat_alt)
  then show ?thesis using assms(1,2) d' by (auto simp: image_ok_def word_le_nat_alt)
qed

lemma image_ok_frame:
  "im_header_ready d \<Longrightarrow> image_ok (d\<lparr>im_remaining := r\<rparr>) = image_ok d"
  "im_header_ready d \<Longrightarrow> image_ok (d\<lparr>im_op := op\<rparr>) = image_ok d"
  "im_header_ready d \<Longrightarrow> image_ok (d\<lparr>im_distance := k\<rparr>) = image_ok d"
  by (simp_all add: image_ok_def)

lemma emit_loop_ok:
  "emit_loop src d = Some d' \<Longrightarrow> image_ok d \<Longrightarrow> im_header_ready d \<Longrightarrow> image_ok d'"
proof (induction src d arbitrary: d' rule: emit_loop.induct)
  case (1 src d)
  show ?case
  proof (cases "im_remaining d = 0")
    case True
    then show ?thesis using 1 by (simp add: emit_loop.simps)
  next
    case False
    then obtain d1 where e: "emit d (src d) = Some d1"
      and l: "emit_loop src (d1\<lparr>im_remaining := im_remaining d1 - 1\<rparr>) = Some d'"
      using "1.prems"(1) by (auto simp: emit_loop.simps [of src d] split: option.splits)
    have "im_header_ready d1" using emit_frame [OF e] "1.prems"(3) by simp
    then show ?thesis
      using "1.IH" [OF False e l] emit_ok [OF "1.prems"(2,3) e] by (simp add: image_ok_frame)
  qed
qed

lemma image_step_ok:
  assumes "image_step d b = Some d'" and "image_ok d" and "im_header_ready d"
  shows "image_ok d'"
proof (cases "im_op d")
  case OP_LITERAL
  then obtain d1 where e: "emit d b = Some d1"
    and d': "d' = (let d2 = d1\<lparr>im_remaining := im_remaining d1 - 1\<rparr> in if im_remaining d2 = 0 then d2\<lparr>im_op := OP_NONE\<rparr> else d2)"
    using assms(1) by (auto simp: image_step_def Let_def split: option.splits if_splits)
  show ?thesis
    using emit_ok [OF assms(2,3) e] emit_frame [OF e] assms(3) d' by (simp add: Let_def image_ok_frame)
next
  case OP_REPEAT
  then obtain d1 where "emit_loop (\<lambda>_. b) d = Some d1" "d' = d1\<lparr>im_op := OP_NONE\<rparr>"
    using assms(1) by (auto simp: image_step_def)
  then show ?thesis
    using emit_loop_ok [of "\<lambda>_. b" d d1] emit_loop_frame [of "\<lambda>_. b" d d1] assms
    by (simp add: image_ok_frame image_frame_def)
next
  case OP_DISTANCE_HIGH
  let ?d = "d\<lparr>im_distance := im_distance d OR push_bit 8 (ucast b)\<rparr>"
  obtain d1 where "emit_loop pixel_back ?d = Some d1" "d' = d1\<lparr>im_op := OP_NONE\<rparr>"
    using assms(1) OP_DISTANCE_HIGH by (auto simp: image_step_def Let_def split: if_splits)
  then show ?thesis
    using emit_loop_ok [of pixel_back ?d d1] emit_loop_frame [of pixel_back ?d d1] assms
    by (simp add: image_ok_frame image_frame_def)
qed (use assms in \<open>auto simp: image_step_def image_ok_frame split: if_splits\<close>)

lemma feed_pixels_ok: "feed_pixels d bs = Some d' \<Longrightarrow> image_ok d \<Longrightarrow> im_header_ready d \<Longrightarrow> image_ok d'"
proof (induction bs arbitrary: d)
  case (Cons b bs)
  then obtain d1 where s: "image_step d b = Some d1" "feed_pixels d1 bs = Some d'"
    by (auto split: if_splits option.splits)
  then show ?case
    using Cons.IH [of d1] image_step_frame [OF s(1)] image_step_ok [OF s(1)] Cons.prems
    by (simp add: image_frame_def)
qed simp

lemma feed_header_ok:
  assumes "feed_header d bs off = (st, d', n)" and "image_ok d" and "\<not> im_header_ready d"
    and "st \<noteq> TB_IMAGE_BAD" and "im_pixels d = None" and "im_filled d = 0"
  shows "image_ok d' \<and> n \<le> off + length bs \<and> length (im_head d') \<le> TB_IMAGE_HEADER_SIZE + TB_IMAGE_MAX_COLORS"
  using assms
proof (induction bs arbitrary: d off)
  case Nil
  then show ?case using header_valid_colors [of "im_head d"] by (auto simp: image_ok_def)
next
  case (Cons b bs)
  let ?h = "im_head d @ [b]" and ?d = "d\<lparr>im_head := im_head d @ [b]\<rparr>"
  have valid: "TB_IMAGE_HEADER_SIZE \<le> length ?h \<Longrightarrow> header_valid ?h \<and> length ?h \<le> TB_IMAGE_HEADER_SIZE + unat (?h ! 5)"
  proof (cases "length ?h = TB_IMAGE_HEADER_SIZE")
    case True
    then show ?thesis using Cons.prems(1,4) by (auto simp: Let_def split: if_splits)
  next
    case False
    assume "TB_IMAGE_HEADER_SIZE \<le> length ?h"
    then have "TB_IMAGE_HEADER_SIZE \<le> length (im_head d)" using False by simp
    then show ?thesis using Cons.prems(2,3) header_valid_append [of "im_head d" "[b]"]
      by (auto simp: image_ok_def nth_append)
  qed
  show ?case
  proof (cases "TB_IMAGE_HEADER_SIZE \<le> length ?h \<and> length ?h = TB_IMAGE_HEADER_SIZE + unat (?h ! 5)")
    case True
    obtain d2 where p: "parse_header ?d = Some d2" and d': "d' = d2\<lparr>im_header_ready := True\<rparr>" "n = off + 1"
      using Cons.prems(1,4) True valid by (auto simp: Let_def split: if_splits option.splits)
    have "im_pixels d2 = None" "im_filled d2 = 0" "im_head d2 = ?h"
      using p Cons.prems(5,6) by (auto simp: parse_header_def Let_def split: if_splits)
    then show ?thesis
      using d' True valid header_valid_colors [of ?h] by (simp add: image_ok_def)
  next
    case False
    have ok: "image_ok ?d" using valid False Cons.prems(3) by (auto simp: image_ok_def)
    have r: "feed_header ?d bs (off + 1) = (st, d', n)"
      using Cons.prems(1,4) False valid by (auto simp: Let_def split: if_splits)
    show ?thesis using Cons.IH [OF r ok] Cons.prems(3-6) by simp
  qed
qed

section \<open>The compressed format\<close>

datatype cmd = Lit bytes | Rep nat u8 | Copy nat nat

fun copy_back :: "nat \<Rightarrow> nat \<Rightarrow> bytes \<Rightarrow> bytes" where
  "copy_back 0 dist out = out"
| "copy_back (Suc n) dist out = copy_back n dist (out @ [out ! (length out - dist)])"

fun expand :: "bytes \<Rightarrow> cmd \<Rightarrow> bytes" where
  "expand out (Lit bs) = out @ bs"
| "expand out (Rep n b) = out @ replicate n b"
| "expand out (Copy n dist) = copy_back n dist out"

fun cmd_ok :: "bytes \<Rightarrow> cmd \<Rightarrow> bool" where
  "cmd_ok out (Lit bs) \<longleftrightarrow> 1 \<le> length bs \<and> length bs \<le> 128"
| "cmd_ok out (Rep n b) \<longleftrightarrow> 3 \<le> n \<and> n \<le> 66"
| "cmd_ok out (Copy n dist) \<longleftrightarrow> 3 \<le> n \<and> n \<le> 66 \<and> 1 \<le> dist \<and> dist \<le> length out"

fun cmds_ok :: "bytes \<Rightarrow> cmd list \<Rightarrow> bool" where
  "cmds_ok out [] \<longleftrightarrow> True"
| "cmds_ok out (c # cs) \<longleftrightarrow> cmd_ok out c \<and> cmds_ok (expand out c) cs"

fun encode_cmd :: "cmd \<Rightarrow> bytes" where
  "encode_cmd (Lit bs) = of_nat (length bs - 1) # bs"
| "encode_cmd (Rep n b) = [of_nat (128 + (n - 3)), b]"
| "encode_cmd (Copy n dist) = [of_nat (192 + (n - 3)), of_nat (dist mod 256), of_nat (dist div 256)]"

lemma length_copy_back [simp]: "length (copy_back n dist out) = length out + n"
  by (induction n arbitrary: out) auto

lemma length_expand: "length out \<le> length (expand out c)"
  by (cases c) auto

lemma length_fold_expand: "length out \<le> length (foldl expand out cs)"
proof (induction cs arbitrary: out)
  case (Cons c cs)
  show ?case using Cons.IH [of "expand out c"] length_expand [of out c] by simp
qed simp

text \<open>The decoder has written \<open>out\<close> and expects a command.\<close>

definition wrote :: "TbImageDecoder \<Rightarrow> bytes \<Rightarrow> bool" where
  "wrote d out \<longleftrightarrow> (\<exists>px. im_pixels d = Some px \<and> length px = unat (im_size d) \<and>
     length out \<le> unat (im_size d) \<and> unat (im_filled d) = length out \<and> take (length out) px = out)"

lemma wrote_frame [simp]:
  "wrote (d\<lparr>im_remaining := r\<rparr>) out = wrote d out" "wrote (d\<lparr>im_op := op\<rparr>) out = wrote d out"
  "wrote (d\<lparr>im_distance := k\<rparr>) out = wrote d out"
  by (simp_all add: wrote_def)

lemma emit_wrote:
  assumes w: "wrote d out" and l: "length out < unat (im_size d)"
  obtains d' where "emit d v = Some d'" "wrote d' (out @ [v])"
proof -
  from w obtain px where px: "im_pixels d = Some px" "length px = unat (im_size d)"
    "unat (im_filled d) = length out" "take (length out) px = out" by (auto simp: wrote_def)
  have "\<not> im_filled d \<ge> im_size d" using px(3) l by (simp add: word_le_nat_alt)
  then have e: "emit d v = Some (d\<lparr>im_pixels := Some (px[length out := v]), im_filled := im_filled d + 1\<rparr>)"
    using px by (simp add: emit_def)
  have f: "unat (im_filled d + 1) = length out + 1"
    using unat_plus_u16 [of "im_filled d" 1] px(3) l unat_u16_less [of "im_size d"] by simp
  have t: "take (Suc (length out)) (px[length out := v]) = out @ [v]"
    using px l by (simp add: take_Suc_conv_app_nth)
  show thesis
    by (rule that [OF e]) (use px l f t in \<open>simp add: wrote_def\<close>)
qed

lemma emit_loop_zero: "im_remaining d = 0 \<Longrightarrow> emit_loop src d = Some d"
  by (simp add: emit_loop.simps)

lemma emit_loop_some:
  "im_remaining d \<noteq> 0 \<Longrightarrow> emit d (src d) = Some d' \<Longrightarrow>
   emit_loop src d = emit_loop src (d'\<lparr>im_remaining := im_remaining d' - 1\<rparr>)"
  by (simp add: emit_loop.simps [of src d])

lemma unat_dec: "unat (r :: u8) = Suc n \<Longrightarrow> unat (r - 1) = n"
  using unat_minus_one [of r] by (cases "r = 0") auto

lemma emit_loop_repeat:
  "wrote d out \<Longrightarrow> unat (im_remaining d) = n \<Longrightarrow> length out + n \<le> unat (im_size d) \<Longrightarrow>
   \<exists>d'. emit_loop (\<lambda>_. v) d = Some d' \<and> wrote d' (out @ replicate n v)"
proof (induction n arbitrary: d out)
  case 0
  then have "im_remaining d = 0" by (simp add: unat_eq_0)
  then show ?case using 0 by (simp add: emit_loop_zero)
next
  case (Suc n)
  have "length out < unat (im_size d)" using Suc.prems(3) by simp
  then obtain d1 where e: "emit d v = Some d1" "wrote d1 (out @ [v])" using emit_wrote [OF Suc.prems(1)] by blast
  note f = emit_frame [OF e(1)]
  have "im_remaining d \<noteq> 0" using Suc.prems(2) by auto
  then have l: "emit_loop (\<lambda>_. v) d = emit_loop (\<lambda>_. v) (d1\<lparr>im_remaining := im_remaining d1 - 1\<rparr>)"
    using e(1) by (intro emit_loop_some) auto
  have "\<exists>d'. emit_loop (\<lambda>_. v) (d1\<lparr>im_remaining := im_remaining d1 - 1\<rparr>) = Some d' \<and>
      wrote d' ((out @ [v]) @ replicate n v)"
    using e(2) f Suc.prems(2,3) by (intro Suc.IH) (simp_all add: unat_dec)
  then show ?case using l by simp
qed

lemma emit_loop_copy:
  "wrote d out \<Longrightarrow> unat (im_remaining d) = n \<Longrightarrow> length out + n \<le> unat (im_size d) \<Longrightarrow>
   unat (im_distance d) = dist \<Longrightarrow> 1 \<le> dist \<Longrightarrow> dist \<le> length out \<Longrightarrow>
   \<exists>d'. emit_loop pixel_back d = Some d' \<and> wrote d' (copy_back n dist out)"
proof (induction n arbitrary: d out)
  case 0
  then have "im_remaining d = 0" by (simp add: unat_eq_0)
  then show ?case using 0 by (simp add: emit_loop_zero)
next
  case (Suc n)
  have less: "length out - dist < length out" using Suc.prems(5,6) by simp
  from Suc.prems(1) obtain px where px: "im_pixels d = Some px" "unat (im_filled d) = length out"
    "take (length out) px = out" by (auto simp: wrote_def)
  have v: "pixel_back d = out ! (length out - dist)"
    using px less Suc.prems(4) by (simp add: pixel_back_def) (metis nth_take)
  have "length out < unat (im_size d)" using Suc.prems(3) by simp
  then obtain d1 where e: "emit d (pixel_back d) = Some d1" "wrote d1 (out @ [pixel_back d])"
    using emit_wrote [OF Suc.prems(1)] by blast
  note f = emit_frame [OF e(1)]
  have "im_remaining d \<noteq> 0" using Suc.prems(2) by auto
  then have l: "emit_loop pixel_back d = emit_loop pixel_back (d1\<lparr>im_remaining := im_remaining d1 - 1\<rparr>)"
    using e(1) by (rule emit_loop_some)
  have "\<exists>d'. emit_loop pixel_back (d1\<lparr>im_remaining := im_remaining d1 - 1\<rparr>) = Some d' \<and>
      wrote d' (copy_back n dist (out @ [pixel_back d]))"
    using e(2) f Suc.prems by (intro Suc.IH) (simp_all add: unat_dec)
  then show ?case using l v by simp
qed

text \<open>The literal bytes of a command, one step each.\<close>

lemma feed_literal:
  "wrote d out \<Longrightarrow> im_op d = OP_LITERAL \<Longrightarrow> unat (im_remaining d) = length bs \<Longrightarrow> bs \<noteq> [] \<Longrightarrow>
   length out + length bs \<le> unat (im_size d) \<Longrightarrow>
   \<exists>d'. feed_pixels d bs = Some d' \<and> wrote d' (out @ bs) \<and> im_op d' = OP_NONE"
proof (induction bs arbitrary: d out)
  case (Cons b bs)
  have "length out < unat (im_size d)" using Cons.prems(5) by simp
  then obtain d1 where e: "emit d b = Some d1" "wrote d1 (out @ [b])" using emit_wrote [OF Cons.prems(1)] by blast
  note f = emit_frame [OF e(1)]
  let ?d = "d1\<lparr>im_remaining := im_remaining d1 - 1\<rparr>"
  have r: "unat (im_remaining ?d) = length bs" using Cons.prems(3) f by (simp add: unat_dec)
  show ?case
  proof (cases "bs = []")
    case True
    then have "im_remaining ?d = 0" using r by (simp add: unat_eq_0)
    then show ?thesis using True e Cons.prems(2) by (simp add: image_step_def Let_def)
  next
    case False
    then have "im_remaining ?d \<noteq> 0" using r by auto
    then have s: "image_step d b = Some ?d" using e(1) Cons.prems(2) by (simp add: image_step_def Let_def)
    have "\<exists>d'. feed_pixels ?d bs = Some d' \<and> wrote d' ((out @ [b]) @ bs) \<and> im_op d' = OP_NONE"
      using e(2) f False r Cons.prems(2,5) by (intro Cons.IH) simp_all
    then show ?thesis using s Cons.prems(2) by simp
  qed
qed simp

lemma wrote_room:
  "wrote d out \<Longrightarrow> length out < unat (im_size d) \<Longrightarrow> \<not> im_size d \<le> im_filled d"
  by (auto simp: wrote_def word_le_nat_alt)

lemma byte_op_repeat:
  assumes "3 \<le> n" and "n \<le> 66"
  shows "\<not> (of_nat (128 + (n - 3)) :: u8) < 0x80" and "(of_nat (128 + (n - 3)) :: u8) < 0xC0"
    and "unat (((of_nat (128 + (n - 3)) :: u8) AND 0x3F) + 3) = n"
    and "\<not> (of_nat (192 + (n - 3)) :: u8) < 0x80" and "\<not> (of_nat (192 + (n - 3)) :: u8) < 0xC0"
    and "unat (((of_nat (192 + (n - 3)) :: u8) AND 0x3F) + 3) = n"
proof -
  have u: "unat (of_nat (k + (n - 3)) :: u8) = k + (n - 3)" if "k \<in> {128, 192}" for k
    using that assms by (intro unat_of_nat_u8) auto
  have m: "unat ((of_nat (k + (n - 3)) :: u8) AND 0x3F) = n - 3" if "k \<in> {128, 192}" for k
  proof -
    have "(of_nat (k + (n - 3)) :: u8) AND 0x3F = take_bit 6 (of_nat (k + (n - 3)))"
      by (simp add: take_bit_eq_mask mask_eq_exp_minus_1)
    then have "unat ((of_nat (k + (n - 3)) :: u8) AND 0x3F) = take_bit 6 (k + (n - 3))"
      by (simp only: unsigned_take_bit_eq u [OF that])
    also have "\<dots> = n - 3"
    proof -
      have "n - 3 < 64" using assms by simp
      then show ?thesis
        using that mod_add_left_eq [of 128 64 "n - 3"] mod_add_left_eq [of 192 64 "n - 3"]
        by (auto simp only: take_bit_eq_mod) simp_all
    qed
    finally show ?thesis .
  qed
  show "\<not> (of_nat (128 + (n - 3)) :: u8) < 0x80" "(of_nat (128 + (n - 3)) :: u8) < 0xC0"
    "\<not> (of_nat (192 + (n - 3)) :: u8) < 0x80" "\<not> (of_nat (192 + (n - 3)) :: u8) < 0xC0"
    unfolding word_less_nat_alt using u [of 128] u [of 192] assms by (simp_all del: of_nat_add)
  show "unat (((of_nat (128 + (n - 3)) :: u8) AND 0x3F) + 3) = n"
    "unat (((of_nat (192 + (n - 3)) :: u8) AND 0x3F) + 3) = n"
    using m [of 128] m [of 192] assms
      unat_plus_no_wrap [of "(of_nat (128 + (n - 3)) :: u8) AND 0x3F" 3]
      unat_plus_no_wrap [of "(of_nat (192 + (n - 3)) :: u8) AND 0x3F" 3] by (simp_all del: of_nat_add)
qed

lemma distance_bytes:
  assumes "dist < 65536"
  shows "unat ((ucast (of_nat (dist mod 256) :: u8) :: u16) OR push_bit 8 (ucast (of_nat (dist div 256) :: u8))) = dist"
proof -
  let ?l = "ucast (of_nat (dist mod 256) :: u8) :: u16" and ?h = "ucast (of_nat (dist div 256) :: u8) :: u16"
  have "?l AND push_bit 8 ?h = 0"
    by (rule bit_word_eqI) (auto simp: bit_simps dest: bit_imp_le_length)
  then have "?l OR push_bit 8 ?h = ?l + push_bit 8 ?h" by (simp add: disjunctive_add_eq_or)
  moreover have l: "unat ?l = dist mod 256" and h: "unat ?h = dist div 256"
    using assms by (simp_all add: unsigned_ucast_eq take_bit_nat_eq_self_iff unat_of_nat)
  moreover have "unat (push_bit 8 ?h) = 256 * (dist div 256)"
    using assms h by (simp add: push_bit_eq_mult unat_word_ariths mult.commute)
  ultimately show ?thesis using unat_plus_u16 [of ?l "push_bit 8 ?h"] assms by simp
qed

lemma feed_cmd:
  assumes w: "wrote d out" and op: "im_op d = OP_NONE" and ok: "cmd_ok out c"
    and room: "length (expand out c) \<le> unat (im_size d)"
  shows "\<exists>d'. feed_pixels d (encode_cmd c) = Some d' \<and> wrote d' (expand out c) \<and> im_op d' = OP_NONE"
proof (cases c)
  case (Lit bs)
  have l: "1 \<le> length bs" "length bs \<le> 128" using ok Lit by auto
  have b: "unat (of_nat (length bs - 1) :: u8) = length bs - 1" using l by (intro unat_of_nat_u8) simp
  then have lt: "(of_nat (length bs - 1) :: u8) < 0x80" using l by (simp add: word_less_nat_alt)
  let ?d = "d\<lparr>im_op := OP_LITERAL, im_remaining := of_nat (length bs - 1) + 1\<rparr>"
  have r: "unat (of_nat (length bs - 1) + 1 :: u8) = length bs"
    using unat_plus_no_wrap [of "of_nat (length bs - 1) :: u8" 1] b l by simp
  have less: "length out < unat (im_size d)" using room Lit l by simp
  have "\<exists>d'. feed_pixels ?d bs = Some d' \<and> wrote d' (out @ bs) \<and> im_op d' = OP_NONE"
    using w r l room Lit by (intro feed_literal) auto
  moreover have "image_step d (of_nat (length bs - 1)) = Some ?d" using lt op by (simp add: image_step_def)
  ultimately show ?thesis using Lit wrote_room [OF w less] by simp
next
  case (Rep n v)
  have n: "3 \<le> n" "n \<le> 66" using ok Rep by auto
  note b = byte_op_repeat [OF n]
  let ?b = "of_nat (128 + (n - 3)) :: u8"
  let ?d = "d\<lparr>im_op := OP_REPEAT, im_remaining := (?b AND 0x3F) + 3\<rparr>"
  have less: "length out < unat (im_size d)" using room Rep n by simp
  have s1: "image_step d ?b = Some ?d" using b(1,2) op by (simp add: image_step_def del: of_nat_add)
  obtain d1 where d1: "emit_loop (\<lambda>_. v) ?d = Some d1" "wrote d1 (out @ replicate n v)"
    using emit_loop_repeat [of ?d out n v] w b(3) room Rep by auto
  have s2: "image_step ?d v = Some (d1\<lparr>im_op := OP_NONE\<rparr>)" using d1(1) by (simp add: image_step_def del: of_nat_add)
  show ?thesis using Rep wrote_room [OF w less] s1 s2 d1(2) by (simp del: of_nat_add)
next
  case (Copy n dist)
  have n: "3 \<le> n" "n \<le> 66" and dist: "1 \<le> dist" "dist \<le> length out" using ok Copy by auto
  note b = byte_op_repeat [OF n]
  let ?b = "of_nat (192 + (n - 3)) :: u8" and ?l = "of_nat (dist mod 256) :: u8" and ?h = "of_nat (dist div 256) :: u8"
  let ?d = "d\<lparr>im_op := OP_DISTANCE_LOW, im_remaining := (?b AND 0x3F) + 3\<rparr>"
  let ?d2 = "?d\<lparr>im_distance := ucast ?l, im_op := OP_DISTANCE_HIGH\<rparr>"
  let ?d3 = "?d2\<lparr>im_distance := ucast ?l OR push_bit 8 (ucast ?h)\<rparr>"
  have less: "length out < unat (im_size d)" using room Copy n by simp
  have s1: "image_step d ?b = Some ?d" using b(4,5) op by (simp add: image_step_def del: of_nat_add)
  have s2: "image_step ?d ?l = Some ?d2" by (simp add: image_step_def del: of_nat_add)
  have "dist < 65536" using dist less unat_u16_less [of "im_size d"] by linarith
  note dd = distance_bytes [OF this]
  obtain d1 where d1: "emit_loop pixel_back ?d3 = Some d1" "wrote d1 (copy_back n dist out)"
    using emit_loop_copy [of ?d3 out n dist] w b(6) dd dist room Copy by auto
  have f: "unat (im_filled d) = length out" using w by (auto simp: wrote_def)
  have g: "(ucast ?l OR push_bit 8 (ucast ?h) :: u16) \<noteq> 0"
    "\<not> im_filled d < (ucast ?l OR push_bit 8 (ucast ?h) :: u16)"
    using dd dist f by (auto simp: word_less_nat_alt)
  have s3: "image_step ?d2 ?h = Some (d1\<lparr>im_op := OP_NONE\<rparr>)"
    using d1(1) g by (simp add: image_step_def Let_def del: of_nat_add)
  show ?thesis using Copy wrote_room [OF w less] s1 s2 s3 d1(2) by (simp del: of_nat_add)
qed

lemma feed_cmds:
  "wrote d out \<Longrightarrow> im_op d = OP_NONE \<Longrightarrow> cmds_ok out cs \<Longrightarrow> length (foldl expand out cs) \<le> unat (im_size d) \<Longrightarrow>
   \<exists>d'. feed_pixels d (concat (map encode_cmd cs)) = Some d' \<and> wrote d' (foldl expand out cs) \<and> im_op d' = OP_NONE"
proof (induction cs arbitrary: d out)
  case (Cons c cs)
  have "length (expand out c) \<le> unat (im_size d)"
    using Cons.prems(4) length_fold_expand [of "expand out c" cs] by simp
  then obtain d1 where d1: "feed_pixels d (encode_cmd c) = Some d1" "wrote d1 (expand out c)" "im_op d1 = OP_NONE"
    using feed_cmd [OF Cons.prems(1,2)] Cons.prems(3) by auto
  have "im_size d1 = im_size d" using feed_pixels_frame [OF d1(1)] by (simp add: image_frame_def)
  then show ?case
    using Cons.IH [OF d1(2,3)] Cons.prems(3,4) d1(1) by (simp add: feed_pixels_append)
qed simp

section \<open>Properties\<close>

text \<open>
  C15. The decoder does not depend on how a picture is cut into records: when a first piece asks
  for more, feeding it and then the rest gives the same status as feeding both at once and, unless
  the picture is bad, the same decoder and the same number of bytes used.
\<close>

theorem image_feed_pieces:
  assumes "tb_image_feed d a = (TB_IMAGE_MORE, d1, n)"
    and "tb_image_feed d1 b = (st, d2, k)" and "tb_image_feed d (a @ b) = (st', d', u)"
  shows "st' = st \<and> (st = TB_IMAGE_BAD \<or> d' = d2 \<and> u = n + k)"
proof (cases "im_header_ready d")
  case False
  then have a: "feed_header d a 0 = (TB_IMAGE_MORE, d1, n)" using assms(1) by (simp add: tb_image_feed_def)
  note m = feed_header_more_used [OF a]
  have "feed_header d1 b 0 = (st, d2, k)" using assms(2) m False by (simp add: tb_image_feed_def)
  then have "feed_header d1 b n = (st, d2, if st = TB_IMAGE_BAD then k else k + n)"
    using feed_header_offset [of d1 b 0 n] by simp
  moreover have "feed_header d1 b n = (st', d', u)"
    using assms(3) False feed_header_append [OF a, of b] by (simp add: tb_image_feed_def)
  ultimately show ?thesis by auto
next
  case True
  then obtain px where px: "im_pixels d = Some px" and a: "feed_pixels d a = Some d1" "n = length a"
    using assms(1) by (auto simp: tb_image_feed_def split: option.splits if_splits)
  have "im_header_ready d1" "im_pixels d1 \<noteq> None"
    using feed_pixels_frame [OF a(1)] True px by (auto simp: image_frame_def)
  then show ?thesis
    using assms(2,3) True px a feed_pixels_append [of d a b]
    by (cases "feed_pixels d1 b") (auto simp: tb_image_feed_def)
qed

definition sample_decoder :: TbImageDecoder where
  "sample_decoder = tb_image_reset\<lparr>im_header_ready := True, im_size := 4, im_pixels := Some [0, 0, 0, 0]\<rparr>"

lemma sample_decoder_literal:
  "tb_image_feed sample_decoder [0] =
     (TB_IMAGE_MORE, sample_decoder\<lparr>im_op := OP_LITERAL, im_remaining := 1\<rparr>, 1)"
  by (simp add: tb_image_feed_def sample_decoder_def tb_image_reset_def image_step_def)

theorem image_feed_pieces_witness:
  "fst (tb_image_feed sample_decoder ([0] @ [7])) =
     fst (tb_image_feed (sample_decoder\<lparr>im_op := OP_LITERAL, im_remaining := 1\<rparr>) [7])"
proof -
  obtain st d2 k where b: "tb_image_feed (sample_decoder\<lparr>im_op := OP_LITERAL, im_remaining := 1\<rparr>) [7] = (st, d2, k)"
    by (metis prod_cases3)
  obtain st' d' u where c: "tb_image_feed sample_decoder ([0] @ [7]) = (st', d', u)" by (metis prod_cases3)
  show ?thesis using image_feed_pieces [OF sample_decoder_literal b c] b c by simp
qed



text \<open>
  C17. The decoder inverts the compressed format: given the encoding of literal, repeat and copy
  commands that expand to exactly the announced size, it fills the buffer with their expansion and
  accepts the picture exactly when its checksum is the one in the header.
\<close>

theorem image_decompress_roundtrip:
  assumes "im_header_ready d" and "wrote d []" and "im_op d = OP_NONE" and "cmds_ok [] cs"
    and "length (foldl expand [] cs) = unat (im_size d)"
  shows "\<exists>d'. tb_image_feed d (concat (map encode_cmd cs)) =
       (if tb_image_crc 0 (foldl expand [] cs) (unat (im_size d)) = ih_crc (im_header d)
        then TB_IMAGE_DONE else TB_IMAGE_BAD, d', length (concat (map encode_cmd cs))) \<and>
     im_pixels d' = Some (foldl expand [] cs)"
proof -
  obtain d' where d': "feed_pixels d (concat (map encode_cmd cs)) = Some d'"
      "wrote d' (foldl expand [] cs)" "im_op d' = OP_NONE"
    using feed_cmds [OF assms(2,3,4)] assms(5) by auto
  note fr = feed_pixels_frame [OF d'(1)]
  have size: "im_size d' = im_size d" and head: "im_header d' = im_header d" using fr by (simp_all add: image_frame_def)
  have px: "im_pixels d' = Some (foldl expand [] cs)" and full: "unat (im_filled d') = unat (im_size d)"
    using d'(2) assms(5) size by (auto simp: wrote_def)
  obtain px0 where "im_pixels d = Some px0" using assms(2) by (auto simp: wrote_def)
  then show ?thesis
    using assms(1) d' px full size head by (auto simp: tb_image_feed_def word_less_nat_alt)
qed

theorem image_decompress_roundtrip_witness:
  "\<exists>d'. snd (tb_image_feed sample_decoder [0, 7, 128, 9]) = (d', 4) \<and> im_pixels d' = Some [7, 9, 9, 9]"
proof -
  have w: "wrote sample_decoder []" by (simp add: wrote_def sample_decoder_def tb_image_reset_def)
  have e: "concat (map encode_cmd [Lit [7], Rep 3 9]) = [0, 7, 128, 9]" by simp
  have x: "foldl expand [] [Lit [7], Rep 3 9] = [7, 9, 9, 9]" by (simp add: numeral_3_eq_3)
  have "\<exists>d'. tb_image_feed sample_decoder [0, 7, 128, 9] =
       (if tb_image_crc 0 [7, 9, 9, 9] (unat (im_size sample_decoder)) = ih_crc (im_header sample_decoder)
        then TB_IMAGE_DONE else TB_IMAGE_BAD, d', length [0 :: u8, 7, 128, 9]) \<and>
     im_pixels d' = Some [7, 9, 9, 9]"
    using image_decompress_roundtrip [of sample_decoder "[Lit [7], Rep 3 9]", unfolded e x, OF _ w]
    by (simp add: sample_decoder_def tb_image_reset_def)
  then show ?thesis by auto
qed

end
