(* ===== verification/Notify.thy ===== *)
theory Notify
  imports Prelude
begin

text \<open>
  The notification queue (\<^verbatim>\<open>notify.h\<close>, \<^verbatim>\<open>notify.c\<close>): at most one notification per source,
  the one to show chosen by level and age, informational ones expiring. The array holds \<open>count\<close>
  live entries and is the list of them.
\<close>

section \<open>Data\<close>

abbreviation (input) TB_NOTIFY_CAPACITY :: nat where "TB_NOTIFY_CAPACITY \<equiv> 3"
abbreviation (input) TB_NOTIFY_INFO_TTL :: u32 where "TB_NOTIFY_INFO_TTL \<equiv> 5000"
abbreviation (input) TB_NOTIFY_TITLE_SIZE :: nat where "TB_NOTIFY_TITLE_SIZE \<equiv> 33"
abbreviation (input) TB_NOTIFY_BODY_SIZE :: nat where "TB_NOTIFY_BODY_SIZE \<equiv> 97"

datatype TbNotifyLevel = TB_NOTIFY_INFO | TB_NOTIFY_WARNING | TB_NOTIFY_ERROR

datatype TbNotifyAction =
  TB_NOTIFY_NO_ACTION | TB_NOTIFY_REFRESH | TB_NOTIFY_OPEN_CHAT | TB_NOTIFY_CHECK | TB_NOTIFY_WAIT

datatype TbNotifySource = TB_NOTIFY_CONNECTION | TB_NOTIFY_CHATS | TB_NOTIFY_SEND

text \<open>The levels compare as the values of the C enumeration.\<close>

fun level_rank :: "TbNotifyLevel \<Rightarrow> nat" where
  "level_rank TB_NOTIFY_INFO = 0"
| "level_rank TB_NOTIFY_WARNING = 1"
| "level_rank TB_NOTIFY_ERROR = 2"

lemma level_rank_inject [simp]: "level_rank a = level_rank b \<longleftrightarrow> a = b"
  by (cases a; cases b) simp_all

instantiation TbNotifyLevel :: linorder
begin

definition less_eq_TbNotifyLevel :: "TbNotifyLevel \<Rightarrow> TbNotifyLevel \<Rightarrow> bool" where
  "less_eq_TbNotifyLevel a b \<longleftrightarrow> level_rank a \<le> level_rank b"

definition less_TbNotifyLevel :: "TbNotifyLevel \<Rightarrow> TbNotifyLevel \<Rightarrow> bool" where
  "less_TbNotifyLevel a b \<longleftrightarrow> level_rank a < level_rank b"

instance
  by standard (auto simp: less_eq_TbNotifyLevel_def less_TbNotifyLevel_def simp flip: level_rank_inject)

end

record TbNotification =
  no_source :: TbNotifySource
  no_level :: TbNotifyLevel
  no_action :: TbNotifyAction
  no_serial :: u32
  no_expires :: u32
  no_title :: cstring
  no_body :: cstring

record 'v TbNotifyPorts =
  np_changed :: "'v \<Rightarrow> 'v"
  np_schedule :: "'v \<Rightarrow> u32 \<Rightarrow> bool \<times> 'v"
  np_cancel :: "'v \<Rightarrow> 'v"
  np_now :: "'v \<Rightarrow> u32"

record 'v TbNotify =
  nt_ports :: "'v TbNotifyPorts"
  nt_context :: 'v
  nt_items :: "TbNotification list"
  nt_serial :: u32
  nt_focused :: bool

section \<open>Operations\<close>

definition notify_now :: "'v TbNotify \<Rightarrow> u32" where
  "notify_now n = np_now (nt_ports n) (nt_context n)"

definition notify_expired :: "u32 \<Rightarrow> u32 \<Rightarrow> bool" where
  "notify_expired current at \<longleftrightarrow> at \<noteq> 0 \<and> reached current at"

text \<open>\<open>a\<close> is shown rather than \<open>b\<close>.\<close>

definition outranks :: "TbNotification \<Rightarrow> TbNotification \<Rightarrow> bool" where
  "outranks a b \<longleftrightarrow> no_level a > no_level b \<or> no_level a = no_level b \<and> no_serial a > no_serial b"

definition top_index :: "TbNotification list \<Rightarrow> nat option" where
  "top_index items =
     foldl (\<lambda>best i. case best of
                None \<Rightarrow> Some i
              | Some b \<Rightarrow> if outranks (items ! i) (items ! b) then Some i else Some b)
       None [0..<length items]"

definition remove_at :: "'a list \<Rightarrow> nat \<Rightarrow> 'a list" where
  "remove_at items i = take i items @ drop (i + 1) items"

definition notify_arm :: "'v TbNotify \<Rightarrow> 'v TbNotify" where
  "notify_arm n =
     (let v = np_cancel (nt_ports n) (nt_context n); current = np_now (nt_ports n) v;
          rs = map (\<lambda>it. if notify_expired current (no_expires it) then 0 else no_expires it - current)
                 (filter (\<lambda>it. no_expires it \<noteq> 0) (nt_items n))
      in case earliest rs of
           None \<Rightarrow> n\<lparr>nt_context := v\<rparr>
         | Some e \<Rightarrow> n\<lparr>nt_context := snd (np_schedule (nt_ports n) v (if e = 0 then 1 else e))\<rparr>)"

definition notify_changed :: "'v TbNotify \<Rightarrow> 'v TbNotify" where
  "notify_changed n =
     (let n1 = notify_arm (if nt_items n = [] then n\<lparr>nt_focused := False\<rparr> else n)
      in n1\<lparr>nt_context := np_changed (nt_ports n1) (nt_context n1)\<rparr>)"

definition tb_notify_init :: "'v TbNotifyPorts \<Rightarrow> 'v \<Rightarrow> 'v TbNotify" where
  "tb_notify_init ports context =
     \<lparr>nt_ports = ports, nt_context = context, nt_items = [], nt_serial = 0, nt_focused = False\<rparr>"

text \<open>The last entry of the source, as the search loop leaves it.\<close>

definition source_slot :: "TbNotification list \<Rightarrow> TbNotifySource \<Rightarrow> nat option" where
  "source_slot items source =
     foldl (\<lambda>slot i. if no_source (items ! i) = source then Some i else slot) None [0..<length items]"

definition weakest_index :: "TbNotification list \<Rightarrow> nat" where
  "weakest_index items =
     foldl (\<lambda>w i. if outranks (items ! w) (items ! i) then i else w) 0 [1..<length items]"

definition info_expires :: "u32 \<Rightarrow> TbNotifyLevel \<Rightarrow> u32" where
  "info_expires now level =
     (if level = TB_NOTIFY_INFO then (let e = now + TB_NOTIFY_INFO_TTL in if e = 0 then 1 else e) else 0)"

definition notify_put ::
  "'v TbNotify \<Rightarrow> nat \<Rightarrow> TbNotifySource \<Rightarrow> TbNotifyLevel \<Rightarrow> TbNotifyAction \<Rightarrow> cstring \<Rightarrow> cstring \<Rightarrow> 'v TbNotify" where
  "notify_put n slot source level action title body =
     (let item = \<lparr>no_source = source, no_level = level, no_action = action,
                  no_serial = nt_serial n + 1, no_expires = info_expires (notify_now n) level,
                  no_title = strncpy TB_NOTIFY_TITLE_SIZE title,
                  no_body = strncpy TB_NOTIFY_BODY_SIZE body\<rparr>
      in notify_changed (n\<lparr>nt_serial := nt_serial n + 1,
           nt_items := (if slot < length (nt_items n) then (nt_items n)[slot := item]
                        else nt_items n @ [item])\<rparr>))"

definition tb_notify_post ::
  "'v TbNotify \<Rightarrow> TbNotifySource \<Rightarrow> TbNotifyLevel \<Rightarrow> TbNotifyAction \<Rightarrow> cstring option \<Rightarrow> cstring option \<Rightarrow>
   'v TbNotify \<times> bool" where
  "tb_notify_post n source level action title0 body0 =
     (let title = (case title0 of None \<Rightarrow> [] | Some t \<Rightarrow> t); body = (case body0 of None \<Rightarrow> [] | Some b \<Rightarrow> b);
          items = nt_items n
      in case source_slot items source of
           Some slot \<Rightarrow>
             (let existing = items ! slot
              in if no_level existing = level \<and> no_action existing = action \<and>
                    no_title existing = title \<and> no_body existing = body
                 then (notify_arm (n\<lparr>nt_items := items[slot := existing
                         \<lparr>no_expires := info_expires (notify_now n) level\<rparr>]\<rparr>), True)
                 else (notify_put n slot source level action title body, True))
         | None \<Rightarrow>
             if length items < TB_NOTIFY_CAPACITY
             then (notify_put n (length items) source level action title body, True)
             else (let weakest = weakest_index items
                   in if no_level (items ! weakest) > level then (n, False)
                      else (notify_put n weakest source level action title body, True)))"

text \<open>\<open>for (index = count - 1; index >= 0; --index) { if (P) { remove_at(index); removed = true; } }\<close>\<close>

definition remove_down :: "('a \<Rightarrow> bool) \<Rightarrow> 'a list \<Rightarrow> 'a list \<times> bool" where
  "remove_down P items =
     fold (\<lambda>i (xs, removed). if P (xs ! i) then (remove_at xs i, True) else (xs, removed))
       (rev [0..<length items]) (items, False)"

definition tb_notify_clear :: "'v TbNotify \<Rightarrow> TbNotifySource \<Rightarrow> 'v TbNotify" where
  "tb_notify_clear n source =
     (case remove_down (\<lambda>it. no_source it = source) (nt_items n) of
        (items, removed) \<Rightarrow> if removed then notify_changed (n\<lparr>nt_items := items\<rparr>) else n)"

definition tb_notify_dismiss :: "'v TbNotify \<Rightarrow> 'v TbNotify" where
  "tb_notify_dismiss n =
     (case top_index (nt_items n) of
        None \<Rightarrow> n
      | Some i \<Rightarrow> notify_changed (n\<lparr>nt_items := remove_at (nt_items n) i, nt_focused := False\<rparr>))"

definition tb_notify_top :: "'v TbNotify \<Rightarrow> TbNotification option" where
  "tb_notify_top n = map_option (\<lambda>i. nt_items n ! i) (top_index (nt_items n))"

definition tb_notify_focus :: "'v TbNotify \<Rightarrow> bool \<Rightarrow> 'v TbNotify" where
  "tb_notify_focus n focused =
     (let v = (focused \<and> nt_items n \<noteq> [])
      in if nt_focused n = v then n
         else n\<lparr>nt_focused := v, nt_context := np_changed (nt_ports n) (nt_context n)\<rparr>)"

definition tb_notify_timer :: "'v TbNotify \<Rightarrow> 'v TbNotify" where
  "tb_notify_timer n =
     (let current = notify_now n
      in case remove_down (\<lambda>it. notify_expired current (no_expires it)) (nt_items n) of
           (items, removed) \<Rightarrow>
             if removed then notify_changed (n\<lparr>nt_items := items\<rparr>) else notify_arm n)"

definition tb_notify_reset :: "'v TbNotify \<Rightarrow> 'v TbNotify" where
  "tb_notify_reset n =
     n\<lparr>nt_context := np_cancel (nt_ports n) (nt_context n), nt_items := [], nt_focused := False\<rparr>"

section \<open>The loops\<close>

lemma remove_down_prefix:
  "fold (\<lambda>i (xs, removed). if P (xs ! i) then (remove_at xs i, True) else (xs, removed))
     (rev [0..<k]) (ys @ zs, r) = (filter (\<lambda>x. \<not> P x) ys @ zs, r \<or> (\<exists>x \<in> set ys. P x))"
  if "length ys = k"
  using that
proof (induction k arbitrary: ys zs r)
  case (Suc k)
  then obtain us u where ys: "ys = us @ [u]" "length us = k" by (metis length_Suc_conv_rev)
  have "(us @ [u]) @ zs = us @ (u # zs)" "(us @ u # zs) ! k = u" using ys by (simp_all add: nth_append)
  moreover have "remove_at (us @ u # zs) k = us @ zs" using ys by (simp add: remove_at_def)
  ultimately show ?case
    using Suc.IH [of us zs True] Suc.IH [of us "u # zs" r] ys by auto
qed simp

lemma remove_down_eq: "remove_down P items = (filter (\<lambda>x. \<not> P x) items, \<exists>x \<in> set items. P x)"
  using remove_down_prefix [of items "length items" P "[]" False] by (simp add: remove_down_def)

lemma source_slot_prefix:
  "foldl (\<lambda>slot i. if no_source (items ! i) = source then Some i else slot) None [0..<k] = Some i \<Longrightarrow>
   i < k \<and> no_source (items ! i) = source"
  by (induction k) (auto split: if_splits)

lemma source_slot_None_prefix:
  "foldl (\<lambda>slot i. if no_source (items ! i) = source then Some i else slot) None [0..<k] = None \<longleftrightarrow>
   (\<forall>i<k. no_source (items ! i) \<noteq> source)"
  by (induction k) (auto simp: less_Suc_eq)

lemma source_slot_Some:
  "source_slot items source = Some i \<Longrightarrow> i < length items \<and> no_source (items ! i) = source"
  unfolding source_slot_def by (rule source_slot_prefix)

lemma source_slot_None: "source_slot items source = None \<longleftrightarrow> source \<notin> no_source ` set items"
  unfolding source_slot_def source_slot_None_prefix by (metis image_iff in_set_conv_nth)

lemma outranks_trans: "outranks a b \<Longrightarrow> outranks b c \<Longrightarrow> outranks a c"
  by (auto simp: outranks_def)

lemma not_outranks_trans: "\<not> outranks b a \<Longrightarrow> outranks b c \<Longrightarrow> \<not> outranks c a"
  by (auto simp: outranks_def)

lemma top_index_prefix:
  "0 < k \<Longrightarrow> \<exists>b. foldl (\<lambda>best i. case best of None \<Rightarrow> Some i
      | Some b \<Rightarrow> if outranks (items ! i) (items ! b) then Some i else Some b) None [0..<k] = Some b \<and>
     b < k \<and> (\<forall>i<k. \<not> outranks (items ! i) (items ! b))"
proof (induction k)
  case (Suc k)
  show ?case
  proof (cases "k = 0")
    case True
    then show ?thesis by (auto simp: outranks_def)
  next
    case False
    then obtain b where "foldl (\<lambda>best i. case best of None \<Rightarrow> Some i
        | Some b \<Rightarrow> if outranks (items ! i) (items ! b) then Some i else Some b) None [0..<k] = Some b"
        "b < k" "\<forall>i<k. \<not> outranks (items ! i) (items ! b)"
      using Suc.IH by auto
    then show ?thesis
      by (auto simp: less_Suc_eq dest: outranks_trans) (auto simp: outranks_def)
  qed
qed simp

lemma top_index_None: "top_index items = None \<longleftrightarrow> items = []"
proof (cases "items = []")
  case False
  then show ?thesis using top_index_prefix [of "length items" items] unfolding top_index_def by auto
qed (simp add: top_index_def)

lemma top_index_Some:
  "top_index items = Some b \<Longrightarrow> b < length items \<and> (\<forall>i<length items. \<not> outranks (items ! i) (items ! b))"
  using top_index_prefix [of "length items" items] top_index_None [of items]
  unfolding top_index_def by (cases "items = []") auto

lemma set_remove_at: "set (remove_at items i) \<subseteq> set items"
  by (auto simp: remove_at_def dest: in_set_takeD in_set_dropD)

lemma distinct_remove_at: "distinct (map f items) \<Longrightarrow> distinct (map f (remove_at items i))"
proof -
  assume d: "distinct (map f items)"
  have "distinct (map f (take i items @ drop i items))" using d by simp
  then have "distinct (map f (take i items @ tl (drop i items)))"
    by (cases "drop i items") auto
  then show ?thesis by (simp add: remove_at_def drop_Suc tl_drop)
qed

section \<open>Invariant\<close>

definition item_ok :: "TbNotification \<Rightarrow> bool" where
  "item_ok it \<longleftrightarrow> length (no_title it) < TB_NOTIFY_TITLE_SIZE \<and> 0 \<notin> set (no_title it) \<and>
     length (no_body it) < TB_NOTIFY_BODY_SIZE \<and> 0 \<notin> set (no_body it) \<and>
     (no_expires it \<noteq> 0 \<longleftrightarrow> no_level it = TB_NOTIFY_INFO)"

definition items_ok :: "TbNotification list \<Rightarrow> bool" where
  "items_ok items \<longleftrightarrow> distinct (map no_source items) \<and> (\<forall>it \<in> set items. item_ok it)"

definition notify_inv :: "'v TbNotify \<Rightarrow> bool" where
  "notify_inv n \<longleftrightarrow> items_ok (nt_items n) \<and> (nt_focused n \<longrightarrow> nt_items n \<noteq> [])"

text \<open>One notification per source, so the array never holds more than its capacity.\<close>

lemma sources_card: "distinct (map no_source items) \<Longrightarrow> length items \<le> TB_NOTIFY_CAPACITY"
proof -
  assume d: "distinct (map no_source items)"
  have "set (map no_source items) \<subseteq> {TB_NOTIFY_CONNECTION, TB_NOTIFY_CHATS, TB_NOTIFY_SEND}"
    using TbNotifySource.exhaust by auto
  then have "card (set (map no_source items)) \<le> card {TB_NOTIFY_CONNECTION, TB_NOTIFY_CHATS, TB_NOTIFY_SEND}"
    by (intro card_mono) auto
  then show ?thesis using distinct_card [OF d] by simp
qed

lemma notify_arm_frame [simp]:
  "nt_items (notify_arm n) = nt_items n" "nt_focused (notify_arm n) = nt_focused n"
  "nt_serial (notify_arm n) = nt_serial n"
  by (simp_all add: notify_arm_def Let_def split: option.splits)

lemma notify_changed_items [simp]: "nt_items (notify_changed n) = nt_items n"
  by (simp add: notify_changed_def Let_def)

lemma notify_changed_inv: "items_ok (nt_items n) \<Longrightarrow> notify_inv (notify_changed n)"
  by (simp add: notify_inv_def notify_changed_def Let_def) (simp add: items_ok_def)

lemma info_expires_zero [simp]: "info_expires now level = 0 \<longleftrightarrow> level \<noteq> TB_NOTIFY_INFO"
  by (simp add: info_expires_def Let_def)

lemma strncpy_no_nul [simp]: "0 \<notin> set (strncpy n s)"
  by (auto simp: strncpy_def dest: in_set_takeD)

definition new_item :: "'v TbNotify \<Rightarrow> TbNotifySource \<Rightarrow> TbNotifyLevel \<Rightarrow> TbNotifyAction \<Rightarrow> cstring \<Rightarrow> cstring \<Rightarrow> TbNotification" where
  "new_item n source level action title body =
     \<lparr>no_source = source, no_level = level, no_action = action, no_serial = nt_serial n + 1,
      no_expires = info_expires (notify_now n) level, no_title = strncpy TB_NOTIFY_TITLE_SIZE title,
      no_body = strncpy TB_NOTIFY_BODY_SIZE body\<rparr>"

lemma new_item_ok [simp]: "item_ok (new_item n source level action title body)"
  by (simp add: item_ok_def new_item_def strncpy_less)

lemma new_item_source [simp]: "no_source (new_item n source level action title body) = source"
  by (simp add: new_item_def)

lemma put_items:
  "nt_items (notify_put n slot source level action title body) =
     (if slot < length (nt_items n) then (nt_items n)[slot := new_item n source level action title body]
      else nt_items n @ [new_item n source level action title body])"
  by (simp add: notify_put_def Let_def new_item_def)

lemma items_ok_update:
  assumes "items_ok items" and "i < length items" and "no_source it = no_source (items ! i)" and "item_ok it"
  shows "items_ok (items[i := it])"
proof -
  have "map no_source (items[i := it]) = map no_source items"
    using assms(2,3) by (simp add: map_update list_update_same_conv)
  then show ?thesis using assms(1,4) set_update_subset_insert [of items i it] by (auto simp: items_ok_def)
qed

lemma items_ok_snoc:
  "items_ok items \<Longrightarrow> item_ok it \<Longrightarrow> no_source it \<notin> no_source ` set items \<Longrightarrow> items_ok (items @ [it])"
  by (auto simp: items_ok_def)

text \<open>The two ways a post ends; the third branch of the code, an eviction, cannot be reached.\<close>

lemma post_cases:
  assumes ok: "items_ok (nt_items n)"
  obtains (refresh) i where "i < length (nt_items n)" "no_source (nt_items n ! i) = source"
      "no_level (nt_items n ! i) = level" "no_action (nt_items n ! i) = action"
      "no_title (nt_items n ! i) = (case title of None \<Rightarrow> [] | Some t \<Rightarrow> t)"
      "no_body (nt_items n ! i) = (case body of None \<Rightarrow> [] | Some b \<Rightarrow> b)"
      "tb_notify_post n source level action title body =
         (notify_arm (n\<lparr>nt_items := (nt_items n)[i := (nt_items n ! i)
            \<lparr>no_expires := info_expires (notify_now n) level\<rparr>]\<rparr>), True)"
  | (replace) i where "i < length (nt_items n)" "no_source (nt_items n ! i) = source"
      "tb_notify_post n source level action title body = (notify_put n i source level action
         (case title of None \<Rightarrow> [] | Some t \<Rightarrow> t) (case body of None \<Rightarrow> [] | Some b \<Rightarrow> b), True)"
  | (add) "source \<notin> no_source ` set (nt_items n)" "length (nt_items n) < TB_NOTIFY_CAPACITY"
      "tb_notify_post n source level action title body = (notify_put n (length (nt_items n)) source level action
         (case title of None \<Rightarrow> [] | Some t \<Rightarrow> t) (case body of None \<Rightarrow> [] | Some b \<Rightarrow> b), True)"
proof (cases "source_slot (nt_items n) source")
  case None
  then have fresh: "source \<notin> no_source ` set (nt_items n)" by (simp add: source_slot_None)
  then have "distinct (map no_source (nt_items n @ [new_item n source level action [] []]))"
    using ok by (auto simp: items_ok_def)
  from sources_card [OF this] have "length (nt_items n) < TB_NOTIFY_CAPACITY" by simp
  then show thesis using add fresh None by (simp add: tb_notify_post_def Let_def)
next
  case (Some i)
  note i = source_slot_Some [OF Some]
  show thesis
  proof (cases "no_level (nt_items n ! i) = level \<and> no_action (nt_items n ! i) = action \<and>
      no_title (nt_items n ! i) = (case title of None \<Rightarrow> [] | Some t \<Rightarrow> t) \<and>
      no_body (nt_items n ! i) = (case body of None \<Rightarrow> [] | Some b \<Rightarrow> b)")
    case True
    then show thesis using i Some by (intro refresh [of i]) (simp_all add: tb_notify_post_def Let_def)
  next
    case False
    then show thesis using i Some by (intro replace [of i]) (auto simp: tb_notify_post_def Let_def)
  qed
qed

lemma post_inv:
  assumes inv: "notify_inv n"
  shows "notify_inv (fst (tb_notify_post n source level action title body))"
proof -
  have ok: "items_ok (nt_items n)" using inv by (simp add: notify_inv_def)
  then show ?thesis
  proof (cases rule: post_cases [where source = source and level = level and action = action
        and title = title and body = body])
    case (refresh i)
    let ?it = "(nt_items n ! i)\<lparr>no_expires := info_expires (notify_now n) level\<rparr>"
    have "item_ok (nt_items n ! i)" using ok refresh(1) by (simp add: items_ok_def)
    then have "item_ok ?it" using refresh(3) by (simp add: item_ok_def)
    then have "items_ok ((nt_items n)[i := ?it])" using ok refresh(1) by (intro items_ok_update) simp_all
    then show ?thesis using inv refresh by (auto simp: notify_inv_def)
  next
    case (replace i)
    then show ?thesis using ok
      by (auto simp: notify_put_def Let_def simp flip: new_item_def
          intro!: notify_changed_inv items_ok_update)
  next
    case add
    then show ?thesis using ok
      by (auto simp: notify_put_def Let_def simp flip: new_item_def
          intro!: notify_changed_inv items_ok_snoc)
  qed
qed

lemma items_ok_filter: "items_ok items \<Longrightarrow> items_ok (filter P items)"
  by (auto simp: items_ok_def distinct_map_filter)

lemma items_ok_remove_at: "items_ok items \<Longrightarrow> items_ok (remove_at items i)"
  using set_remove_at [of items i] by (auto simp: items_ok_def distinct_remove_at)

inductive notify_step :: "'v TbNotify \<Rightarrow> 'v TbNotify \<Rightarrow> bool" where
  ns_post: "notify_step n (fst (tb_notify_post n source level action title body))"
| ns_clear: "notify_step n (tb_notify_clear n source)"
| ns_dismiss: "notify_step n (tb_notify_dismiss n)"
| ns_focus: "notify_step n (tb_notify_focus n focused)"
| ns_timer: "notify_step n (tb_notify_timer n)"
| ns_reset: "notify_step n (tb_notify_reset n)"
| ns_platform: "notify_step n (n\<lparr>nt_context := v\<rparr>)"

lemma notify_step_inv: "notify_step n n' \<Longrightarrow> notify_inv n \<Longrightarrow> notify_inv n'"
proof (induction rule: notify_step.induct)
  case (ns_clear n source)
  then show ?case
    by (auto simp: tb_notify_clear_def remove_down_eq notify_inv_def [of n] intro!: notify_changed_inv items_ok_filter)
next
  case (ns_dismiss n)
  then show ?case
    by (auto simp: tb_notify_dismiss_def notify_inv_def [of n] intro!: notify_changed_inv items_ok_remove_at split: option.splits)
next
  case (ns_timer n)
  then show ?case
    by (auto simp: tb_notify_timer_def Let_def remove_down_eq notify_inv_def [of n] notify_inv_def [of "notify_arm n"]
        intro!: notify_changed_inv items_ok_filter)
next
  case (ns_focus n focused)
  then show ?case by (simp add: tb_notify_focus_def Let_def notify_inv_def)
next
  case (ns_reset n)
  then show ?case by (simp add: tb_notify_reset_def notify_inv_def items_ok_def)
qed (simp_all add: post_inv, simp add: notify_inv_def)

lemma notify_steps_inv: "notify_step\<^sup>*\<^sup>* n n' \<Longrightarrow> notify_inv n \<Longrightarrow> notify_inv n'"
  by (induction rule: rtranclp_induct) (auto dest: notify_step_inv)

lemma notify_init_inv: "notify_inv (tb_notify_init ports context)"
  by (simp add: tb_notify_init_def notify_inv_def items_ok_def)

section \<open>The queue as a map\<close>

text \<open>What the queue promises: a map from sources to notifications.\<close>

definition item_of :: "TbNotification list \<Rightarrow> TbNotifySource \<Rightarrow> TbNotification option" where
  "item_of items source = List.find (\<lambda>it. no_source it = source) items"

lemma item_of_iff:
  assumes "items_ok items"
  shows "item_of items source = Some it \<longleftrightarrow> it \<in> set items \<and> no_source it = source"
  using assms
proof (induction items)
  case (Cons a items)
  then have "items_ok items" "no_source a \<notin> no_source ` set items" by (auto simp: items_ok_def)
  then show ?case using Cons.IH by (auto simp: item_of_def)
qed (simp add: item_of_def)

lemma item_of_None: "item_of items source = None \<longleftrightarrow> source \<notin> no_source ` set items"
  by (auto simp: item_of_def find_None_iff)

lemma item_of_eqI:
  assumes "items_ok items" and "items_ok items'"
    and "\<And>it. no_source it = source \<Longrightarrow> it \<in> set items \<longleftrightarrow> it \<in> set items'"
  shows "item_of items source = item_of items' source"
proof (cases "item_of items source")
  case None
  then have "item_of items' source = None" using assms(3) by (auto simp: item_of_None)
  then show ?thesis using None by simp
next
  case (Some it)
  then have "item_of items' source = Some it" using assms(1,2) assms(3) [of it] by (simp add: item_of_iff)
  then show ?thesis using Some by simp
qed

lemma set_update_keyed:
  assumes "items_ok items" and "i < length items"
  shows "set (items[i := it]) = insert it (set items - {items ! i})"
proof -
  have "distinct items" using assms(1) by (simp add: items_ok_def distinct_map)
  then show ?thesis using assms(2) by (rule set_update_distinct)
qed

lemma item_of_update:
  assumes ok: "items_ok items" and i: "i < length items" and it: "no_source it = no_source (items ! i)" "item_ok it"
  shows "item_of (items[i := it]) s = (if s = no_source it then Some it else item_of items s)"
proof -
  note ok' = items_ok_update [OF ok i it]
  have "it \<in> set (items[i := it])" using i by (simp add: set_update_memI)
  moreover have "item_of (items[i := it]) s = item_of items s" if "s \<noteq> no_source it"
    using that it by (intro item_of_eqI [OF ok' ok]) (auto simp: set_update_keyed [OF ok i])
  ultimately show ?thesis using item_of_iff [OF ok'] by auto
qed

lemma item_of_snoc:
  "items_ok (items @ [it]) \<Longrightarrow> item_of (items @ [it]) s = (if s = no_source it then Some it else item_of items s)"
proof -
  assume ok: "items_ok (items @ [it])"
  then have ok0: "items_ok items" by (simp add: items_ok_def)
  have "item_of (items @ [it]) s = item_of items s" if "s \<noteq> no_source it"
    using that by (intro item_of_eqI [OF ok ok0]) auto
  then show ?thesis using item_of_iff [OF ok] by auto
qed

section \<open>Properties\<close>

text \<open>
  Whatever is posted, cleared, dismissed and expired, the queue holds at most one notification
  per source, hence at most three, titles and bodies fit their arrays, exactly the informational
  notifications carry an expiry, and the focus is never on an empty queue.
\<close>

lemma notify_reachable_inv:
  assumes "notify_step\<^sup>*\<^sup>* (tb_notify_init ports context) n"
  shows "length (nt_items n) \<le> TB_NOTIFY_CAPACITY \<and> distinct (map no_source (nt_items n)) \<and>
     (\<forall>it \<in> set (nt_items n). length (no_title it) < TB_NOTIFY_TITLE_SIZE \<and>
        length (no_body it) < TB_NOTIFY_BODY_SIZE \<and> (no_expires it \<noteq> 0 \<longleftrightarrow> no_level it = TB_NOTIFY_INFO)) \<and>
     (nt_focused n \<longrightarrow> nt_items n \<noteq> [])"
proof -
  have "notify_inv n" using notify_steps_inv [OF assms notify_init_inv] .
  then show ?thesis using sources_card [of "nt_items n"]
    by (auto simp: notify_inv_def items_ok_def item_ok_def)
qed

definition sample_notify_ports :: "nat TbNotifyPorts" where
  "sample_notify_ports = \<lparr>np_changed = Suc, np_schedule = (\<lambda>v ms. (True, v)), np_cancel = (\<lambda>v. v), np_now = (\<lambda>v. 7)\<rparr>"

text \<open>
  C19. A post always succeeds and updates the queue as a map: the notification of its source has
  the posted level, action and (truncated) texts, with an expiry exactly when it is informational,
  and the notifications of the other sources are unchanged. The eviction branch is never needed.
\<close>

theorem notify_post_updates:
  assumes "notify_inv n" and "tb_notify_post n source level action title body = (n', ok)"
  shows "ok \<and> (\<exists>it. item_of (nt_items n') = (item_of (nt_items n))(source \<mapsto> it) \<and>
     no_level it = level \<and> no_action it = action \<and> no_expires it = info_expires (notify_now n) level \<and>
     no_title it = strncpy TB_NOTIFY_TITLE_SIZE (case title of None \<Rightarrow> [] | Some t \<Rightarrow> t) \<and>
     no_body it = strncpy TB_NOTIFY_BODY_SIZE (case body of None \<Rightarrow> [] | Some b \<Rightarrow> b))"
proof -
  have ok: "items_ok (nt_items n)" using assms(1) by (simp add: notify_inv_def)
  let ?new = "new_item n source level action (case title of None \<Rightarrow> [] | Some t \<Rightarrow> t) (case body of None \<Rightarrow> [] | Some b \<Rightarrow> b)"
  from ok show ?thesis
  proof (cases rule: post_cases [where source = source and level = level and action = action
        and title = title and body = body])
    case (refresh i)
    let ?it = "(nt_items n ! i)\<lparr>no_expires := info_expires (notify_now n) level\<rparr>"
    have old: "item_ok (nt_items n ! i)" using ok refresh(1) by (simp add: items_ok_def)
    then have it: "item_ok ?it" using refresh(3) by (simp add: item_ok_def)
    have "item_of (nt_items n') = (item_of (nt_items n))(source \<mapsto> ?it)"
      using assms(2) refresh item_of_update [OF ok refresh(1) _ it] by (auto simp: fun_eq_iff)
    moreover have "no_title ?it = strncpy TB_NOTIFY_TITLE_SIZE (no_title ?it)"
      "no_body ?it = strncpy TB_NOTIFY_BODY_SIZE (no_body ?it)"
      using old by (simp_all add: item_ok_def strncpy_fits)
    ultimately show ?thesis using refresh assms(2) by (intro conjI exI [of _ ?it]) simp_all
  next
    case (replace i)
    have "item_of (nt_items n') = (item_of (nt_items n))(source \<mapsto> ?new)"
      using assms(2) replace item_of_update [OF ok replace(1), of ?new] by (auto simp: put_items fun_eq_iff)
    then show ?thesis using replace assms(2) by (intro conjI exI [of _ ?new]) (simp_all add: new_item_def)
  next
    case add
    have "items_ok (nt_items n @ [?new])" using ok add by (intro items_ok_snoc) simp_all
    from item_of_snoc [OF this] have "item_of (nt_items n') = (item_of (nt_items n))(source \<mapsto> ?new)"
      using assms(2) add by (auto simp: put_items fun_eq_iff)
    then show ?thesis using add assms(2) by (intro conjI exI [of _ ?new]) (simp_all add: new_item_def)
  qed
qed

theorem notify_post_updates_witness:
  "snd (tb_notify_post (tb_notify_init sample_notify_ports 0) TB_NOTIFY_SEND TB_NOTIFY_ERROR TB_NOTIFY_CHECK (Some [65]) None)"
proof -
  obtain n' ok where p: "tb_notify_post (tb_notify_init sample_notify_ports 0) TB_NOTIFY_SEND TB_NOTIFY_ERROR
      TB_NOTIFY_CHECK (Some [65]) None = (n', ok)" by fastforce
  from notify_post_updates [OF notify_init_inv p] p show ?thesis by simp
qed

text \<open>
  C20. The notification shown is one that no other outranks by level and then by age, there is one
  whenever the queue is not empty, and the timer removes exactly the notifications whose time has
  come.
\<close>

theorem notify_shows_and_expires:
  "(tb_notify_top n = None \<longleftrightarrow> nt_items n = []) \<and>
   (\<forall>it \<in> set_option (tb_notify_top n). it \<in> set (nt_items n) \<and> (\<forall>other \<in> set (nt_items n). \<not> outranks other it)) \<and>
   nt_items (tb_notify_timer n) = filter (\<lambda>it. no_expires it = 0 \<or> \<not> reached (notify_now n) (no_expires it)) (nt_items n)"
proof (intro conjI)
  show "tb_notify_top n = None \<longleftrightarrow> nt_items n = []" by (simp add: tb_notify_top_def top_index_None)
  show "\<forall>it \<in> set_option (tb_notify_top n). it \<in> set (nt_items n) \<and> (\<forall>other \<in> set (nt_items n). \<not> outranks other it)"
    using top_index_Some [of "nt_items n"] by (auto simp: tb_notify_top_def in_set_conv_nth)
  have "filter (\<lambda>it. \<not> notify_expired (notify_now n) (no_expires it)) (nt_items n) = nt_items n"
    if "\<not> (\<exists>it\<in>set (nt_items n). notify_expired (notify_now n) (no_expires it))"
    using that by (simp add: filter_id_conv)
  then show "nt_items (tb_notify_timer n) = filter (\<lambda>it. no_expires it = 0 \<or> \<not> reached (notify_now n) (no_expires it)) (nt_items n)"
    by (auto simp: tb_notify_timer_def Let_def remove_down_eq notify_expired_def)
qed

definition sample_note :: TbNotification where
  "sample_note = \<lparr>no_source = TB_NOTIFY_SEND, no_level = TB_NOTIFY_INFO, no_action = TB_NOTIFY_WAIT,
     no_serial = 1, no_expires = 7, no_title = [], no_body = []\<rparr>"

theorem notify_shows_and_expires_witness:
  "nt_items (tb_notify_timer ((tb_notify_init sample_notify_ports 0)\<lparr>nt_items := [sample_note]\<rparr>)) = [] \<and>
   tb_notify_top ((tb_notify_init sample_notify_ports 0)\<lparr>nt_items := [sample_note]\<rparr>) \<noteq> None"
  using notify_shows_and_expires [of "(tb_notify_init sample_notify_ports 0)\<lparr>nt_items := [sample_note]\<rparr>"]
  by (simp add: sample_note_def notify_now_def tb_notify_init_def sample_notify_ports_def)

end
