(* ===== verification/Pull.thy ===== *)
theory Pull
  imports Prelude "HOL-Library.Signed_Division"
begin

text \<open>
  The pull-to-refresh animation (\<^verbatim>\<open>pull.h\<close>, \<^verbatim>\<open>pull.c\<close>): a state machine driven by presses, drags
  and animation ticks. The view context and the clock are two contexts, as in the ports.
\<close>

section \<open>Data\<close>

abbreviation (input) TB_PULL_FULL :: nat where "TB_PULL_FULL \<equiv> 1000"
abbreviation (input) TB_PULL_HALF :: nat where "TB_PULL_HALF \<equiv> 500"
abbreviation (input) TB_PULL_FRAME :: u32 where "TB_PULL_FRAME \<equiv> 33"
abbreviation (input) TB_PULL_WINDOW :: u32 where "TB_PULL_WINDOW \<equiv> 450"
abbreviation (input) TB_PULL_TAP_RISE :: u32 where "TB_PULL_TAP_RISE \<equiv> 150"
abbreviation (input) TB_PULL_TAP_FALL :: u32 where "TB_PULL_TAP_FALL \<equiv> 300"
abbreviation (input) TB_PULL_DOUBLE_RISE :: u32 where "TB_PULL_DOUBLE_RISE \<equiv> 120"
abbreviation (input) TB_PULL_HOLD :: u32 where "TB_PULL_HOLD \<equiv> 120"
abbreviation (input) TB_PULL_FADE :: u32 where "TB_PULL_FADE \<equiv> 300"
abbreviation (input) TB_PULL_RETURN :: u32 where "TB_PULL_RETURN \<equiv> 250"

datatype TbPullPhase =
  TB_PULL_IDLE | TB_PULL_RISING_HALF | TB_PULL_WAITING | TB_PULL_RISING_FULL | TB_PULL_HOLDING
| TB_PULL_FALLING | TB_PULL_DRAGGING

record ('v, 'k) TbPullPorts =
  pp_changed :: "'v \<Rightarrow> 'v"
  pp_trigger :: "'v \<Rightarrow> 'v"
  pp_schedule :: "'k \<Rightarrow> u32 \<Rightarrow> bool \<times> 'k"
  pp_cancel :: "'k \<Rightarrow> 'k"
  pp_now :: "'k \<Rightarrow> u32"

record ('v, 'k) TbPull =
  pu_ports :: "('v, 'k) TbPullPorts"
  pu_context :: 'v
  pu_clock :: 'k
  pu_phase :: TbPullPhase
  pu_level :: u16
  pu_from :: u16
  pu_to :: u16
  pu_started :: u32
  pu_duration :: u32
  pu_armed_until :: u32

section \<open>Operations\<close>

definition pull_now :: "('v, 'k) TbPull \<Rightarrow> u32" where
  "pull_now p = pp_now (pu_ports p) (pu_clock p)"

definition pull_changed :: "('v, 'k) TbPull \<Rightarrow> ('v, 'k) TbPull" where
  "pull_changed p = p\<lparr>pu_context := pp_changed (pu_ports p) (pu_context p)\<rparr>"

definition pull_schedule :: "('v, 'k) TbPull \<Rightarrow> u32 \<Rightarrow> ('v, 'k) TbPull" where
  "pull_schedule p ms = p\<lparr>pu_clock := snd (pp_schedule (pu_ports p) (pu_clock p) ms)\<rparr>"

definition animate :: "('v, 'k) TbPull \<Rightarrow> TbPullPhase \<Rightarrow> u16 \<Rightarrow> u32 \<Rightarrow> ('v, 'k) TbPull" where
  "animate p phase to duration =
     pull_schedule (p\<lparr>pu_phase := phase, pu_from := pu_level p, pu_to := to,
       pu_started := pull_now p, pu_duration := duration\<rparr>) TB_PULL_FRAME"

definition fire :: "('v, 'k) TbPull \<Rightarrow> ('v, 'k) TbPull" where
  "fire p =
     (let p1 = animate (p\<lparr>pu_level := 1000, pu_armed_until := 0\<rparr>) TB_PULL_HOLDING 1000 TB_PULL_HOLD
      in p1\<lparr>pu_context := pp_trigger (pu_ports p1) (pu_context p1)\<rparr>)"

text \<open>
  The level at a point of the animation: \<open>int32_t\<close> arithmetic, with C's division that rounds
  towards zero.
\<close>

definition eased :: "('v, 'k) TbPull \<Rightarrow> u32 \<Rightarrow> u16" where
  "eased p elapsed =
     (if pu_duration p = 0 \<or> elapsed \<ge> pu_duration p then pu_to p
      else let span = uint (pu_to p) - uint (pu_from p);
               progress = uint (elapsed * 1000 div pu_duration p);
               smooth = (progress * progress * (3000 - 2 * progress)) sdiv 1000000
           in word_of_int (uint (pu_from p) + (span * smooth) sdiv 1000))"

definition pull_settle :: "('v, 'k) TbPull \<Rightarrow> ('v, 'k) TbPull" where
  "pull_settle p =
     (case pu_phase p of
        TB_PULL_RISING_HALF \<Rightarrow>
          (let current = pull_now p;
               left = (if pu_armed_until p > current then pu_armed_until p - current else 0)
           in pull_schedule (p\<lparr>pu_phase := TB_PULL_WAITING\<rparr>) (if left > 0 then left else 1))
      | TB_PULL_WAITING \<Rightarrow> animate (p\<lparr>pu_armed_until := 0\<rparr>) TB_PULL_FALLING 0 TB_PULL_TAP_FALL
      | TB_PULL_RISING_FULL \<Rightarrow> fire p
      | TB_PULL_HOLDING \<Rightarrow> animate p TB_PULL_FALLING 0 TB_PULL_FADE
      | TB_PULL_FALLING \<Rightarrow> p\<lparr>pu_phase := TB_PULL_IDLE\<rparr>
      | _ \<Rightarrow> p)"

definition tb_pull_init :: "('v, 'k) TbPullPorts \<Rightarrow> 'v \<Rightarrow> 'k \<Rightarrow> ('v, 'k) TbPull" where
  "tb_pull_init ports v k =
     \<lparr>pu_ports = ports, pu_context = v, pu_clock = k, pu_phase = TB_PULL_IDLE, pu_level = 0,
      pu_from = 0, pu_to = 0, pu_started = 0, pu_duration = 0, pu_armed_until = 0\<rparr>"

definition tb_pull_press :: "('v, 'k) TbPull \<Rightarrow> ('v, 'k) TbPull" where
  "tb_pull_press p =
     (if pu_phase p = TB_PULL_RISING_FULL \<or> pu_phase p = TB_PULL_HOLDING \<or> pu_phase p = TB_PULL_DRAGGING then p
      else
        (let current = pull_now p
         in if pu_armed_until p \<noteq> 0 \<and> current < pu_armed_until p then
              (let duration = (1000 - ucast (pu_level p)) * TB_PULL_DOUBLE_RISE div 1000
               in animate p TB_PULL_RISING_FULL 1000 (if duration > 0 then duration else 1))
            else
              (let duration = (if pu_level p \<ge> 500 then 1
                               else (500 - ucast (pu_level p)) * TB_PULL_TAP_RISE div 500)
               in animate (p\<lparr>pu_armed_until := current + TB_PULL_WINDOW\<rparr>) TB_PULL_RISING_HALF 500 duration)))"

definition tb_pull_drag :: "('v, 'k) TbPull \<Rightarrow> u16 \<Rightarrow> ('v, 'k) TbPull" where
  "tb_pull_drag p level =
     (if pu_phase p = TB_PULL_RISING_FULL \<or> pu_phase p = TB_PULL_HOLDING then p
      else pull_changed (p\<lparr>pu_clock := pp_cancel (pu_ports p) (pu_clock p), pu_phase := TB_PULL_DRAGGING,
             pu_armed_until := 0, pu_level := (if level > 1000 then 1000 else level)\<rparr>))"

definition tb_pull_release :: "('v, 'k) TbPull \<Rightarrow> ('v, 'k) TbPull" where
  "tb_pull_release p =
     (if pu_phase p \<noteq> TB_PULL_DRAGGING then p
      else pull_changed
             (if pu_level p \<ge> 1000 then fire p
              else animate p TB_PULL_FALLING 0 (ucast (pu_level p) * TB_PULL_RETURN div 1000 + 1)))"

definition tb_pull_tick :: "('v, 'k) TbPull \<Rightarrow> ('v, 'k) TbPull" where
  "tb_pull_tick p =
     (if pu_phase p = TB_PULL_IDLE \<or> pu_phase p = TB_PULL_DRAGGING then p
      else if pu_phase p = TB_PULL_WAITING then
        pull_changed (if pull_now p \<ge> pu_armed_until p then pull_settle p
                      else pull_schedule p (pu_armed_until p - pull_now p))
      else
        (let elapsed = pull_now p - pu_started p; p1 = p\<lparr>pu_level := eased p elapsed\<rparr>
         in pull_changed (if elapsed \<ge> pu_duration p1 then pull_settle p1
                          else pull_schedule p1 TB_PULL_FRAME)))"

definition tb_pull_reset :: "('v, 'k) TbPull \<Rightarrow> ('v, 'k) TbPull" where
  "tb_pull_reset p =
     p\<lparr>pu_clock := pp_cancel (pu_ports p) (pu_clock p), pu_phase := TB_PULL_IDLE, pu_level := 0,
       pu_armed_until := 0\<rparr>"

section \<open>The easing curve\<close>

lemma sdiv_nonneg: "0 \<le> (k::int) \<Longrightarrow> 0 < l \<Longrightarrow> k sdiv l = k div l"
  by (cases "k = 0") (simp_all add: signed_divide_int_def)

lemma smooth_range:
  fixes p :: int
  assumes "0 \<le> p" and "p \<le> 1000"
  shows "0 \<le> p * p * (3000 - 2 * p) sdiv 1000000 \<and> p * p * (3000 - 2 * p) sdiv 1000000 \<le> 1000"
proof -
  have nn: "0 \<le> p * p * (3000 - 2 * p)" using assms by simp
  have "1000000000 - p * p * (3000 - 2 * p) = (1000 - p) * (1000 - p) * (1000 + 2 * p)"
    by (simp add: algebra_simps)
  moreover have "0 \<le> (1000 - p) * (1000 - p) * (1000 + 2 * p)" using assms by simp
  ultimately have "p * p * (3000 - 2 * p) \<le> 1000000000" by linarith
  then have "p * p * (3000 - 2 * p) div 1000000 \<le> 1000000000 div 1000000" by (rule zdiv_mono1) simp
  then show ?thesis using nn by (simp add: sdiv_nonneg pos_imp_zdiv_nonneg_iff)
qed

lemma span_scaled:
  fixes a b s :: int
  assumes "0 \<le> s" and "s \<le> 1000"
  shows "min a b \<le> a + (b - a) * s sdiv 1000 \<and> a + (b - a) * s sdiv 1000 \<le> max a b"
proof (cases "a \<le> b")
  case True
  then have nn: "0 \<le> (b - a) * s" using assms by simp
  have "(b - a) * s \<le> (b - a) * 1000" using True assms by (intro mult_left_mono) simp_all
  then have "(b - a) * s div 1000 \<le> (b - a) * 1000 div 1000" by (rule zdiv_mono1) simp
  then show ?thesis using nn True by (simp add: sdiv_nonneg pos_imp_zdiv_nonneg_iff)
next
  case False
  then have nn: "0 \<le> (a - b) * s" using assms by simp
  have "(a - b) * s \<le> (a - b) * 1000" using False assms by (intro mult_left_mono) simp_all
  then have le: "(a - b) * s div 1000 \<le> (a - b) * 1000 div 1000" by (rule zdiv_mono1) simp
  have "(b - a) * s = - ((a - b) * s)" by (simp add: algebra_simps)
  then have "(b - a) * s sdiv 1000 = - ((a - b) * s sdiv 1000)" by (simp add: signed_divide_int_def)
  then show ?thesis using nn le False by (simp add: sdiv_nonneg pos_imp_zdiv_nonneg_iff)
qed

lemma progress_range:
  fixes elapsed duration :: u32
  assumes "elapsed < duration" and "duration \<le> 300"
  shows "uint (elapsed * 1000 div duration) \<le> 1000"
proof -
  have d: "unat duration \<le> 300" using assms(2) by (simp add: word_le_nat_alt)
  have e: "unat elapsed < unat duration" using assms(1) by (simp add: word_less_nat_alt)
  have "unat (elapsed * 1000) = unat elapsed * 1000"
    using d e by (simp add: unat_word_ariths)
  moreover have "unat elapsed * 1000 div unat duration \<le> unat duration * 1000 div unat duration"
    using e by (intro div_le_mono) simp
  moreover have "unat duration * 1000 div unat duration = 1000" using e by (intro nonzero_mult_div_cancel_left) simp
  ultimately have "unat (elapsed * 1000 div duration) \<le> 1000" by (simp only: unat_div)
  then show ?thesis unfolding uint_nat by linarith
qed

text \<open>
  Between the two ends: with a duration of at most 300 ms the product stays inside \<open>int32_t\<close> and
  the eased level never overshoots.
\<close>

lemma eased_between:
  assumes "pu_duration p \<le> 300"
  shows "min (pu_from p) (pu_to p) \<le> eased p elapsed \<and> eased p elapsed \<le> max (pu_from p) (pu_to p)"
proof (cases "pu_duration p = 0 \<or> elapsed \<ge> pu_duration p")
  case True
  then show ?thesis by (auto simp: eased_def)
next
  case False
  define g where "g = uint (elapsed * 1000 div pu_duration p)"
  define s where "s = g * g * (3000 - 2 * g) sdiv 1000000"
  define v where "v = uint (pu_from p) + (uint (pu_to p) - uint (pu_from p)) * s sdiv 1000"
  have "0 \<le> g" "g \<le> 1000" using progress_range [of elapsed "pu_duration p"] False assms by (auto simp: g_def)
  then have "0 \<le> s" "s \<le> 1000" using smooth_range [of g] by (simp_all add: s_def)
  then have v: "min (uint (pu_from p)) (uint (pu_to p)) \<le> v \<and> v \<le> max (uint (pu_from p)) (uint (pu_to p))"
    unfolding v_def by (rule span_scaled)
  have "0 \<le> v" using v by (auto simp: min_def split: if_splits intro: order_trans [OF unsigned_greater_eq])
  moreover have "v < 2 ^ 16"
    using v unsigned_less [of "pu_from p", where ?'a = int] unsigned_less [of "pu_to p", where ?'a = int]
    by (auto simp: max_def split: if_splits)
  ultimately have "uint (word_of_int v :: u16) = v" by (simp add: unsigned_of_int take_bit_int_eq_self)
  moreover have "eased p elapsed = word_of_int v"
    using False by (simp add: eased_def Let_def v_def s_def g_def)
  ultimately have "uint (eased p elapsed) = v" by simp
  then show ?thesis using v by (simp add: min_def max_def word_le_def split: if_splits)
qed

section \<open>Reachable states\<close>

definition pull_inv :: "('v, 'k) TbPull \<Rightarrow> bool" where
  "pull_inv p \<longleftrightarrow> pu_level p \<le> 1000 \<and> pu_from p \<le> 1000 \<and> pu_to p \<le> 1000 \<and> pu_duration p \<le> 300"

text \<open>The phases that wait for the animation timer.\<close>

definition pull_moving :: "('v, 'k) TbPull \<Rightarrow> bool" where
  "pull_moving p \<longleftrightarrow> pu_phase p \<noteq> TB_PULL_IDLE \<and> pu_phase p \<noteq> TB_PULL_DRAGGING"

text \<open>
  A widget in use: the operations, time passing (the pending timer stays pending) and the timer
  firing, which runs a tick on whatever the clock shows then.
\<close>

inductive pull_reachable :: "('k \<Rightarrow> bool) \<Rightarrow> ('v, 'k) TbPullPorts \<Rightarrow> ('v, 'k) TbPull \<Rightarrow> bool" for armed ports where
  init: "pull_reachable armed ports (tb_pull_init ports v k)"
| press: "pull_reachable armed ports p \<Longrightarrow> pull_reachable armed ports (tb_pull_press p)"
| drag: "pull_reachable armed ports p \<Longrightarrow> pull_reachable armed ports (tb_pull_drag p level)"
| release: "pull_reachable armed ports p \<Longrightarrow> pull_reachable armed ports (tb_pull_release p)"
| reset: "pull_reachable armed ports p \<Longrightarrow> pull_reachable armed ports (tb_pull_reset p)"
| pass: "pull_reachable armed ports p \<Longrightarrow> armed k = armed (pu_clock p) \<Longrightarrow>
    pull_reachable armed ports (p\<lparr>pu_clock := k\<rparr>)"
| fires: "pull_reachable armed ports p \<Longrightarrow> pull_reachable armed ports (tb_pull_tick (p\<lparr>pu_clock := k\<rparr>))"

lemma animate_simps [simp]:
  "pu_level (animate p ph to d) = pu_level p" "pu_from (animate p ph to d) = pu_level p"
  "pu_to (animate p ph to d) = to" "pu_duration (animate p ph to d) = d"
  "pu_phase (animate p ph to d) = ph" "pu_ports (animate p ph to d) = pu_ports p"
  "pu_context (animate p ph to d) = pu_context p" "pu_armed_until (animate p ph to d) = pu_armed_until p"
  "pu_clock (animate p ph to d) = snd (pp_schedule (pu_ports p) (pu_clock p) 33)"
  by (simp_all add: animate_def pull_schedule_def)

lemma pull_schedule_simps [simp]:
  "pu_level (pull_schedule p ms) = pu_level p" "pu_from (pull_schedule p ms) = pu_from p"
  "pu_to (pull_schedule p ms) = pu_to p" "pu_duration (pull_schedule p ms) = pu_duration p"
  "pu_phase (pull_schedule p ms) = pu_phase p" "pu_ports (pull_schedule p ms) = pu_ports p"
  "pu_context (pull_schedule p ms) = pu_context p"
  "pu_clock (pull_schedule p ms) = snd (pp_schedule (pu_ports p) (pu_clock p) ms)"
  by (simp_all add: pull_schedule_def)

lemma pull_changed_simps [simp]:
  "pu_level (pull_changed p) = pu_level p" "pu_from (pull_changed p) = pu_from p"
  "pu_to (pull_changed p) = pu_to p" "pu_duration (pull_changed p) = pu_duration p"
  "pu_phase (pull_changed p) = pu_phase p" "pu_ports (pull_changed p) = pu_ports p"
  "pu_clock (pull_changed p) = pu_clock p"
  "pu_context (pull_changed p) = pp_changed (pu_ports p) (pu_context p)"
  by (simp_all add: pull_changed_def)

lemma fire_simps [simp]:
  "pu_level (fire p) = 1000" "pu_from (fire p) = 1000" "pu_to (fire p) = 1000" "pu_duration (fire p) = 120"
  "pu_phase (fire p) = TB_PULL_HOLDING" "pu_ports (fire p) = pu_ports p"
  "pu_clock (fire p) = snd (pp_schedule (pu_ports p) (pu_clock p) 33)"
  "pu_context (fire p) = pp_trigger (pu_ports p) (pu_context p)"
  by (simp_all add: fire_def Let_def)

lemma scaled_le:
  fixes x n d :: u32
  assumes "x \<le> d" and "d \<le> 1000" and "n \<le> 300"
  shows "x * n div d \<le> n"
proof (cases "d = 0")
  case True
  then show ?thesis by simp
next
  case False
  have x: "unat x \<le> unat d" "unat d \<le> 1000" "unat n \<le> 300" "0 < unat d"
    using assms False by (simp_all add: word_le_nat_alt unat_gt_0)
  have "unat x * unat n \<le> 1000 * 300" using x by (intro mult_le_mono) simp_all
  then have "unat (x * n) = unat x * unat n" by (simp add: unat_word_ariths)
  moreover have "unat x * unat n div unat d \<le> unat d * unat n div unat d"
    using x by (intro div_le_mono) simp
  moreover have "unat d * unat n div unat d = unat n" using x by (intro nonzero_mult_div_cancel_left) simp
  ultimately have "unat (x * n div d) \<le> unat n" by (simp only: unat_div)
  then show ?thesis by (simp add: word_le_nat_alt)
qed

lemma ucast_level_le:
  fixes l :: u16
  shows "l \<le> 1000 \<Longrightarrow> (ucast l :: u32) \<le> 1000" and "l \<le> 500 \<Longrightarrow> (ucast l :: u32) \<le> 500"
  by (simp_all add: word_le_nat_alt unsigned_ucast_eq take_bit_nat_eq_self_iff [THEN iffD2])

lemma sub_level_le:
  fixes l :: u16
  shows "l \<le> 1000 \<Longrightarrow> (1000 - ucast l :: u32) \<le> 1000" and "l \<le> 500 \<Longrightarrow> (500 - ucast l :: u32) \<le> 500"
  using ucast_level_le [of l] by (simp_all add: word_sub_le)

lemma pull_durations:
  fixes l :: u16
  shows "l \<le> 1000 \<Longrightarrow> (1000 - ucast l) * 120 div 1000 \<le> (120 :: u32)"
    and "l \<le> 500 \<Longrightarrow> (500 - ucast l) * 150 div 500 \<le> (150 :: u32)"
    and "l \<le> 1000 \<Longrightarrow> ucast l * 250 div 1000 + 1 \<le> (251 :: u32)"
proof -
  show "(1000 - ucast l) * 120 div 1000 \<le> (120 :: u32)" if "l \<le> 1000"
    using sub_level_le(1) [OF that] by (intro scaled_le) simp_all
  show "(500 - ucast l) * 150 div 500 \<le> (150 :: u32)" if "l \<le> 500"
    using sub_level_le(2) [OF that] by (intro scaled_le) simp_all
  have "ucast l * 250 div 1000 \<le> (250 :: u32)" if "l \<le> 1000"
    using ucast_level_le(1) [OF that] by (intro scaled_le) simp_all
  then show "ucast l * 250 div 1000 + 1 \<le> (251 :: u32)" if "l \<le> 1000"
    using that by (simp add: word_le_nat_alt unat_word_ariths)
qed

lemma eased_le:
  "pull_inv p \<Longrightarrow> eased p e \<le> 1000"
  using eased_between [of p e] by (auto simp: pull_inv_def max_def split: if_splits)

lemma pull_settle_inv: "pull_inv p \<Longrightarrow> pull_inv (pull_settle p)"
  by (simp add: pull_inv_def pull_settle_def Let_def split: TbPullPhase.split)

lemma pull_press_inv:
  assumes "pull_inv p"
  shows "pull_inv (tb_pull_press p)"
proof -
  have l: "pu_level p \<le> 1000" using assms by (simp add: pull_inv_def)
  have a: "(1000 - ucast (pu_level p)) * 120 div 1000 \<le> (300 :: u32)"
    using pull_durations(1) [OF l] by (rule order_trans) simp
  have b: "(500 - ucast (pu_level p)) * 150 div 500 \<le> (300 :: u32)" if "\<not> pu_level p \<ge> 500"
    using pull_durations(2) [of "pu_level p"] that by (simp add: order_trans [of _ "150 :: u32"])
  show ?thesis using assms a b by (simp add: pull_inv_def tb_pull_press_def Let_def)
qed

lemma pull_release_inv:
  assumes "pull_inv p"
  shows "pull_inv (tb_pull_release p)"
proof -
  have l: "pu_level p \<le> 1000" using assms by (simp add: pull_inv_def)
  have "ucast (pu_level p) * 250 div 1000 + 1 \<le> (300 :: u32)"
    using pull_durations(3) [OF l] by (rule order_trans) simp
  then show ?thesis using assms by (simp add: pull_inv_def tb_pull_release_def)
qed

lemma pull_tick_inv: 
  assumes "pull_inv p"
  shows "pull_inv (tb_pull_tick p)"
proof -
  have "pull_inv (p\<lparr>pu_level := eased p e\<rparr>)" for e
    using eased_le [OF assms] assms by (simp add: pull_inv_def)
  note eased = pull_settle_inv [OF this] this
  have frame: "pull_inv q \<Longrightarrow> pull_inv (pull_changed q)" "pull_inv q \<Longrightarrow> pull_inv (pull_schedule q ms)" for q :: "('a, 'b) TbPull" and ms
    by (simp_all add: pull_inv_def)
  show ?thesis using assms by (simp add: tb_pull_tick_def Let_def frame pull_settle_inv eased)
qed

lemma pull_ports_kept:
  "pu_ports (pull_settle p) = pu_ports p" "pu_ports (tb_pull_press p) = pu_ports p"
  "pu_ports (tb_pull_drag p l) = pu_ports p" "pu_ports (tb_pull_release p) = pu_ports p"
  "pu_ports (tb_pull_tick p) = pu_ports p" "pu_ports (tb_pull_reset p) = pu_ports p"
  by (simp_all add: pull_settle_def tb_pull_press_def tb_pull_drag_def tb_pull_release_def tb_pull_tick_def
      tb_pull_reset_def Let_def split: TbPullPhase.split)


text \<open>A clock as an app timer: the current time and whether a timer is pending.\<close>

definition sample_pull_ports :: "(nat, u32 \<times> bool) TbPullPorts" where
  "sample_pull_ports =
     \<lparr>pp_changed = (\<lambda>v. v), pp_trigger = Suc, pp_schedule = (\<lambda>(now, _) _. (True, now, True)),
      pp_cancel = (\<lambda>(now, _). (now, False)), pp_now = fst\<rparr>"


section \<open>Progress\<close>

text \<open>How many timer rounds a phase is from rest.\<close>

fun pull_rank :: "TbPullPhase \<Rightarrow> nat" where
  "pull_rank TB_PULL_RISING_HALF = 3"
| "pull_rank TB_PULL_RISING_FULL = 3"
| "pull_rank TB_PULL_WAITING = 2"
| "pull_rank TB_PULL_HOLDING = 2"
| "pull_rank TB_PULL_FALLING = 1"
| "pull_rank _ = 0"

text \<open>The current phase has run its time.\<close>

definition pull_due :: "('v, 'k) TbPull \<Rightarrow> bool" where
  "pull_due p \<longleftrightarrow>
     (if pu_phase p = TB_PULL_WAITING then pull_now p \<ge> pu_armed_until p
      else pull_now p - pu_started p \<ge> pu_duration p)"

lemma pull_rank_zero: "pull_moving p \<longleftrightarrow> 0 < pull_rank (pu_phase p)"
  by (cases "pu_phase p") (simp_all add: pull_moving_def)

text \<open>
  C22. Every tick of a moving widget that comes when its phase has run its time brings it one
  round closer to rest, and the refresh is triggered by exactly the tick that ends the full rise;
  a tick that comes early changes neither the phase nor the rank and only asks for the next frame.
\<close>

theorem pull_tick_progress:
  assumes "pull_moving p"
  shows "if pull_due p
         then pull_rank (pu_phase (tb_pull_tick p)) + 1 = pull_rank (pu_phase p) \<and>
              pu_context (tb_pull_tick p) =
                pp_changed (pu_ports p) (if pu_phase p = TB_PULL_RISING_FULL then pp_trigger (pu_ports p) (pu_context p)
                                         else pu_context p)
         else pu_phase (tb_pull_tick p) = pu_phase p \<and>
              pu_context (tb_pull_tick p) = pp_changed (pu_ports p) (pu_context p)"
  using assms
  by (cases "pu_phase p")
    (simp_all add: pull_moving_def tb_pull_tick_def pull_due_def pull_settle_def Let_def)

theorem pull_tick_progress_witness:
  "pull_rank (pu_phase (tb_pull_tick
     (tb_pull_press (tb_pull_init sample_pull_ports 0 (7, False)) \<lparr>pu_clock := (500, False)\<rparr>))) = 2"
  using pull_tick_progress
    [of "tb_pull_press (tb_pull_init sample_pull_ports 0 (7, False)) \<lparr>pu_clock := (500, False)\<rparr>"]
  by (simp add: sample_pull_ports_def pull_moving_def tb_pull_press_def tb_pull_init_def pull_now_def pull_due_def
      animate_def pull_schedule_def)

end
