(* ===== verification/Gesture.thy ===== *)
theory Gesture
  imports Prelude
begin

text \<open>
  Touch gestures (\<^verbatim>\<open>gesture.h\<close>, \<^verbatim>\<open>gesture.c\<close>): a finger that goes down, moves and goes up is a
  tap, a hold, one of four swipes or nothing. Coordinates are \<open>int16_t\<close>: words read with \<open>sint\<close>.
\<close>

section \<open>Data\<close>

type_synonym i16 = "16 word"

abbreviation (input) TB_GESTURE_SLOP :: int where "TB_GESTURE_SLOP \<equiv> 12"
abbreviation (input) TB_GESTURE_SWIPE :: int where "TB_GESTURE_SWIPE \<equiv> 30"
abbreviation (input) TB_GESTURE_HOLD_MS :: u32 where "TB_GESTURE_HOLD_MS \<equiv> 500"

datatype TbGesture =
  TB_GESTURE_NONE | TB_GESTURE_TAP | TB_GESTURE_HOLD | TB_GESTURE_UP | TB_GESTURE_DOWN
| TB_GESTURE_LEFT | TB_GESTURE_RIGHT

record TbGestureTracker =
  ge_x :: i16
  ge_y :: i16
  ge_last_x :: i16
  ge_last_y :: i16
  ge_since :: u32
  ge_down :: bool
  ge_moved :: bool
  ge_held :: bool

section \<open>Operations\<close>

definition distance :: "i16 \<Rightarrow> i16" where
  "distance v = (if sint v < 0 then - v else v)"

definition tb_gesture_down :: "i16 \<Rightarrow> i16 \<Rightarrow> u32 \<Rightarrow> TbGestureTracker" where
  "tb_gesture_down x y now =
     \<lparr>ge_x = x, ge_y = y, ge_last_x = x, ge_last_y = y, ge_since = now, ge_down = True,
      ge_moved = False, ge_held = False\<rparr>"

definition tb_gesture_move :: "TbGestureTracker \<Rightarrow> i16 \<Rightarrow> i16 \<Rightarrow> TbGestureTracker" where
  "tb_gesture_move t x y =
     (if \<not> ge_down t then t
      else
        (let t1 = t\<lparr>ge_last_x := x, ge_last_y := y\<rparr>
         in if sint (distance (x - ge_x t1)) > TB_GESTURE_SLOP \<or> sint (distance (y - ge_y t1)) > TB_GESTURE_SLOP
            then t1\<lparr>ge_moved := True\<rparr> else t1))"

definition tb_gesture_hold :: "TbGestureTracker \<Rightarrow> u32 \<Rightarrow> TbGestureTracker \<times> TbGesture" where
  "tb_gesture_hold t now =
     (if \<not> ge_down t \<or> ge_moved t \<or> ge_held t \<or> now - ge_since t < TB_GESTURE_HOLD_MS
      then (t, TB_GESTURE_NONE)
      else (t\<lparr>ge_held := True\<rparr>, TB_GESTURE_HOLD))"

definition tb_gesture_up :: "TbGestureTracker \<Rightarrow> i16 \<Rightarrow> i16 \<Rightarrow> u32 \<Rightarrow> TbGestureTracker \<times> TbGesture" where
  "tb_gesture_up t x y now =
     (if \<not> ge_down t then (t, TB_GESTURE_NONE)
      else
        (let t1 = (tb_gesture_move t x y)\<lparr>ge_down := False\<rparr>;
             dx = ge_last_x t1 - ge_x t1; dy = ge_last_y t1 - ge_y t1
         in (t1,
             if ge_held t1 then TB_GESTURE_NONE
             else if \<not> ge_moved t1 then
               (if now - ge_since t1 \<ge> TB_GESTURE_HOLD_MS then TB_GESTURE_HOLD else TB_GESTURE_TAP)
             else if sint (distance dx) \<ge> sint (distance dy) then
               (if sint (distance dx) < TB_GESTURE_SWIPE then TB_GESTURE_NONE
                else if sint dx > 0 then TB_GESTURE_RIGHT else TB_GESTURE_LEFT)
             else
               (if sint (distance dy) < TB_GESTURE_SWIPE then TB_GESTURE_NONE
                else if sint dy > 0 then TB_GESTURE_DOWN else TB_GESTURE_UP))))"

section \<open>Specification\<close>

text \<open>What happens between a finger going down and going up: it moves, or the hold timer asks.\<close>

datatype gesture_event = Move i16 i16 | Ask u32

fun gesture_run :: "TbGestureTracker \<Rightarrow> gesture_event list \<Rightarrow> TbGestureTracker \<times> TbGesture list" where
  "gesture_run t [] = (t, [])"
| "gesture_run t (Move x y # es) = gesture_run (tb_gesture_move t x y) es"
| "gesture_run t (Ask now # es) =
     (case tb_gesture_hold t now of (t1, g) \<Rightarrow> case gesture_run t1 es of (t2, gs) \<Rightarrow> (t2, g # gs))"

text \<open>The finger has left the slop around the point where it went down.\<close>

definition strayed :: "int \<Rightarrow> int \<Rightarrow> int \<Rightarrow> int \<Rightarrow> bool" where
  "strayed x0 y0 x y \<longleftrightarrow> \<bar>x - x0\<bar> > 12 \<or> \<bar>y - y0\<bar> > 12"

text \<open>A hold was reported: the timer asked at or after 500 ms before the finger had strayed.\<close>

fun hold_seen :: "int \<Rightarrow> int \<Rightarrow> u32 \<Rightarrow> gesture_event list \<Rightarrow> bool" where
  "hold_seen x0 y0 t0 [] = False"
| "hold_seen x0 y0 t0 (Move x y # es) = (\<not> strayed x0 y0 (sint x) (sint y) \<and> hold_seen x0 y0 t0 es)"
| "hold_seen x0 y0 t0 (Ask now # es) = (now - t0 \<ge> 500 \<or> hold_seen x0 y0 t0 es)"

fun stray_seen :: "int \<Rightarrow> int \<Rightarrow> gesture_event list \<Rightarrow> bool" where
  "stray_seen x0 y0 [] = False"
| "stray_seen x0 y0 (Move x y # es) = (strayed x0 y0 (sint x) (sint y) \<or> stray_seen x0 y0 es)"
| "stray_seen x0 y0 (Ask now # es) = stray_seen x0 y0 es"

text \<open>The gesture by plane geometry, over the integers.\<close>

definition swipe_of :: "int \<Rightarrow> int \<Rightarrow> TbGesture" where
  "swipe_of dx dy =
     (if max \<bar>dx\<bar> \<bar>dy\<bar> < 30 then TB_GESTURE_NONE
      else if \<bar>dy\<bar> \<le> \<bar>dx\<bar> then (if 0 < dx then TB_GESTURE_RIGHT else TB_GESTURE_LEFT)
      else (if 0 < dy then TB_GESTURE_DOWN else TB_GESTURE_UP))"

definition gesture_spec :: "int \<Rightarrow> int \<Rightarrow> u32 \<Rightarrow> gesture_event list \<Rightarrow> int \<Rightarrow> int \<Rightarrow> u32 \<Rightarrow> TbGesture" where
  "gesture_spec x0 y0 t0 es x y now =
     (if hold_seen x0 y0 t0 es then TB_GESTURE_NONE
      else if stray_seen x0 y0 es \<or> strayed x0 y0 x y then swipe_of (x - x0) (y - y0)
      else if now - t0 \<ge> 500 then TB_GESTURE_HOLD else TB_GESTURE_TAP)"

text \<open>Coordinates of a screen: no difference of two of them overflows.\<close>

definition on_screen :: "i16 \<Rightarrow> bool" where
  "on_screen v \<longleftrightarrow> \<bar>sint v\<bar> < 16384"

fun event_on_screen :: "gesture_event \<Rightarrow> bool" where
  "event_on_screen (Move x y) = (on_screen x \<and> on_screen y)"
| "event_on_screen (Ask now) = True"

section \<open>Lemmas\<close>

lemma sint_diff: "on_screen a \<Longrightarrow> on_screen b \<Longrightarrow> sint (a - b) = sint a - sint b"
  by (auto simp: on_screen_def sint_word_ariths signed_take_bit_int_eq_self_iff)

lemma sint_neg: "\<bar>sint (a :: i16)\<bar> < 32768 \<Longrightarrow> sint (- a) = - sint a"
  by (auto simp: sint_word_ariths signed_take_bit_int_eq_self_iff)

lemma sint_distance:
  assumes "on_screen a" and "on_screen b"
  shows "sint (distance (a - b)) = \<bar>sint a - sint b\<bar>"
proof -
  have "\<bar>sint (a - b)\<bar> < 32768" using assms sint_diff [OF assms] by (auto simp: on_screen_def)
  then show ?thesis using sint_neg [of "a - b"] sint_diff [OF assms] by (auto simp: distance_def)
qed

lemma move_strays:
  assumes "ge_down t" and "on_screen (ge_x t)" and "on_screen (ge_y t)" and "on_screen x" and "on_screen y"
  shows "tb_gesture_move t x y = t\<lparr>ge_last_x := x, ge_last_y := y,
    ge_moved := ge_moved t \<or> strayed (sint (ge_x t)) (sint (ge_y t)) (sint x) (sint y)\<rparr>"
  using assms by (cases "ge_moved t") (auto simp: tb_gesture_move_def sint_distance strayed_def Let_def intro: TbGestureTracker.equality)

text \<open>What a run leaves in the tracker.\<close>

lemma gesture_run_state:
  assumes "ge_down t" and "on_screen (ge_x t)" and "on_screen (ge_y t)" and "list_all event_on_screen es"
  defines "x0 \<equiv> sint (ge_x t)" and "y0 \<equiv> sint (ge_y t)"
  shows "ge_moved (fst (gesture_run t es)) = (ge_moved t \<or> stray_seen x0 y0 es) \<and>
    ge_held (fst (gesture_run t es)) = (ge_held t \<or> (\<not> ge_moved t \<and> hold_seen x0 y0 (ge_since t) es)) \<and>
    ge_down (fst (gesture_run t es)) \<and> ge_x (fst (gesture_run t es)) = ge_x t \<and>
    ge_y (fst (gesture_run t es)) = ge_y t \<and> ge_since (fst (gesture_run t es)) = ge_since t"
  using assms(1-4) unfolding x0_def y0_def
proof (induction t es rule: gesture_run.induct)
  case (1 t)
  then show ?case by simp
next
  case (2 t x y es)
  then show ?case by (simp add: move_strays disj_assoc)
next
  case (3 t now es)
  obtain t1 g where h: "tb_gesture_hold t now = (t1, g)" by fastforce
  have run: "fst (gesture_run t (Ask now # es)) = fst (gesture_run t1 es)"
    by (simp add: h split: prod.splits)
  have t1: "t1 = t \<or> t1 = t\<lparr>ge_held := True\<rparr>" "\<not> ge_held t \<Longrightarrow> ge_held t1 = (\<not> ge_moved t \<and> 500 \<le> now - ge_since t)"
    using h "3.prems"(1) by (auto simp: tb_gesture_hold_def not_less split: if_splits)
  then show ?case unfolding run using "3.IH" [OF h [symmetric]] "3.prems" by auto
qed

lemma gesture_up_spec:
  assumes "ge_down t" and "on_screen (ge_x t)" and "on_screen (ge_y t)" and "on_screen x" and "on_screen y"
  shows "snd (tb_gesture_up t x y now) =
    (if ge_held t then TB_GESTURE_NONE
     else if ge_moved t \<or> strayed (sint (ge_x t)) (sint (ge_y t)) (sint x) (sint y)
     then swipe_of (sint x - sint (ge_x t)) (sint y - sint (ge_y t))
     else if now - ge_since t \<ge> 500 then TB_GESTURE_HOLD else TB_GESTURE_TAP)"
  using assms
  by (simp add: tb_gesture_up_def move_strays Let_def sint_distance sint_diff swipe_of_def max_def)

text \<open>
  C23. Whatever the finger does between going down and going up, the gesture reported when it goes
  up is the one that plane geometry gives: nothing after a reported hold, a swipe along the longer
  axis when the finger ever left the slop and ends at least 30 pixels away, a hold or a tap by the
  time it stayed otherwise.
\<close>

theorem gesture_classification:
  assumes "on_screen x0" and "on_screen y0" and "on_screen x" and "on_screen y" and "list_all event_on_screen es"
  shows "snd (tb_gesture_up (fst (gesture_run (tb_gesture_down x0 y0 t0) es)) x y now) =
    gesture_spec (sint x0) (sint y0) t0 es (sint x) (sint y) now"
proof -
  let ?t = "tb_gesture_down x0 y0 t0"
  have d: "ge_down ?t" "ge_x ?t = x0" "ge_y ?t = y0" "\<not> ge_moved ?t" "\<not> ge_held ?t" "ge_since ?t = t0"
    by (simp_all add: tb_gesture_down_def)
  have r: "ge_moved (fst (gesture_run ?t es)) = stray_seen (sint x0) (sint y0) es"
    "ge_held (fst (gesture_run ?t es)) = hold_seen (sint x0) (sint y0) t0 es"
    "ge_down (fst (gesture_run ?t es))" "ge_x (fst (gesture_run ?t es)) = x0"
    "ge_y (fst (gesture_run ?t es)) = y0" "ge_since (fst (gesture_run ?t es)) = t0"
    using gesture_run_state [of ?t es] assms by (simp_all add: d)
  show ?thesis using gesture_up_spec [of "fst (gesture_run ?t es)" x y now] assms
    by (simp add: r gesture_spec_def)
qed

theorem gesture_classification_witness:
  "snd (tb_gesture_up (fst (gesture_run (tb_gesture_down 100 100 0) [Move 90 101, Ask 200, Move 60 105])) 50 110 300)
     = TB_GESTURE_LEFT"
  using gesture_classification [of 100 100 50 110 "[Move 90 101, Ask 200, Move 60 105]" 0 300]
  by (simp add: on_screen_def gesture_spec_def strayed_def swipe_of_def)

section \<open>Holds\<close>

lemma hold_keeps:
  "tb_gesture_hold t now = (t1, g) \<Longrightarrow> g = TB_GESTURE_HOLD \<and> \<not> ge_held t \<and> ge_held t1 \<or> g = TB_GESTURE_NONE \<and> t1 = t"
  by (auto simp: tb_gesture_hold_def split: if_splits)

lemma move_keeps_held [simp]: "ge_held (tb_gesture_move t x y) = ge_held t"
  by (simp add: tb_gesture_move_def Let_def)

lemma gesture_run_holds:
  "count_list (snd (gesture_run t es)) TB_GESTURE_HOLD + (if ge_held t then 1 else 0) =
     (if ge_held (fst (gesture_run t es)) then 1 else 0)"
proof (induction t es rule: gesture_run.induct)
  case (3 t now es)
  obtain t1 g where h: "tb_gesture_hold t now = (t1, g)" by fastforce
  then show ?case using 3 [OF h [symmetric]] hold_keeps [OF h] by (auto split: prod.splits if_splits)
qed simp_all

text \<open>
  C24. One press reports at most one hold, whether the timer or the release reports it, and once
  the timer has reported it the release reports nothing.
\<close>

theorem gesture_hold_once:
  "count_list (snd (gesture_run (tb_gesture_down x0 y0 t0) es) @
     [snd (tb_gesture_up (fst (gesture_run (tb_gesture_down x0 y0 t0) es)) x y now)]) TB_GESTURE_HOLD \<le> 1"
proof -
  let ?r = "gesture_run (tb_gesture_down x0 y0 t0) es"
  have "count_list (snd ?r) TB_GESTURE_HOLD = (if ge_held (fst ?r) then 1 else 0)"
    using gesture_run_holds [of "tb_gesture_down x0 y0 t0" es] by (simp add: tb_gesture_down_def)
  moreover have "snd (tb_gesture_up (fst ?r) x y now) = TB_GESTURE_NONE" if "ge_held (fst ?r)"
    using that by (simp add: tb_gesture_up_def Let_def)
  ultimately show ?thesis by (simp add: count_list_append)
qed

end
