(* ===== verification/Scratch.thy ===== *)
theory Scratch
  imports Prelude
begin

text \<open>
  The shared scratch block (\<^verbatim>\<open>scratch.h\<close>, \<^verbatim>\<open>scratch.c\<close>): one allocation split into three text
  buffers. A pointer into the block is its offset.
\<close>

abbreviation (input) TB_SCRATCH_LONG :: nat where "TB_SCRATCH_LONG \<equiv> 480"
abbreviation (input) TB_SCRATCH_LINE :: nat where "TB_SCRATCH_LINE \<equiv> 160"

datatype TbScratchSlot = TB_SCRATCH_CONTENT | TB_SCRATCH_TEXT | TB_SCRATCH_SHORT

text \<open>\<open>s_block\<close>: the size of the block, when it is allocated.\<close>

record scratch_state =
  sc_heap :: heap
  sc_block :: "nat option"

definition tb_scratch_init :: "scratch_state \<Rightarrow> bool \<times> scratch_state" where
  "tb_scratch_init s =
     (let s1 = (case sc_block s of
                  Some _ \<Rightarrow> s
                | None \<Rightarrow>
                    (case malloc (sc_heap s) (2 * TB_SCRATCH_LONG + TB_SCRATCH_LINE) of
                       (ok, h) \<Rightarrow>
                         s\<lparr>sc_heap := h,
                           sc_block := (if ok then Some (2 * TB_SCRATCH_LONG + TB_SCRATCH_LINE) else None)\<rparr>))
      in (sc_block s1 \<noteq> None, s1))"

definition tb_scratch_deinit :: "scratch_state \<Rightarrow> scratch_state" where
  "tb_scratch_deinit s = s\<lparr>sc_block := None\<rparr>"

fun scratch_offset :: "TbScratchSlot \<Rightarrow> nat" where
  "scratch_offset TB_SCRATCH_CONTENT = 0"
| "scratch_offset TB_SCRATCH_TEXT = TB_SCRATCH_LONG"
| "scratch_offset TB_SCRATCH_SHORT = 2 * TB_SCRATCH_LONG"

definition tb_scratch :: "scratch_state \<Rightarrow> TbScratchSlot \<Rightarrow> nat option \<times> scratch_state" where
  "tb_scratch s slot =
     (case (if sc_block s = None then tb_scratch_init s else (True, s)) of
        (ok, s1) \<Rightarrow> (if ok then Some (scratch_offset slot) else None, s1))"

definition tb_scratch_size :: "TbScratchSlot \<Rightarrow> nat" where
  "tb_scratch_size slot = (if slot = TB_SCRATCH_SHORT then TB_SCRATCH_LINE else TB_SCRATCH_LONG)"

text \<open>The block, when there is one, has the size the slots divide up.\<close>

definition scratch_inv :: "scratch_state \<Rightarrow> bool" where
  "scratch_inv s \<longleftrightarrow> sc_block s = None \<or> sc_block s = Some 1120"

lemma scratch_init_inv [tb_inv]: "scratch_inv s \<Longrightarrow> scratch_inv (snd (tb_scratch_init s))"
  by (auto simp: scratch_inv_def tb_scratch_init_def Let_def split: prod.splits)

lemma scratch_deinit_inv [tb_inv]: "scratch_inv (tb_scratch_deinit s)"
  by (simp add: scratch_inv_def tb_scratch_deinit_def)

lemma slots_apart:
  "slot \<noteq> slot' \<Longrightarrow>
     {scratch_offset slot..<scratch_offset slot + tb_scratch_size slot} \<inter>
     {scratch_offset slot'..<scratch_offset slot' + tb_scratch_size slot'} = {}"
  by (cases slot; cases slot') (auto simp: tb_scratch_size_def)

text \<open>
  A slot handed out lies inside the block with its whole size, two different slots never
  overlap, and a slot is refused exactly when there is no block and the heap gives none.
\<close>

lemma scratch_slots_disjoint:
  assumes "scratch_inv s" and "tb_scratch s slot = (p, s')"
  shows "scratch_inv s' \<and>
    (p = None \<longleftrightarrow> sc_block s = None \<and> \<not> fst (malloc (sc_heap s) 1120)) \<and>
    (case p of
       None \<Rightarrow> True
     | Some off \<Rightarrow> sc_block s' = Some 1120 \<and> off + tb_scratch_size slot \<le> 1120 \<and>
         (case tb_scratch s' slot' of (p', s'') \<Rightarrow>
            s'' = s' \<and> (slot' = slot \<or> (case p' of None \<Rightarrow> False | Some off' \<Rightarrow>
              {off..<off + tb_scratch_size slot} \<inter> {off'..<off' + tb_scratch_size slot'} = {}))))"
proof (cases p)
  case None
  then show ?thesis using assms
    by (auto simp: tb_scratch_def tb_scratch_init_def scratch_inv_def Let_def split: prod.splits if_splits)
next
  case (Some off)
  then have off: "off = scratch_offset slot" and s': "sc_block s' = Some 1120"
    and p: "\<not> (sc_block s = None \<and> \<not> fst (malloc (sc_heap s) 1120))"
    using assms by (auto simp: tb_scratch_def tb_scratch_init_def scratch_inv_def Let_def
        split: prod.splits if_splits option.splits)
  have "off + tb_scratch_size slot \<le> 1120" unfolding off by (cases slot) (simp_all add: tb_scratch_size_def)
  moreover have "tb_scratch s' slot' = (Some (scratch_offset slot'), s')" using s' by (simp add: tb_scratch_def)
  ultimately show ?thesis using Some s' off p slots_apart [of slot slot']
    by (auto simp: scratch_inv_def)
qed

end
