(* ===== verification/Format.thy ===== *)
theory Format
  imports Text Protocol "HOL-Library.Signed_Division"
begin

text \<open>
  Labels, times and counters (\<^verbatim>\<open>format.h\<close>, \<^verbatim>\<open>format.c\<close>). The table of localized strings is what the
  build makes of \<^verbatim>\<open>localization/*/watch.json\<close>; its texts are a parameter, the order of its names is the order
  of that file. \<open>localtime\<close> is a parameter too.
\<close>

section \<open>Localized strings\<close>

text \<open>
  The struct \<open>TbStrings\<close> is one pointer per name, in the order of the localization file;
  \<open>offsetof(TbStrings, name) / sizeof(const char *)\<close> is the position of the name.
\<close>

type_synonym TbStrings = "string \<Rightarrow> cstring"

definition string_names :: "string list" where
  "string_names =
    [''title'', ''checking'', ''loading'', ''config_missing'', ''config_invalid'', ''backend_unavailable'',
    ''api_unauthorized'', ''wrong_token_type'', ''backend_not_ready'', ''protocol_error'',
    ''phone_unreachable'', ''no_response'', ''account_needs_login'', ''account_gone'', ''chat_not_found'',
    ''rate_limited'', ''busy'', ''too_many_views'', ''message_unavailable'', ''out_of_memory'',
    ''retry_hint'', ''back_hint'', ''no_accounts'', ''accounts_title'', ''state_ready'',
    ''state_needs_login'', ''state_connecting'', ''state_logging_out'', ''state_removing'',
    ''default_mark'', ''default_saved'', ''default_failed'', ''main_list'', ''archive_list'',
    ''open_archive'', ''open_main'', ''more_chats'', ''no_chats'', ''refresh'', ''refreshing'',
    ''not_updated'', ''telegram_connecting'', ''earlier'', ''loading_telegram'', ''load_failed'',
    ''history_start'', ''check_again'', ''newer_hidden'', ''no_messages'', ''you'', ''today'',
    ''yesterday'', ''edited'', ''continued_on_phone'', ''preview_only'', ''wait_seconds'', ''kind_photo'',
    ''kind_video'', ''kind_voice_note'', ''kind_video_note'', ''kind_sticker'', ''kind_document'',
    ''kind_audio'', ''kind_animation'', ''kind_location'', ''kind_venue'', ''kind_contact'', ''kind_poll'',
    ''kind_dice'', ''kind_call'', ''kind_game'', ''kind_story'', ''kind_expired'', ''kind_paid_media'',
    ''kind_service'', ''kind_unsupported'', ''action_members_added'', ''action_member_joined'',
    ''action_member_left'', ''action_title_changed'', ''action_photo_changed'', ''action_chat_created'',
    ''action_pinned'', ''action_screenshot'', ''action_contact_joined'', ''action_video_chat'',
    ''action_auto_delete'', ''action_upgraded'', ''action_topic_created'', ''saved_messages'', ''just_now'',
    ''minutes_ago'', ''yesterday_at'', ''day_at'', ''cannot_connect'', ''try_change_proxy'',
    ''try_enable_proxy'', ''long_update'', ''write'', ''reply'', ''open'', ''retry_send'',
    ''write_to_chat'', ''read_only'', ''send_restricted'', ''not_member'', ''banned'', ''secret_chat'',
    ''user_deleted'', ''dictate'', ''quick_replies'', ''templates_empty'', ''templates_stale'', ''send'',
    ''redictate'', ''other_template'', ''cancel'', ''too_long'', ''chars'', ''sending'',
    ''sending_continues'', ''sent'', ''sent_no_reply'', ''not_sent'', ''send_again'', ''result_unknown'',
    ''check'', ''open_chat'', ''send_anyway'', ''duplicate_warning'', ''previous_sending'',
    ''last_message_in'', ''in_reply_to'', ''send_forbidden'', ''reply_unavailable'',
    ''text_too_long_error'', ''draft_lost'', ''send_unknown'', ''send_rate_limited'', ''dictation_failed'',
    ''no_speech'', ''dictation_disabled'', ''dictation_offline'', ''details'', ''select_hint'',
    ''menu_hint'', ''forwarded_from'', ''media_album'', ''media_spoiler'', ''media_disappearing'',
    ''view_photo'', ''media_downloading'', ''media_preparing'', ''media_transfer'', ''media_ready'',
    ''media_idle'', ''media_hidden'', ''media_disappearing_text'', ''media_paid'', ''media_expired'',
    ''media_unsupported'', ''media_unavailable'', ''media_no_memory'', ''media_error'', ''media_retry'',
    ''media_show_spoiler'', ''media_back'', ''media_position'', ''photo_of'', ''media_short_idle'',
    ''media_short_spoiler'', ''media_short_disappearing'', ''media_short_paid'',
    ''media_short_unsupported'', ''media_short_unavailable'', ''media_short_no_memory'',
    ''media_short_error'']"

definition TB_STRING :: "string \<Rightarrow> u8" where
  "TB_STRING name = of_nat (length (takeWhile (\<lambda>n. n \<noteq> name) string_names))"

definition string_at :: "TbStrings \<Rightarrow> u8 \<Rightarrow> cstring" where
  "string_at strings index = strings (string_names ! unat index)"

definition s_result_strings :: "u8 list" where
  "s_result_strings = 0 # map TB_STRING [''config_missing'', ''config_invalid'', ''backend_unavailable'', ''api_unauthorized'',
     ''backend_not_ready'', ''protocol_error'', ''account_needs_login'', ''account_gone'', ''chat_not_found'',
     ''rate_limited'', ''busy'', ''busy'', ''too_many_views'', ''message_unavailable'', ''wrong_token_type'',
     ''send_forbidden'', ''reply_unavailable'', ''text_too_long_error'', ''draft_lost'', ''send_unknown'',
     ''send_rate_limited'']"

definition s_local_strings :: "u8 list" where
  "s_local_strings = map TB_STRING [''phone_unreachable'', ''no_response'', ''out_of_memory'']"

definition tb_error_text :: "TbStrings \<Rightarrow> int \<Rightarrow> cstring" where
  "tb_error_text strings error =
     (if error > 0 \<and> error < int (length s_result_strings) then string_at strings (s_result_strings ! nat error)
      else if error \<ge> TB_ERROR_PHONE_UNREACHABLE \<and> error \<le> TB_ERROR_OUT_OF_MEMORY
      then string_at strings (s_local_strings ! nat (error - TB_ERROR_PHONE_UNREACHABLE))
      else strings ''protocol_error'')"

definition tb_kind_label :: "TbStrings \<Rightarrow> u8 \<Rightarrow> cstring" where
  "tb_kind_label strings kind =
     (if kind \<ge> TB_KIND_PHOTO \<and> kind \<le> TB_KIND_UNSUPPORTED
      then string_at strings (TB_STRING ''kind_photo'' + kind - TB_KIND_PHOTO)
      else strings ''kind_unsupported'')"

definition tb_action_label :: "TbStrings \<Rightarrow> u8 \<Rightarrow> cstring" where
  "tb_action_label strings action =
     (if action \<ge> TB_ACTION_MEMBERS_ADDED \<and> action \<le> TB_ACTION_TOPIC_CREATED
      then string_at strings (TB_STRING ''action_members_added'' + action - TB_ACTION_MEMBERS_ADDED)
      else strings ''kind_service'')"

definition tb_account_state_text :: "TbStrings \<Rightarrow> u8 \<Rightarrow> cstring" where
  "tb_account_state_text strings state =
     (if state = TB_ACCOUNT_STATE_READY then strings ''state_ready''
      else if state = TB_ACCOUNT_STATE_NEEDS_LOGIN then strings ''state_needs_login''
      else if state = TB_ACCOUNT_STATE_LOGGING_OUT then strings ''state_logging_out''
      else if state = TB_ACCOUNT_STATE_REMOVING then strings ''state_removing''
      else strings ''state_connecting'')"

section \<open>Printing\<close>

text \<open>
  The part of \<open>printf\<close> the program uses: \<open>%d\<close>, \<open>%lu\<close>, \<open>%0<w>d\<close>, \<open>%s\<close> and \<open>%%\<close>. A directive that is none of
  them, and an argument that is missing or of the wrong kind, are undefined in C and end the output
  here. \<open>ascii\<close> is a string literal of the source.
\<close>

datatype print_arg = Arg_int int | Arg_str cstring

datatype directive = D_INT nat | D_STR | D_PERCENT

definition ascii :: "string \<Rightarrow> cstring" where
  "ascii s = map (\<lambda>c. of_nat (of_char c)) s"

fun directive_of :: "cstring \<Rightarrow> (directive \<times> cstring) option" where
  "directive_of [] = None"
| "directive_of (c # cs) =
     (if c = 100 then Some (D_INT 0, cs)
      else if c = 115 then Some (D_STR, cs)
      else if c = 37 then Some (D_PERCENT, cs)
      else if c = 108 then (case cs of d # ds \<Rightarrow> if d = 117 then Some (D_INT 0, ds) else None | [] \<Rightarrow> None)
      else if c = 48 then
        (case cs of w # d # ds \<Rightarrow> if is_digit w \<and> d = 100 then Some (D_INT (unat (w - 48)), ds) else None | _ \<Rightarrow> None)
      else None)"

definition print_padded :: "nat \<Rightarrow> int \<Rightarrow> cstring" where
  "print_padded w n =
     (let ds = print_id n; zeros = replicate (w - length ds) 48 in if n < 0 then 45 # zeros @ tl ds else zeros @ ds)"

lemma directive_of_length: "directive_of cs = Some (d, ds) \<Longrightarrow> length ds < length cs"
  by (induction cs rule: directive_of.induct) (auto split: if_splits list.splits)

function printed :: "cstring \<Rightarrow> print_arg list \<Rightarrow> cstring" where
  "printed [] args = []"
| "printed (c # cs) args =
     (if c \<noteq> 37 then c # printed cs args
      else
        (case directive_of cs of
           None \<Rightarrow> []
         | Some (d, ds) \<Rightarrow>
             (case (d, args) of
                (D_INT w, Arg_int n # rest) \<Rightarrow> print_padded w n @ printed ds rest
              | (D_STR, Arg_str s # rest) \<Rightarrow> s @ printed ds rest
              | (D_PERCENT, _) \<Rightarrow> 37 # printed ds args
              | _ \<Rightarrow> [])))"
  by pat_completeness auto
termination
  by (relation "measure (\<lambda>(cs, args). length cs)") (auto dest: directive_of_length)

declare printed.simps [simp del]

text \<open>\<open>snprintf(out, size, format, ...)\<close>: \<open>out\<close> is what the buffer held before.\<close>

definition snprintf :: "cstring \<Rightarrow> nat \<Rightarrow> cstring \<Rightarrow> print_arg list \<Rightarrow> cstring" where
  "snprintf out n format args = (if n = 0 then out else take (n - 1) (printed format args))"

section \<open>Operations\<close>

text \<open>A literal pointer argument that may be null is an option; \<open>""\<close> is the empty list.\<close>

definition tb_format_duration :: "cstring \<Rightarrow> nat \<Rightarrow> u16 \<Rightarrow> cstring" where
  "tb_format_duration out n seconds =
     snprintf out n (ascii ''%d:%02d'') [Arg_int (int (unat seconds) div 60), Arg_int (int (unat seconds) mod 60)]"

definition has_duration :: "u8 \<Rightarrow> bool" where
  "has_duration kind \<longleftrightarrow> kind = TB_KIND_VOICE_NOTE \<or> kind = TB_KIND_VIDEO_NOTE \<or> kind = TB_KIND_AUDIO \<or>
     kind = TB_KIND_VIDEO \<or> kind = TB_KIND_CALL"

definition content_detail :: "u8 \<Rightarrow> u16 \<Rightarrow> cstring \<Rightarrow> cstring" where
  "content_detail kind duration extra =
     (if extra \<noteq> [] then snprintf [] 64 (ascii '' %s'') [Arg_str extra]
      else if has_duration kind \<and> duration > 0
      then snprintf [] 64 (ascii '' %s'') [Arg_str (tb_format_duration [] 16 duration)]
      else [])"

definition tb_format_content ::
  "cstring \<Rightarrow> nat \<Rightarrow> TbStrings \<Rightarrow> u8 \<Rightarrow> u8 \<Rightarrow> u16 \<Rightarrow> cstring option \<Rightarrow> cstring option \<Rightarrow> cstring" where
  "tb_format_content out n strings kind action duration extra0 text0 =
     (if n = 0 then out
      else
        (let extra = case_option [] id extra0; txt = case_option [] id text0
         in if kind = TB_KIND_TEXT \<or> kind = TB_KIND_NONE then snprintf out n (ascii ''%s'') [Arg_str txt]
            else if kind = TB_KIND_SERVICE then
              (if action = TB_ACTION_CUSTOM \<and> txt \<noteq> [] then snprintf out n (ascii ''%s'') [Arg_str txt]
               else if extra \<noteq> []
               then snprintf out n (ascii ''%s: %s'') [Arg_str (tb_action_label strings action), Arg_str extra]
               else snprintf out n (ascii ''%s'') [Arg_str (tb_action_label strings action)])
            else
              (let detail = content_detail kind duration extra
               in if txt \<noteq> []
                  then snprintf out n (ascii ''[%s%s] %s'') [Arg_str (tb_kind_label strings kind), Arg_str detail, Arg_str txt]
                  else snprintf out n (ascii ''[%s%s]'') [Arg_str (tb_kind_label strings kind), Arg_str detail])))"

text \<open>The middle dot of the literals is two bytes of UTF-8.\<close>

definition middle_dot :: cstring where
  "middle_dot = [0xC2, 0xB7]"

definition media_mark :: "TbStrings \<Rightarrow> u8 \<Rightarrow> u8 \<Rightarrow> cstring" where
  "media_mark strings kind media =
     (if has_flag media TB_MEDIA_FLAG_RESTRICTED \<and> kind \<noteq> TB_KIND_PAID_MEDIA then strings ''media_disappearing''
      else if has_flag media TB_MEDIA_FLAG_SPOILER then strings ''media_spoiler''
      else [])"

definition tb_format_message ::
  "cstring \<Rightarrow> nat \<Rightarrow> TbStrings \<Rightarrow> u8 \<Rightarrow> u8 \<Rightarrow> u16 \<Rightarrow> cstring option \<Rightarrow> cstring option \<Rightarrow> u8 \<Rightarrow> u8 \<Rightarrow> cstring" where
  "tb_format_message out n strings kind action duration extra text0 media count =
     (let txt = case_option [] id text0; mark = media_mark strings kind media
      in if has_flag media TB_MEDIA_FLAG_ALBUM \<and> count > 1 then
           (let detail = snprintf [] 64 (ascii ''%s %d%s%s'')
                  [Arg_str (if kind = TB_KIND_PAID_MEDIA then tb_kind_label strings kind else strings ''media_album''),
                   Arg_int (int (unat count)), Arg_str (if mark \<noteq> [] then 32 # middle_dot @ [32] else []), Arg_str mark]
            in snprintf out n (ascii (if txt \<noteq> [] then ''[%s] %s'' else ''[%s]'')) [Arg_str detail, Arg_str txt])
         else
           (let extra1 =
              (if mark \<noteq> []
               then Some (snprintf [] 64 (ascii ''%s%s'' @ middle_dot @ ascii '' %s'')
                      [Arg_str (case_option [] id extra),
                       Arg_str (if case_option [] id extra \<noteq> [] then [32] else []), Arg_str mark])
               else extra)
            in tb_format_content out n strings kind action duration extra1 (Some txt)))"

subsection \<open>Times\<close>

record tm =
  tm_min :: int
  tm_hour :: int
  tm_mday :: int
  tm_mon :: int
  tm_year :: int
  tm_yday :: int

definition tb_same_day :: "(int \<Rightarrow> tm) \<Rightarrow> int \<Rightarrow> int \<Rightarrow> bool" where
  "tb_same_day localtime left right \<longleftrightarrow>
     tm_year (localtime left) = tm_year (localtime right) \<and> tm_yday (localtime left) = tm_yday (localtime right)"

definition tb_format_clock :: "(int \<Rightarrow> tm) \<Rightarrow> cstring \<Rightarrow> nat \<Rightarrow> int \<Rightarrow> bool \<Rightarrow> cstring" where
  "tb_format_clock localtime out n date clock24 =
     (let t = localtime date
      in if clock24 then snprintf out n (ascii ''%02d:%02d'') [Arg_int (tm_hour t), Arg_int (tm_min t)]
         else
           (let hour = (if tm_hour t smod 12 = 0 then 12 else tm_hour t smod 12)
            in snprintf out n (ascii ''%d:%02d%s'')
                 [Arg_int hour, Arg_int (tm_min t), Arg_str (if tm_hour t < 12 then ascii ''am'' else ascii ''pm'')]))"

definition tb_format_time :: "(int \<Rightarrow> tm) \<Rightarrow> cstring \<Rightarrow> nat \<Rightarrow> int \<Rightarrow> int \<Rightarrow> bool \<Rightarrow> cstring" where
  "tb_format_time localtime out n date now clock24 =
     (let t = localtime date; current = localtime now
      in if tb_same_day localtime date now then tb_format_clock localtime out n date clock24
         else if tm_year t = tm_year current
         then snprintf out n (ascii ''%02d.%02d'') [Arg_int (tm_mday t), Arg_int (tm_mon t + 1)]
         else snprintf out n (ascii ''%02d.%02d.%02d'')
                [Arg_int (tm_mday t), Arg_int (tm_mon t + 1), Arg_int (tm_year t smod 100)])"

definition tb_format_ago ::
  "(int \<Rightarrow> tm) \<Rightarrow> cstring \<Rightarrow> nat \<Rightarrow> TbStrings \<Rightarrow> int \<Rightarrow> int \<Rightarrow> bool \<Rightarrow> cstring" where
  "tb_format_ago localtime out n strings date now clock24 =
     (let elapsed = (if now > date then now - date else 0)
      in if elapsed < 60 then snprintf out n (ascii ''%s'') [Arg_str (strings ''just_now'')]
         else if elapsed < 3600 then snprintf out n (strings ''minutes_ago'') [Arg_int (elapsed div 60)]
         else
           (let clock = tb_format_clock localtime [] 16 date clock24
            in if elapsed < 86400 then snprintf out n (ascii ''%s'') [Arg_str clock]
               else if elapsed < 172800 then snprintf out n (strings ''yesterday_at'') [Arg_str clock]
               else
                 (let t = localtime date;
                      day = snprintf [] 16 (ascii ''%02d.%02d'') [Arg_int (tm_mday t), Arg_int (tm_mon t + 1)]
                  in snprintf out n (strings ''day_at'') [Arg_str day, Arg_str clock])))"

definition tb_format_day :: "(int \<Rightarrow> tm) \<Rightarrow> cstring \<Rightarrow> nat \<Rightarrow> TbStrings \<Rightarrow> int \<Rightarrow> int \<Rightarrow> cstring" where
  "tb_format_day localtime out n strings date now =
     (if tb_same_day localtime date now then snprintf out n (ascii ''%s'') [Arg_str (strings ''today'')]
      else if tb_same_day localtime date (now - 86400)
      then snprintf out n (ascii ''%s'') [Arg_str (strings ''yesterday'')]
      else
        (let t = localtime date
         in snprintf out n (ascii ''%02d.%02d.%04d'')
              [Arg_int (tm_mday t), Arg_int (tm_mon t + 1), Arg_int (tm_year t + 1900)]))"

subsection \<open>Counters\<close>

definition tb_format_count :: "cstring \<Rightarrow> nat \<Rightarrow> u32 \<Rightarrow> cstring" where
  "tb_format_count out n v =
     (if v > 9999
      then snprintf out n (ascii ''%luk'') [Arg_int (int (unat (if v div 1000 > 999 then 999 else v div 1000)))]
      else snprintf out n (ascii ''%lu'') [Arg_int (int (unat v))])"

definition tb_format_badge :: "cstring \<Rightarrow> nat \<Rightarrow> u16 \<Rightarrow> u8 \<Rightarrow> cstring" where
  "tb_format_badge out n unread flags =
     (let at_sign = (if has_flag flags TB_CHAT_FLAG_MENTION then ascii ''@'' else [])
      in if unread > 99 then snprintf out n (ascii ''%s99+'') [Arg_str at_sign]
         else if unread > 0 then snprintf out n (ascii ''%s%d'') [Arg_str at_sign, Arg_int (int (unat unread))]
         else if has_flag flags TB_CHAT_FLAG_MARKED_UNREAD
         then snprintf out n (ascii ''%s'') [Arg_str [0xE2, 0x80, 0xA2]]
         else [])"

section \<open>Labels\<close>

text \<open>A name of the table is found at its position, so the tables of positions are tables of names.\<close>

lemma takeWhile_index:
  "x \<in> set xs \<Longrightarrow> length (takeWhile (\<lambda>y. y \<noteq> x) xs) < length xs \<and> xs ! length (takeWhile (\<lambda>y. y \<noteq> x) xs) = x"
  by (induction xs) auto

lemma string_names_length: "length string_names = 177"
  by (simp add: string_names_def)

lemma string_at_TB_STRING:
  assumes "name \<in> set string_names"
  shows "string_at strings (TB_STRING name) = strings name"
  using takeWhile_index [OF assms] by (simp add: string_at_def TB_STRING_def string_names_length)

lemma result_names_listed:
  "set [''config_missing'', ''config_invalid'', ''backend_unavailable'', ''api_unauthorized'', ''backend_not_ready'',
     ''protocol_error'', ''account_needs_login'', ''account_gone'', ''chat_not_found'', ''rate_limited'', ''busy'',
     ''too_many_views'', ''message_unavailable'', ''wrong_token_type'', ''send_forbidden'', ''reply_unavailable'',
     ''text_too_long_error'', ''draft_lost'', ''send_unknown'', ''send_rate_limited'', ''phone_unreachable'',
     ''no_response'', ''out_of_memory'', ''kind_photo'', ''action_members_added''] \<subseteq> set string_names"
  by code_simp

lemma kind_photo_index: "TB_STRING ''kind_photo'' = 56"
  by code_simp

lemma action_index: "TB_STRING ''action_members_added'' = 76"
  by code_simp

text \<open>The labels of kinds and actions are found by arithmetic on the names' positions; the build checks the order.\<close>

definition kind_names :: "string list" where
  "kind_names = [''photo'', ''video'', ''voice_note'', ''video_note'', ''sticker'', ''document'', ''audio'', ''animation'',
     ''location'', ''venue'', ''contact'', ''poll'', ''dice'', ''call'', ''game'', ''story'', ''expired'', ''paid_media'', ''service'',
     ''unsupported'']"

definition action_names :: "string list" where
  "action_names = [''members_added'', ''member_joined'', ''member_left'', ''title_changed'', ''photo_changed'', ''chat_created'',
     ''pinned'', ''screenshot'', ''contact_joined'', ''video_chat'', ''auto_delete'', ''upgraded'', ''topic_created'']"

lemma kind_strings: "take 20 (drop 56 string_names) = map (\<lambda>k. ''kind_'' @ k) kind_names"
  by (simp add: string_names_def kind_names_def)

lemma action_strings: "take 13 (drop 76 string_names) = map (\<lambda>k. ''action_'' @ k) action_names"
  by (simp add: string_names_def action_names_def)

lemma block_nth:
  assumes "take m (drop k xs) = map f ys" and "length ys = m" and "i < m" and "k + m \<le> length xs"
  shows "xs ! (k + i) = f (ys ! i)"
proof -
  have "take m (drop k xs) ! i = xs ! (k + i)" using assms(3,4) by simp
  then show ?thesis using assms by simp
qed

lemma tb_kind_label_name:
  assumes "1 \<le> unat kind" and "unat kind \<le> 20"
  shows "tb_kind_label strings kind = strings (''kind_'' @ kind_names ! (unat kind - 1))"
proof -
  have range: "kind \<ge> 1" "kind \<le> 20" using assms by (simp_all add: word_le_nat_alt)
  have "unat (55 + kind) = 55 + unat kind" using assms by (simp add: unat_plus_no_wrap)
  then have "unat (56 + kind - 1) = 56 + (unat kind - 1)" using assms by simp
  moreover have "string_names ! (56 + (unat kind - 1)) = ''kind_'' @ kind_names ! (unat kind - 1)"
    using assms by (intro block_nth [OF kind_strings]) (simp_all add: kind_names_def string_names_length)
  ultimately show ?thesis using range by (simp only: tb_kind_label_def string_at_def kind_photo_index if_True simp_thms)
qed

lemma tb_action_label_name:
  assumes "1 \<le> unat action" and "unat action \<le> 13"
  shows "tb_action_label strings action = strings (''action_'' @ action_names ! (unat action - 1))"
proof -
  have range: "action \<ge> 1" "action \<le> 13" using assms by (simp_all add: word_le_nat_alt)
  have "unat (75 + action) = 75 + unat action" using assms by (simp add: unat_plus_no_wrap)
  then have "unat (76 + action - 1) = 76 + (unat action - 1)" using assms by simp
  moreover have "string_names ! (76 + (unat action - 1)) = ''action_'' @ action_names ! (unat action - 1)"
    using assms by (intro block_nth [OF action_strings]) (simp_all add: action_names_def string_names_length)
  ultimately show ?thesis using range by (simp only: tb_action_label_def string_at_def action_index if_True simp_thms)
qed

section \<open>Printed numbers\<close>

lemmas print_eval = printed.simps ascii_def

lemma length_dec_digits: "n < 10 ^ k \<Longrightarrow> 0 < k \<Longrightarrow> length (dec_digits n) \<le> k"
proof (induction k arbitrary: n)
  case (Suc k)
  show ?case
  proof (cases "n < 10")
    case True
    then show ?thesis by (simp add: dec_digits.simps [of n])
  next
    case False
    with Suc.prems have "n div 10 < 10 ^ k" "0 < k" by (auto simp: div_less_iff_less_mult mult.commute intro!: gr0I)
    then show ?thesis using Suc.IH [of "n div 10"] False by (simp add: dec_digits.simps [of n])
  qed
qed simp

lemma print_padded_0 [simp]: "0 \<le> n \<Longrightarrow> print_padded 0 n = dec_digits (nat n)"
  by (simp add: print_padded_def print_id_def)

lemma print_padded_2:
  assumes "0 \<le> n" and "n < 100"
  shows "print_padded 2 n = [of_nat (48 + nat n div 10), of_nat (48 + nat n mod 10)]"
proof (cases "nat n < 10")
  case True
  then show ?thesis using assms(1)
    by (simp add: print_padded_def print_id_def dec_digits.simps [of "nat n"] div_less mod_less)
next
  case False
  then have "nat n div 10 < 10" using assms(2) by linarith
  then have "dec_digits (nat n) = [of_nat (48 + nat n div 10), of_nat (48 + nat n mod 10)]"
    using False by (simp add: dec_digits.simps [of "nat n"] dec_digits.simps [of "nat n div 10"])
  then show ?thesis using assms(1) by (simp add: print_padded_def print_id_def)
qed

lemma print_duration:
  "printed (ascii ''%d:%02d'') [Arg_int a, Arg_int b] = print_padded 0 a @ 58 # print_padded 2 b"
  by (simp add: print_eval is_digit_def)

lemma print_clock24:
  "printed (ascii ''%02d:%02d'') [Arg_int a, Arg_int b] = print_padded 2 a @ 58 # print_padded 2 b"
  by (simp add: print_eval is_digit_def)

lemma print_clock12:
  "printed (ascii ''%d:%02d%s'') [Arg_int a, Arg_int b, Arg_str c] = print_padded 0 a @ 58 # print_padded 2 b @ c"
  by (simp add: print_eval is_digit_def)

lemma print_date:
  "printed (ascii ''%02d.%02d'') [Arg_int a, Arg_int b] = print_padded 2 a @ 46 # print_padded 2 b"
  by (simp add: print_eval is_digit_def)

lemma print_string: "printed (ascii ''%s'') [Arg_str a] = a"
  by (simp add: print_eval)

lemma print_count:
  "printed (ascii ''%lu'') [Arg_int a] = print_padded 0 a" "printed (ascii ''%luk'') [Arg_int a] = print_padded 0 a @ [107]"
  by (simp_all add: print_eval)

lemma print_badge:
  "printed (ascii ''%s99+'') [Arg_str a] = a @ [57, 57, 43]"
  "printed (ascii ''%s%d'') [Arg_str a, Arg_int k] = a @ print_padded 0 k"
  by (simp_all add: print_eval)

lemma print_content:
  "printed (ascii '' %s'') [Arg_str a] = 32 # a"
  "printed (ascii ''[%s%s] %s'') [Arg_str a, Arg_str b, Arg_str c] = 91 # a @ b @ [93, 32] @ c"
  "printed (ascii ''[%s%s]'') [Arg_str a, Arg_str b] = 91 # a @ b @ [93]"
  by (simp_all add: print_eval)

lemma snprintf_fits: "printed f args = s \<Longrightarrow> length s < n \<Longrightarrow> snprintf out n f args = s"
  by (auto simp: snprintf_def)

lemma snprintf_less: "0 < n \<Longrightarrow> length (snprintf out n f args) < n"
  by (simp add: snprintf_def)

text \<open>Two digits are read back.\<close>

lemma two_digits:
  assumes "0 \<le> k" and "k < 100"
  shows "dec_value (print_padded 2 k) = nat k" "length (print_padded 2 k) = 2" "list_all is_digit (print_padded 2 k)"
proof -
  have d: "nat k div 10 < 10" using assms by linarith
  have "dec_value (map (\<lambda>x. of_nat (48 + x)) [nat k div 10, nat k mod 10]) = nat k"
    using d by (simp add: dec_value_def dec_step_def del: of_nat_add)
  then show "dec_value (print_padded 2 k) = nat k" by (simp add: print_padded_2 [OF assms])
  show "length (print_padded 2 k) = 2" "list_all is_digit (print_padded 2 k)"
    using d by (simp_all add: print_padded_2 [OF assms] digit_of_nat del: of_nat_add)
qed

lemma digits_then:
  assumes "list_all is_digit ds" and "\<not> is_digit c"
  shows "takeWhile is_digit (ds @ c # cs) = ds" "dropWhile is_digit (ds @ c # cs) = c # cs"
  using assms by (simp_all add: takeWhile_append dropWhile_append list_all_iff)

section \<open>Reading the texts back\<close>

text \<open>What the platform's \<open>localtime\<close> promises.\<close>

definition tm_ok :: "tm \<Rightarrow> bool" where
  "tm_ok t \<longleftrightarrow> 0 \<le> tm_min t \<and> tm_min t < 60 \<and> 0 \<le> tm_hour t \<and> tm_hour t < 24 \<and> 1 \<le> tm_mday t \<and> tm_mday t \<le> 31 \<and>
     0 \<le> tm_mon t \<and> tm_mon t < 12"

definition duration_value :: "cstring \<Rightarrow> nat" where
  "duration_value cs = dec_value (takeWhile is_digit cs) * 60 + dec_value (drop 1 (dropWhile is_digit cs))"

definition clock_value :: "cstring \<Rightarrow> nat \<times> nat" where
  "clock_value cs =
     (let h = dec_value (takeWhile is_digit cs); r = drop 1 (dropWhile is_digit cs); suffix = drop 2 r
      in (if suffix = ascii ''am'' then h mod 12 else if suffix = ascii ''pm'' then h mod 12 + 12 else h,
          dec_value (take 2 r)))"

lemma colon_no_digit [simp]: "\<not> is_digit 58"
  by (simp add: is_digit_def)

lemma minutes_length: "length (dec_digits (unat (s :: u16) div 60)) \<le> 4"
proof (rule length_dec_digits)
  have "unat s < 10 ^ 4 * 60" by (rule less_le_trans [OF unat_u16_less]) simp
  then show "unat s div 60 < 10 ^ 4" by (simp only: div_less_iff_less_mult zero_less_numeral)
qed simp

lemma duration_text:
  "8 \<le> n \<Longrightarrow> tb_format_duration out n s = dec_digits (unat s div 60) @ 58 # print_padded 2 (int (unat s mod 60))"
proof -
  assume n: "8 \<le> n"
  have "length (dec_digits (unat s div 60)) \<le> 4" by (rule minutes_length)
  moreover have "length (print_padded 2 (int (unat s mod 60))) = 2" by (rule two_digits(2)) simp_all
  moreover have "int (unat s) div 60 = int (unat s div 60)" by (simp only: zdiv_int of_nat_numeral)
  then have "print_padded 0 (int (unat s) div 60) = dec_digits (unat s div 60)"
    by (simp only: print_padded_0 of_nat_0_le_iff nat_int)
  ultimately show ?thesis using n
    unfolding tb_format_duration_def by (intro snprintf_fits) (simp_all add: print_duration zmod_int)
qed

lemma duration_roundtrip:
  assumes "8 \<le> n"
  shows "duration_value (tb_format_duration out n s) = unat s" "length (tb_format_duration out n s) < 8"
proof -
  let ?m = "print_padded 2 (int (unat s mod 60))"
  have m: "dec_value ?m = unat s mod 60" "length ?m = 2" using two_digits [of "int (unat s mod 60)"] by simp_all
  show "duration_value (tb_format_duration out n s) = unat s"
    by (simp add: duration_text [OF assms] duration_value_def digits_then dec_digits_digits dec_value_digits m(1))
  have "length (dec_digits (unat s div 60)) \<le> 4" by (rule minutes_length)
  then show "length (tb_format_duration out n s) < 8" by (simp add: duration_text [OF assms] m(2))
qed

lemma clock_text:
  assumes "tm_ok (localtime date)" and "8 \<le> n"
  defines "t \<equiv> localtime date"
  shows "tb_format_clock localtime out n date clock24 =
    (if clock24 then print_padded 2 (tm_hour t) @ 58 # print_padded 2 (tm_min t)
     else dec_digits (nat (if tm_hour t mod 12 = 0 then 12 else tm_hour t mod 12)) @ 58 # print_padded 2 (tm_min t) @
       (if tm_hour t < 12 then ascii ''am'' else ascii ''pm''))" (is "_ = ?text")
    and "length (tb_format_clock localtime out n date clock24) < 8"
proof -
  have t: "0 \<le> tm_hour t" "tm_hour t < 24" "0 \<le> tm_min t" "tm_min t < 60" using assms by (simp_all add: tm_ok_def)
  have two: "length (print_padded 2 (tm_hour t)) = 2" "length (print_padded 2 (tm_min t)) = 2"
    using t by (simp_all add: two_digits(2))
  have smod: "tm_hour t smod 12 = tm_hour t mod 12" using t by (simp add: smod_int_alt_def sgn_if)
  have "nat (tm_hour t mod 12) < 10 ^ 2" by simp
  then have h: "length (dec_digits (nat (if tm_hour t mod 12 = 0 then 12 else tm_hour t mod 12))) \<le> 2"
    by (intro length_dec_digits) simp_all
  then have len: "length ?text < 8" using two by (auto simp: ascii_def)
  moreover have "print_padded 0 (if tm_hour t mod 12 = 0 then 12 else tm_hour t mod 12) =
      dec_digits (nat (if tm_hour t mod 12 = 0 then 12 else tm_hour t mod 12))" by simp
  ultimately show "tb_format_clock localtime out n date clock24 = ?text"
    using assms(2) unfolding tb_format_clock_def Let_def t_def [symmetric] smod
    by (cases clock24; simp only: if_True if_False; intro snprintf_fits) (simp_all only: print_clock24 print_clock12 less_le_trans)
  then show "length (tb_format_clock localtime out n date clock24) < 8" using len by simp
qed

lemma clock_roundtrip:
  assumes "tm_ok (localtime date)" and "8 \<le> n"
  shows "clock_value (tb_format_clock localtime out n date clock24) =
    (nat (tm_hour (localtime date)), nat (tm_min (localtime date)))"
proof -
  define t where "t = localtime date"
  have t: "0 \<le> tm_hour t" "tm_hour t < 24" "0 \<le> tm_min t" "tm_min t < 60" using assms by (simp_all add: tm_ok_def t_def)
  note hour = two_digits [of "tm_hour t"] and minute = two_digits [of "tm_min t"]
  have suffix: "ascii ''am'' \<noteq> ascii ''pm''" "ascii ''am'' \<noteq> []" "ascii ''pm'' \<noteq> []" by (simp_all add: ascii_def)
  show ?thesis
  proof (cases clock24)
    case True
    then show ?thesis using t suffix
      by (simp add: clock_text(1) [of localtime, OF assms] clock_value_def digits_then hour minute Let_def flip: t_def)
  next
    case False
    have "nat (if tm_hour t mod 12 = 0 then 12 else tm_hour t mod 12) mod 12 =
        nat (if tm_hour t < 12 then tm_hour t else tm_hour t - 12)"
      using t by (cases "tm_hour t < 12") (auto simp: nat_mod_distrib le_mod_geq nat_diff_distrib)
    then show ?thesis using False t suffix
      by (auto simp: clock_text(1) [of localtime, OF assms] clock_value_def digits_then dec_digits_digits dec_value_digits minute Let_def
          simp flip: t_def)
  qed
qed

section \<open>Fitting texts\<close>

lemma count_length: "5 \<le> n \<Longrightarrow> length (tb_format_count out n v) \<le> 4"
proof -
  assume n: "5 \<le> n"
  have big: "unat (if v div 1000 > 999 then 999 else v div 1000) < 10 ^ 3"
    by (simp add: word_less_nat_alt word_le_nat_alt not_less)
  have small: "unat v < 10 ^ 4" if "\<not> v > 9999"
    using that by (simp add: word_less_nat_alt not_less)
  show ?thesis
    unfolding tb_format_count_def snprintf_def print_count
    using length_dec_digits [OF big] length_dec_digits [OF small] n by auto
qed

lemma badge_length: "length (tb_format_badge out n unread flags) \<le> 4 \<or> n = 0"
proof (cases "n = 0")
  case False
  have "unat unread < 10 ^ 2" if "\<not> unread > 99"
    using that by (simp add: word_less_nat_alt not_less)
  from length_dec_digits [OF this] have "length (dec_digits (unat unread)) \<le> 2" if "\<not> unread > 99" using that by simp
  moreover have "length (if has_flag flags TB_CHAT_FLAG_MENTION then ascii ''@'' else []) \<le> 1" by (simp add: ascii_def)
  ultimately show ?thesis
    unfolding tb_format_badge_def snprintf_def print_badge print_string Let_def by (auto simp del: if_split_asm)
qed simp

lemma detail_fits: "length (content_detail kind duration extra) < 64"
  by (simp add: content_detail_def snprintf_less)

lemma content_exact:
  assumes "kind \<notin> {TB_KIND_TEXT, TB_KIND_NONE, TB_KIND_SERVICE}" and "extra \<noteq> []" and "length extra < 63"
    and "length (tb_kind_label strings kind) + length extra + length txt + 5 < n"
  shows "tb_format_content out n strings kind action duration (Some extra) (Some txt) =
    91 # tb_kind_label strings kind @ 32 # extra @ (if txt = [] then [93] else [93, 32] @ txt)"
proof -
  have "content_detail kind duration extra = 32 # extra"
    using assms(2,3) unfolding content_detail_def by (simp only: if_True simp_thms) (intro snprintf_fits, simp_all add: print_content)
  then show ?thesis
    using assms unfolding tb_format_content_def Let_def
    by (cases "txt = []"; simp del: append.simps; intro snprintf_fits; simp add: print_content)
qed

text \<open>
  Unlike the texts the components keep, a formatted text is cut wherever its buffer ends, also inside a
  character: the name of a document longer than 62 bytes loses the second byte of a letter here.
\<close>

lemma format_cuts_characters:
  "\<exists>extra. utf8 extra \<and> \<not> utf8 (content_detail TB_KIND_PHOTO 0 extra)"
proof -
  define extra :: cstring where "extra = 0x61 # concat (replicate 32 [0xD0, 0xB0])"
  have two: "utf8 ([0xD0, 0xB0] @ r)" if "utf8 r" for r
    using utf8_Char [of "0xD0" "[0xB0]" r] that by (simp add: seq_len_def is_cont_def)
  have "utf8 (concat (replicate k [0xD0, 0xB0]))" for k
    by (induction k) (use two in \<open>simp_all add: utf8_Nil\<close>)
  then have "utf8 extra"
    using utf8_Char [of "0x61" "[]"] by (simp add: extra_def seq_len_def is_cont_def)
  moreover have detail: "content_detail TB_KIND_PHOTO 0 extra = 0x20 # 0x61 # concat (replicate 30 [0xD0, 0xB0]) @ [0xD0]"
    by (simp add: content_detail_def snprintf_def print_content extra_def numeral_eq_Suc)
  have one: "utf8 (b # r) \<Longrightarrow> b < 0x80 \<Longrightarrow> utf8 r" for b r
    by (erule utf8_ConsE) (auto simp: seq_len_def split: if_splits)
  have two': "utf8 r" if "utf8 (0xD0 # 0xB0 # r)" for r
    using that by (rule utf8_ConsE) (auto simp: seq_len_def is_cont_def Cons_eq_append_conv)
  have "\<not> utf8 (concat (replicate k [0xD0, 0xB0]) @ [0xD0])" for k
  proof (induction k)
    case 0
    show ?case by (auto elim!: utf8_ConsE simp: seq_len_def is_cont_def)
  next
    case (Suc k)
    then show ?case using two' by auto
  qed
  then have "\<not> utf8 (content_detail TB_KIND_PHOTO 0 extra)" unfolding detail by (auto dest!: one)
  ultimately show ?thesis by blast
qed

text \<open>A message of the day before yesterday can be announced as one of yesterday: only the hours are counted.\<close>

definition utc_days :: "int \<Rightarrow> tm" where
  "utc_days s = \<lparr>tm_min = s mod 3600 div 60, tm_hour = s mod 86400 div 3600, tm_mday = s div 86400 mod 28 + 1, tm_mon = 0,
     tm_year = 100, tm_yday = s div 86400\<rparr>"

lemma format_ago_yesterday:
  "\<exists>date now. \<not> tb_same_day utc_days date (now - 86400) \<and>
     tb_format_ago utc_days out n strings date now True = snprintf out n (strings ''yesterday_at'') [Arg_str (ascii ''00:20'')]"
proof (intro exI conjI)
  show "\<not> tb_same_day utc_days 1200 (173400 - 86400)" by (simp add: tb_same_day_def utc_days_def)
  have "tb_format_clock utc_days [] 16 1200 True = ascii ''00:20''"
    by (simp add: clock_text(1) utc_days_def tm_ok_def print_padded_2 ascii_def)
  then show "tb_format_ago utc_days out n strings 1200 173400 True =
      snprintf out n (strings ''yesterday_at'') [Arg_str (ascii ''00:20'')]"
    by (simp add: tb_format_ago_def)
qed

section \<open>Properties\<close>

text \<open>
  C25. Nothing is lost in the small buffers of times: the text of a duration or of a clock fits in
  eight bytes, in either clock style, and reading it back gives the seconds, or the hour and the
  minute, it was made of. A counter takes at most four characters.
\<close>

theorem format_times_roundtrip:
  assumes "tm_ok (localtime date)" and "8 \<le> n"
  shows "duration_value (tb_format_duration out n seconds) = unat seconds \<and> length (tb_format_duration out n seconds) < 8 \<and>
    clock_value (tb_format_clock localtime out n date clock24) = (nat (tm_hour (localtime date)), nat (tm_min (localtime date))) \<and>
    length (tb_format_clock localtime out n date clock24) < 8 \<and> length (tb_format_count out n v) \<le> 4"
  using duration_roundtrip [OF assms(2)] clock_roundtrip [of localtime, OF assms] clock_text(2) [of localtime, OF assms]
    count_length [of n] assms(2) by simp

theorem format_times_roundtrip_witness:
  "clock_value (tb_format_clock utc_days [] 16 81180 False) = (22, 33)"
  using format_times_roundtrip [of utc_days 81180 16 "[]" 0 False 0] by (simp add: tm_ok_def utc_days_def)

end
