(* ===== verification/Message_Text.thy ===== *)
theory Message_Text
  imports Clients
begin

text \<open>
  The reader of one message's full text (\<^verbatim>\<open>message_text.h\<close>, \<^verbatim>\<open>message_text.c\<close>): the text arrives
  in records and chunks and is collected in a growing heap buffer. The program has two readers, of
  the message itself and of the message it quotes; \<open>mt_callback\<close> says which one this is. The
  buffer is the list of the bytes before the terminator the code writes at \<open>text[length]\<close>.
\<close>

section \<open>Data\<close>

abbreviation (input) TB_TEXT_CHUNK :: nat where "TB_TEXT_CHUNK \<equiv> 512"

record 'v TbMessageText =
  mt_ports :: "'v TbViewPorts"
  mt_context :: 'v
  mt_callback :: TbRequestCallback
  mt_heap :: heap
  mt_limit :: u16
  mt_timeout :: u32
  mt_account :: cstring
  mt_chat :: cstring
  mt_message :: cstring
  mt_text :: "bytes option"
  mt_length :: u16
  mt_capacity :: u16
  mt_loading :: bool
  mt_truncated :: bool
  mt_error :: int
  mt_pending :: u32

section \<open>Operations\<close>

definition text_changed :: "'v TbMessageText \<Rightarrow> 'v TbMessageText" where
  "text_changed m = m\<lparr>mt_context := vp_changed (mt_ports m) (mt_context m)\<rparr>"

definition text_submit ::
  "'x TbRequestLayer \<times> 'v TbMessageText \<Rightarrow> 'x TbRequestLayer \<times> 'v TbMessageText" where
  "text_submit p =
     (case p of (L, m) \<Rightarrow>
        (let args = (request_args TB_REQUEST_MESSAGE)
               \<lparr>ra_text_limit := mt_limit m, ra_account := strncpy TB_ACCOUNT_ID_SIZE (mt_account m),
                ra_chat := strncpy TB_TELEGRAM_ID_SIZE (mt_chat m),
                ra_message := strncpy TB_TELEGRAM_ID_SIZE (mt_message m)\<rparr>;
             m1 = m\<lparr>mt_length := 0, mt_text := map_option (\<lambda>_. []) (mt_text m), mt_truncated := False,
                    mt_error := TB_ERROR_NONE, mt_loading := True\<rparr>
         in case tb_requests_submit L (Some args) (mt_timeout m1) 2 False (Some (mt_callback m1)) of
              (L1, q) \<Rightarrow>
                (let m2 = m1\<lparr>mt_pending := q\<rparr>;
                     m3 = (if q = 0 then m2\<lparr>mt_loading := False, mt_error := tb_error_submit_failed L1\<rparr> else m2)
                 in (L1, text_changed m3))))"

text \<open>\<open>while (capacity < length) { capacity *= 2; }\<close>; the loop starts from a positive capacity.\<close>

function grow_capacity :: "nat \<Rightarrow> nat \<Rightarrow> nat" where
  "grow_capacity capacity n = (if 0 < capacity \<and> capacity < n then grow_capacity (capacity * 2) n else capacity)"
  by pat_completeness auto
termination
  by (relation "measure (\<lambda>(capacity, n). n - capacity)") auto

declare grow_capacity.simps [simp del]

definition text_reserve :: "'v TbMessageText \<Rightarrow> nat \<Rightarrow> bool \<times> 'v TbMessageText" where
  "text_reserve m n =
     (if n \<le> unat (mt_capacity m) then (True, m)
      else
        (let capacity0 = (if mt_capacity m \<noteq> 0 then unat (mt_capacity m) else TB_TEXT_CHUNK);
             capacity1 = grow_capacity capacity0 n;
             capacity = (if capacity1 > unat (mt_limit m) then unat (mt_limit m) else capacity1)
         in case malloc (mt_heap m) (capacity + 1) of
              (False, h) \<Rightarrow> (False, m\<lparr>mt_heap := h\<rparr>)
            | (True, h) \<Rightarrow> (True, m\<lparr>mt_heap := h, mt_capacity := of_nat capacity\<rparr>)))"

definition text_record :: "u8 \<Rightarrow> TbCursor \<Rightarrow> 'v TbMessageText \<Rightarrow> 'v TbMessageText \<times> bool option" where
  "text_record t body m =
     (case (if t = TB_RECORD_TEXT then tb_codec_text body else None) of
        None \<Rightarrow> (m, Some False)
      | Some part \<Rightarrow>
          (let len = unat (span_length part); data = span_data part;
               room = unat (mt_limit m) - unat (mt_length m);
               size0 = (if len < room then len else room);
               size = (if size0 < len then utf8_back data size0 else size0);
               m1 = (if size0 < len then m\<lparr>mt_truncated := True\<rparr> else m)
           in case text_reserve m1 (unat (mt_length m1) + size) of
                (False, m2) \<Rightarrow> (m2\<lparr>mt_truncated := True\<rparr>, Some True)
              | (True, m2) \<Rightarrow>
                  (m2\<lparr>mt_text := map_option (\<lambda>text. take (unat (mt_length m2)) text @ take size data) (mt_text m2),
                      mt_length := of_nat (unat (mt_length m2) + size)\<rparr>, None)))"

definition text_append :: "'v TbMessageText \<Rightarrow> TbResponse \<Rightarrow> 'v TbMessageText \<times> bool" where
  "text_append m r = records_loop False True text_record (tb_cursor_init (rs_payload r) (rs_length r)) m"

definition text_completed ::
  "u32 \<Rightarrow> TbResponse \<Rightarrow> 'x TbRequestLayer \<times> 'v TbMessageText \<Rightarrow> 'x TbRequestLayer \<times> 'v TbMessageText" where
  "text_completed q r p =
     (case p of (L, m) \<Rightarrow>
        if q \<noteq> mt_pending m \<or> rs_outcome r = TB_OUTCOME_CANCELLED then (L, m)
        else
          (let failed0 = (rs_outcome r \<noteq> TB_OUTCOME_RESPONSE \<or> rs_result r \<noteq> TB_RESULT_OK);
               (m1, ok) = (if failed0 then (m, True) else text_append m r);
               error = (if failed0 then tb_error_from_response r else TB_RESULT_PROTOCOL_ERROR)
           in if failed0 \<or> \<not> ok then
                ((if \<not> rs_final r then cancel_request L q else L),
                 text_changed (m1\<lparr>mt_pending := 0, mt_loading := False, mt_error := error, mt_length := 0,
                   mt_text := map_option (\<lambda>_. []) (mt_text m1)\<rparr>))
              else
                (let m2 = (if rs_index r = 0 \<and> has_flag (rs_flags r) TB_FLAG_TRUNCATED
                           then m1\<lparr>mt_truncated := True\<rparr> else m1)
                 in (L, if rs_final r then text_changed (m2\<lparr>mt_pending := 0, mt_loading := False\<rparr>) else m2))))"

definition tb_message_text_init ::
  "TbRequestCallback \<Rightarrow> 'v TbViewPorts \<Rightarrow> 'v \<Rightarrow> heap \<Rightarrow> u16 \<Rightarrow> u32 \<Rightarrow> 'v TbMessageText" where
  "tb_message_text_init callback ports context h limit timeout =
     \<lparr>mt_ports = ports, mt_context = context, mt_callback = callback, mt_heap = h, mt_limit = limit,
      mt_timeout = timeout, mt_account = [], mt_chat = [], mt_message = [], mt_text = None,
      mt_length = 0, mt_capacity = 0, mt_loading = False, mt_truncated = False, mt_error = 0,
      mt_pending = 0\<rparr>"

definition tb_message_text_close ::
  "'x TbRequestLayer \<times> 'v TbMessageText \<Rightarrow> 'x TbRequestLayer \<times> 'v TbMessageText" where
  "tb_message_text_close p =
     (case p of (L, m) \<Rightarrow>
        ((if mt_pending m \<noteq> 0 then cancel_request L (mt_pending m) else L),
         m\<lparr>mt_pending := 0, mt_text := None, mt_capacity := 0, mt_length := 0, mt_loading := False,
           mt_truncated := False\<rparr>))"

definition tb_message_text_open ::
  "'x TbRequestLayer \<times> 'v TbMessageText \<Rightarrow> cstring \<Rightarrow> cstring \<Rightarrow> cstring \<Rightarrow>
   bool \<times> 'x TbRequestLayer \<times> 'v TbMessageText" where
  "tb_message_text_open p account chat message =
     (case tb_message_text_close p of (L, m) \<Rightarrow>
        (let capacity = (if unat (mt_limit m) < TB_TEXT_CHUNK then mt_limit m else of_nat TB_TEXT_CHUNK)
         in case malloc (mt_heap m) (unat capacity + 1) of
              (False, h) \<Rightarrow>
                (False, L, m\<lparr>mt_heap := h, mt_capacity := 0, mt_error := TB_ERROR_OUT_OF_MEMORY\<rparr>)
            | (True, h) \<Rightarrow>
                (True, text_submit (L, m\<lparr>mt_heap := h, mt_capacity := capacity, mt_text := Some [],
                   mt_account := strncpy TB_ACCOUNT_ID_SIZE account,
                   mt_chat := strncpy TB_TELEGRAM_ID_SIZE chat,
                   mt_message := strncpy TB_TELEGRAM_ID_SIZE message\<rparr>))))"

definition tb_message_text_retry ::
  "'x TbRequestLayer \<times> 'v TbMessageText \<Rightarrow> 'x TbRequestLayer \<times> 'v TbMessageText" where
  "tb_message_text_retry p = (if mt_text (snd p) = None \<or> mt_loading (snd p) then p else text_submit p)"

section \<open>Invariant\<close>

text \<open>
  The text has \<open>length\<close> bytes, they fit the allocated capacity and the capacity the limit, so the
  terminator is written inside the allocation; without a buffer nothing is counted or awaited.
\<close>

definition text_buffer_ok :: "'v TbMessageText \<Rightarrow> bool" where
  "text_buffer_ok m \<longleftrightarrow> mt_length m \<le> mt_capacity m \<and> mt_capacity m \<le> mt_limit m \<and>
     (case mt_text m of
        None \<Rightarrow> mt_capacity m = 0 \<and> mt_pending m = 0
      | Some t \<Rightarrow> length t = unat (mt_length m))"

definition text_inv :: "'v TbMessageText \<Rightarrow> bool" where
  "text_inv m \<longleftrightarrow> text_buffer_ok m \<and> (mt_loading m \<longleftrightarrow> mt_pending m \<noteq> 0)"

lemma grow_capacity_ge: "0 < c \<Longrightarrow> n \<le> grow_capacity c n \<and> c \<le> grow_capacity c n"
proof (induction c n rule: grow_capacity.induct)
  case (1 c n)
  then show ?case by (subst (1 2) grow_capacity.simps) auto
qed

lemma text_reserve_frame:
  assumes "text_reserve m n = (ok, m')"
  shows "m' = m\<lparr>mt_heap := mt_heap m', mt_capacity := mt_capacity m'\<rparr>"
  using assms by (auto simp: text_reserve_def Let_def split: if_splits prod.splits bool.splits)

lemma text_reserve_capacity:
  assumes "text_reserve m n = (ok, m')" and "n \<le> unat (mt_limit m)" and "mt_capacity m \<le> mt_limit m"
  shows "mt_capacity m \<le> mt_capacity m' \<and> mt_capacity m' \<le> mt_limit m \<and> (ok \<longrightarrow> n \<le> unat (mt_capacity m'))"
proof -
  let ?c = "if mt_capacity m \<noteq> 0 then unat (mt_capacity m) else 512"
  have g: "n \<le> grow_capacity ?c n" "unat (mt_capacity m) \<le> grow_capacity ?c n"
    using grow_capacity_ge [of ?c n] by (auto simp: unat_gt_0 split: if_splits)
  define k where "k = min (grow_capacity ?c n) (unat (mt_limit m))"
  have k: "n \<le> k" "k \<le> unat (mt_limit m)" "unat (mt_capacity m) \<le> k"
    using g assms(2,3) by (auto simp: k_def word_le_nat_alt)
  have "k < 65536" using k(2) unat_u16_less [of "mt_limit m"] by linarith
  then have u: "unat (of_nat k :: u16) = k" by simp
  show ?thesis
  proof (cases "n \<le> unat (mt_capacity m) \<or> \<not> ok")
    case True
    then show ?thesis
      using assms(1,3) by (auto simp: text_reserve_def Let_def split: if_splits prod.splits bool.splits)
  next
    case False
    then have "mt_capacity m' = of_nat k"
      using assms(1) by (auto simp: text_reserve_def Let_def k_def min_def split: if_splits prod.splits bool.splits)
    then show ?thesis using u k by (simp add: word_le_nat_alt)
  qed
qed

text \<open>What a record adds is what fits the limit, cut at a character boundary.\<close>

lemma text_size_fit:
  assumes "wf_span part"
  shows "(if (if unat (span_length part) < room then unat (span_length part) else room) < unat (span_length part)
     then utf8_back (span_data part) (if unat (span_length part) < room then unat (span_length part) else room)
     else (if unat (span_length part) < room then unat (span_length part) else room)) =
     tb_utf8_fit (span_data part) (unat (span_length part)) (room + 1)"
  using assms by (auto simp: tb_utf8_fit_def Let_def wf_span_def)

text \<open>The effect of a text record, as the invariant and the contents need it.\<close>

lemma text_record_effect:
  assumes ok: "text_buffer_ok m" and w: "wf_cursor body" and h: "text_record t body m = (m', res)"
    and t: "mt_text m = Some old"
  obtains (malformed) "m' = m" "res = Some False" "t \<noteq> TB_RECORD_TEXT \<or> tb_codec_text body = None"
  | (no_memory) "res = Some True" "mt_truncated m'" "m' = m\<lparr>mt_truncated := True, mt_heap := mt_heap m'\<rparr>"
  | (appended) part size where "t = TB_RECORD_TEXT" "tb_codec_text body = Some part" "wf_span part" "res = None"
      "size = tb_utf8_fit (span_data part) (unat (span_length part)) (unat (mt_limit m) - unat (mt_length m) + 1)"
      "mt_text m' = Some (old @ take size (span_data part))" "unat (mt_length m') = unat (mt_length m) + size"
      "mt_capacity m' \<le> mt_limit m" "mt_length m' \<le> mt_capacity m'" "mt_limit m' = mt_limit m"
      "mt_pending m' = mt_pending m" "mt_loading m' = mt_loading m"
      "mt_truncated m' = (mt_truncated m \<or> size < unat (span_length part))"
proof (cases "if t = TB_RECORD_TEXT then tb_codec_text body else None")
  case None
  then show thesis using h by (intro malformed) (auto simp: text_record_def split: if_splits)
next
  case (Some part)
  then have tt: "t = TB_RECORD_TEXT" "tb_codec_text body = Some part" by (auto split: if_splits)
  have wp: "wf_span part" using text_span [OF w tt(2)] .
  define room where "room = unat (mt_limit m) - unat (mt_length m)"
  define size0 where "size0 = (if unat (span_length part) < room then unat (span_length part) else room)"
  define size where "size = (if size0 < unat (span_length part) then utf8_back (span_data part) size0 else size0)"
  define m1 where "m1 = (if size0 < unat (span_length part) then m\<lparr>mt_truncated := True\<rparr> else m)"
  obtain rok m2 where rs: "text_reserve m1 (unat (mt_length m1) + size) = (rok, m2)" by fastforce
  have fit: "size = tb_utf8_fit (span_data part) (unat (span_length part)) (room + 1)"
    unfolding size_def size0_def by (rule text_size_fit [OF wp])
  have size: "size \<le> room" "size \<le> unat (span_length part)"
    using tb_utf8_fit_le [where d = "span_data part" and len = "unat (span_length part)" and capacity = "room + 1"]
    by (simp_all add: fit)
  have cut: "size0 < unat (span_length part) \<longleftrightarrow> size < unat (span_length part)"
    using size(2) utf8_back_le [of "span_data part" size0] by (auto simp: size_def size0_def)
  have lim: "mt_length m \<le> mt_capacity m" "mt_capacity m \<le> mt_limit m" "length old = unat (mt_length m)"
    using ok t by (simp_all add: text_buffer_ok_def)
  have m1: "mt_length m1 = mt_length m" "mt_limit m1 = mt_limit m" "mt_capacity m1 = mt_capacity m"
    "mt_text m1 = mt_text m" "mt_pending m1 = mt_pending m" "mt_loading m1 = mt_loading m"
    "mt_truncated m1 = (mt_truncated m \<or> size < unat (span_length part))"
    by (auto simp: m1_def cut)
  have fits: "unat (mt_length m) + size \<le> unat (mt_limit m)"
    using size(1) order_trans [OF lim(1,2)] by (simp add: room_def word_le_nat_alt)
  note cap = text_reserve_capacity [OF rs, unfolded m1, OF fits lim(2)]
  note fr = text_reserve_frame [OF rs]
  have eq: "text_record t body m =
      (case (rok, m2) of
         (False, m2) \<Rightarrow> (m2\<lparr>mt_truncated := True\<rparr>, Some True)
       | (True, m2) \<Rightarrow>
           (m2\<lparr>mt_text := map_option (\<lambda>text. take (unat (mt_length m2)) text @ take size (span_data part)) (mt_text m2),
               mt_length := of_nat (unat (mt_length m2) + size)\<rparr>, None))"
    by (simp only: text_record_def tt Let_def simp_thms(6) if_True option.case rs
        flip: room_def size0_def size_def m1_def)
  show thesis
  proof (cases rok)
    case False
    then have "m2 = m1\<lparr>mt_heap := mt_heap m2\<rparr>"
      using rs by (auto simp: text_reserve_def Let_def split: if_splits prod.splits bool.splits)
    then have "m2\<lparr>mt_truncated := True\<rparr> = m\<lparr>mt_truncated := True, mt_heap := mt_heap m2\<rparr>"
      unfolding m1_def by (cases m; cases m2) (simp split: if_splits)
    then show thesis using False eq h by (intro no_memory) auto
  next
    case True
    have l2: "mt_length m2 = mt_length m" "mt_limit m2 = mt_limit m" "mt_text m2 = Some old"
      "mt_pending m2 = mt_pending m" "mt_loading m2 = mt_loading m" "mt_truncated m2 = mt_truncated m1"
      by (subst fr, simp add: m1 t)+
    have u: "unat (of_nat (unat (mt_length m) + size) :: u16) = unat (mt_length m) + size"
      using fits unat_u16_less [of "mt_limit m"] by (intro unat_of_nat_u16) linarith
    have m': "m' = m2\<lparr>mt_text := Some (old @ take size (span_data part)),
        mt_length := of_nat (unat (mt_length m) + size)\<rparr>" "res = None"
      using eq h True l2 lim(3) by simp_all
    show thesis
      by (rule appended [OF tt wp m'(2) fit [unfolded room_def]])
        (use cap True u m1 in \<open>simp_all add: m'(1) l2 word_le_nat_alt\<close>)
  qed
qed

lemma text_record_inv:
  assumes "text_buffer_ok m \<and> mt_text m \<noteq> None" and "wf_cursor body" and "text_record t body m = (m', res)"
  shows "text_buffer_ok m' \<and> mt_text m' \<noteq> None \<and> mt_pending m' = mt_pending m \<and> mt_loading m' = mt_loading m"
proof -
  obtain old where t: "mt_text m = Some old" using assms(1) by auto
  have lim: "mt_length m \<le> mt_capacity m" "mt_capacity m \<le> mt_limit m" "length old = unat (mt_length m)"
    using assms(1) t by (simp_all add: text_buffer_ok_def)
  show ?thesis
  proof (rule text_record_effect [OF _ assms(2,3) t])
    fix part size
    assume e: "wf_span part" "size = tb_utf8_fit (span_data part) (unat (span_length part)) (unat (mt_limit m) - unat (mt_length m) + 1)"
      "mt_text m' = Some (old @ take size (span_data part))" "unat (mt_length m') = unat (mt_length m) + size"
      "mt_capacity m' \<le> mt_limit m" "mt_length m' \<le> mt_capacity m'" "mt_limit m' = mt_limit m"
      "mt_pending m' = mt_pending m" "mt_loading m' = mt_loading m"
    have "size \<le> length (span_data part)"
      using e(1) tb_utf8_fit_le(1) [of "span_data part" "unat (span_length part)"] unfolding e(2)
      by (meson order_trans wf_span_def)
    with e lim show ?thesis by (simp add: text_buffer_ok_def)
  next
    assume m': "m' = m\<lparr>mt_truncated := True, mt_heap := mt_heap m'\<rparr>"
    have "mt_text m' = mt_text m" "mt_length m' = mt_length m" "mt_capacity m' = mt_capacity m" "mt_limit m' = mt_limit m"
      "mt_pending m' = mt_pending m" "mt_loading m' = mt_loading m"
      by (subst m', simp)+
    then show ?thesis using assms(1) t by (simp add: text_buffer_ok_def)
  qed (use assms(1) in \<open>auto simp: t\<close>)
qed

interpretation text_records: record_handler text_record
  "\<lambda>m. text_buffer_ok m \<and> mt_text m \<noteq> None \<and> mt_pending m = q \<and> mt_loading m = b" for q b
  by unfold_locales (use text_record_inv in blast)

lemma text_append_inv:
  assumes "text_buffer_ok m" and "mt_text m \<noteq> None" and "response_ok r" and "text_append m r = (m', ok)"
  shows "text_buffer_ok m' \<and> mt_text m' \<noteq> None \<and> mt_pending m' = mt_pending m \<and> mt_loading m' = mt_loading m"
  using text_records.loop_inv [of "tb_cursor_init (rs_payload r) (rs_length r)" m "mt_pending m" "mt_loading m" False True]
    assms by (simp add: text_append_def)

lemma text_changed_frame [simp]:
  "text_inv (text_changed m) = text_inv m" "mt_pending (text_changed m) = mt_pending m"
  "mt_text (text_changed m) = mt_text m" "mt_limit (text_changed m) = mt_limit m"
  by (simp_all add: text_changed_def text_inv_def text_buffer_ok_def split: option.split)

lemma text_submit_inv:
  assumes "text_buffer_ok m" and "mt_text m \<noteq> None"
  shows "text_inv (snd (text_submit (L, m)))"
  using assms by (auto simp: text_submit_def Let_def split: prod.splits)
    (auto simp: text_inv_def text_buffer_ok_def split: option.splits)

lemma text_submit_layer [tb_inv]: "requests_inv L \<Longrightarrow> requests_inv (fst (text_submit (L, m)))"
  by (auto simp: text_submit_def Let_def dest: submit_pair_inv split: prod.splits)

lemma text_pending_some: "text_inv m \<Longrightarrow> mt_pending m \<noteq> 0 \<Longrightarrow> mt_text m \<noteq> None"
  by (auto simp: text_inv_def text_buffer_ok_def split: option.splits)

lemma text_failed_inv:
  "text_buffer_ok m \<Longrightarrow> mt_text m \<noteq> None \<Longrightarrow>
   text_inv (m\<lparr>mt_pending := 0, mt_loading := False, mt_error := e, mt_length := 0, mt_text := map_option (\<lambda>_. []) (mt_text m)\<rparr>)"
  by (auto simp: text_inv_def text_buffer_ok_def)

lemma text_completed_layer [tb_inv]: "requests_inv L \<Longrightarrow> requests_inv (fst (text_completed q r (L, m)))"
  by (auto simp: text_completed_def Let_def tb_inv split: prod.splits)

lemma text_completed_inv:
  assumes inv: "text_inv m" and q: "q \<noteq> 0" and r: "response_ok r"
  shows "text_inv (snd (text_completed q r (L, m)))"
proof (cases "q \<noteq> mt_pending m \<or> rs_outcome r = TB_OUTCOME_CANCELLED")
  case True
  then show ?thesis using inv by (auto simp: text_completed_def)
next
  case live: False
  then have False: "q = mt_pending m" "rs_outcome r \<noteq> TB_OUTCOME_CANCELLED" "mt_text m \<noteq> None"
    using text_pending_some [OF inv] q by auto
  have b: "text_buffer_ok m" using inv by (simp add: text_inv_def)
  obtain m1 ok where a: "text_append m r = (m1, ok)" by fastforce
  note ap = text_append_inv [OF b _ r a]
  have m1: "text_inv m1" "text_buffer_ok m1" "mt_text m1 \<noteq> None" using ap False inv by (auto simp: text_inv_def)
  have fr: "text_inv (m1\<lparr>mt_truncated := t\<rparr>)" "text_inv (m1\<lparr>mt_truncated := t, mt_pending := 0, mt_loading := False\<rparr>)"
    "text_inv (m1\<lparr>mt_pending := 0, mt_loading := False\<rparr>)" for t
    using m1 by (auto simp: text_inv_def text_buffer_ok_def)
  show ?thesis
    using False a b m1 fr by (simp add: text_completed_def Let_def text_failed_inv)
qed

interpretation message_text: request_client mt_pending text_completed text_inv
  by unfold_locales (simp_all add: text_completed_inv tb_inv, auto simp: text_completed_def)

lemma text_close_inv: "text_inv (snd (tb_message_text_close (L, m)))"
  by (simp add: tb_message_text_close_def text_inv_def text_buffer_ok_def)

lemma text_close_layer [tb_inv]: "requests_inv L \<Longrightarrow> requests_inv (fst (tb_message_text_close (L, m)))"
  by (simp add: tb_message_text_close_def tb_inv)

lemma text_open_inv:
  assumes "requests_inv L"
  shows "requests_inv (fst (snd (tb_message_text_open (L, m) a c i))) \<and>
     text_inv (snd (snd (tb_message_text_open (L, m) a c i)))"
proof -
  obtain L1 m1 where c: "tb_message_text_close (L, m) = (L1, m1)" by fastforce
  have l: "requests_inv L1" using text_close_layer [OF assms, of m] c by simp
  have m1: "mt_length m1 = 0" "mt_pending m1 = 0" "mt_loading m1 = False" "mt_text m1 = None" "mt_capacity m1 = 0"
    using c by (auto simp: tb_message_text_close_def)
  have ok: "text_buffer_ok (m1\<lparr>mt_heap := h, mt_capacity := (if unat (mt_limit m1) < 512 then mt_limit m1 else 512),
      mt_text := Some [], mt_account := x, mt_chat := y, mt_message := z\<rparr>)" for h x y z
    using m1 by (simp add: text_buffer_ok_def word_le_nat_alt)
  show ?thesis
    using l m1 text_submit_inv [OF ok] ok
    by (auto simp: tb_message_text_open_def c Let_def tb_inv split: prod.splits bool.splits)
      (simp_all add: text_inv_def text_buffer_ok_def)
qed

lemma text_retry_inv:
  assumes "requests_inv L" and "text_inv m"
  shows "requests_inv (fst (tb_message_text_retry (L, m))) \<and> text_inv (snd (tb_message_text_retry (L, m)))"
  using assms text_submit_inv [of m L] by (auto simp: tb_message_text_retry_def tb_inv text_inv_def)

lemma text_inv_context [simp]: "text_inv (m\<lparr>mt_context := v\<rparr>) = text_inv m"
  by (simp add: text_inv_def text_buffer_ok_def split: option.split)

lemma text_inv_error [simp]: "text_inv (m\<lparr>mt_error := e\<rparr>) = text_inv m"
  by (simp add: text_inv_def text_buffer_ok_def split: option.split)

text \<open>
  The operations and what arrives for them; \<^verbatim>\<open>main.c\<close> itself resets the error. The last rule is the rest of the
  program and the platform: the layer and the context of the ports, with its clock, may be others.
\<close>

inductive text_step ::
  "'x TbRequestLayer \<times> 'v TbMessageText \<Rightarrow> 'x TbRequestLayer \<times> 'v TbMessageText \<Rightarrow> bool" where
  tx_open: "text_step p (snd (tb_message_text_open p account chat message))"
| tx_retry: "text_step p (tb_message_text_retry p)"
| tx_close: "text_step p (tb_message_text_close p)"
| tx_completed: "q \<noteq> 0 \<Longrightarrow> response_ok r \<Longrightarrow> text_step p (text_completed q r p)"
| tx_error: "text_step (L, m) (L, m\<lparr>mt_error := e\<rparr>)"
| tx_layer: "requests_inv L' \<Longrightarrow> text_step (L, m) (L', m\<lparr>mt_context := v\<rparr>)"

lemma text_step_inv:
  assumes "text_step p p'" and "requests_inv (fst p)" and "text_inv (snd p)"
  shows "requests_inv (fst p') \<and> text_inv (snd p')"
  using assms
proof (induction rule: text_step.induct)
  case (tx_open p a c i)
  then show ?case by (cases p) (simp add: text_open_inv)
next
  case (tx_retry p)
  then show ?case by (cases p) (simp add: text_retry_inv)
next
  case (tx_close p)
  then show ?case by (cases p) (simp add: text_close_inv tb_inv)
next
  case (tx_completed q r p)
  then show ?case by (cases p) (simp add: text_completed_inv tb_inv)
qed simp_all

lemma text_init_inv: "text_inv (tb_message_text_init cb ports v h limit timeout)"
  by (simp add: tb_message_text_init_def text_inv_def text_buffer_ok_def)

lemma text_steps_inv:
  "text_step\<^sup>*\<^sup>* p p' \<Longrightarrow> requests_inv (fst p) \<Longrightarrow> text_inv (snd p) \<Longrightarrow>
   requests_inv (fst p') \<and> text_inv (snd p')"
  by (induction rule: rtranclp_induct) (auto dest: text_step_inv)

section \<open>Contents\<close>

text \<open>A text record as the phone encodes it.\<close>

definition text_frame :: "bytes \<Rightarrow> u8 \<times> bytes" where
  "text_frame p = (TB_RECORD_TEXT, le_bytes 2 (length p) @ p)"

lemma codec_text_complete:
  assumes "wf_cursor body" and "cur_rest body = le_bytes 2 (length p) @ p" and "length p < 65536"
  obtains part where "tb_codec_text body = Some part" "span_bytes part = p" "wf_span part" "unat (span_length part) = length p"
proof -
  have "spec_decode tb_layout_text (cur_rest body) = Some [SBytes p]"
    using spec_decode_iff [of tb_layout_text "cur_rest body" "[SBytes p]"] assms by (simp add: tb_layout_text_def)
  then obtain vs where vs: "tb_codec_decode body tb_layout_text = Some vs" "map abs_value vs = [SBytes p]"
    using tb_codec_decode_refines [OF assms(1), of tb_layout_text] by auto
  then obtain v where v: "vs = [v]" "abs_value v = SBytes p" by auto
  then obtain part where part: "v = VSpan part" "span_bytes part = p" by (cases v) auto
  have c: "tb_codec_text body = Some part" using vs v part by (simp add: tb_codec_text_def)
  note w = text_span [OF assms(1) c]
  show thesis by (rule that [OF c part(2) w]) (use w part(2) length_span_bytes in metis)
qed

text \<open>As long as the parts fit the limit and the heap provides, a record adds its part unchanged.\<close>

lemma text_reserve_grants:
  assumes "grants_all (mt_heap m)" and "text_reserve m n = (ok, m')"
  shows "ok" and "grants_all (mt_heap m')"
  using assms by (auto simp: text_reserve_def grants_all_def malloc_def Let_def split: if_splits)

lemma text_record_complete:
  assumes ok: "text_buffer_ok m" and t: "mt_text m = Some old" and g: "grants_all (mt_heap m)"
    and w: "wf_cursor body" and b: "cur_rest body = le_bytes 2 (length p) @ p" and p: "length p < 65536"
    and fits: "length old + length p \<le> unat (mt_limit m)"
  obtains m' where "text_record TB_RECORD_TEXT body m = (m', None)" "mt_text m' = Some (old @ p)"
    "mt_truncated m' = mt_truncated m" "text_buffer_ok m'" "mt_limit m' = mt_limit m" "grants_all (mt_heap m')"
proof -
  obtain part where part: "tb_codec_text body = Some part" "span_bytes part = p" "wf_span part"
      "unat (span_length part) = length p"
    using codec_text_complete [OF w b p] .
  obtain m' res where h: "text_record TB_RECORD_TEXT body m = (m', res)" by fastforce
  have inv: "text_buffer_ok m'" using text_record_inv [OF _ w h] ok t by simp
  have len: "length old = unat (mt_length m)" using ok t by (simp add: text_buffer_ok_def)
  have gr: "res \<noteq> Some True \<and> grants_all (mt_heap m')"
    using h g part(1)
    by (auto simp: text_record_def Let_def dest: text_reserve_grants [rotated] split: prod.splits bool.splits if_splits)
  show thesis
  proof (rule text_record_effect [OF ok w h t])
    fix part' size
    assume e: "tb_codec_text body = Some part'" "res = None"
      "size = tb_utf8_fit (span_data part') (unat (span_length part')) (unat (mt_limit m) - unat (mt_length m) + 1)"
      "mt_text m' = Some (old @ take size (span_data part'))" "mt_limit m' = mt_limit m"
      "mt_truncated m' = (mt_truncated m \<or> size < unat (span_length part'))"
    have [simp]: "part' = part" using e(1) part(1) by simp
    have "length p < unat (mt_limit m) - unat (mt_length m) + 1" using fits len by linarith
    moreover have "span_data part \<noteq> []" if "p \<noteq> []" using part(2) that by (auto simp: span_bytes_def)
    ultimately have "size = length p"
      using e(3) part(4) tb_utf8_fit_all [of "length p" "unat (mt_limit m) - unat (mt_length m) + 1" "span_data part"]
      by (cases "p = []") simp_all
    then show thesis using e part inv gr h by (intro that) (simp_all add: span_bytes_def)
  qed (use gr part in auto)
qed

lemma text_parts_loop:
  assumes "wf_cursor c" and "cur_rest c = encode_frames (map text_frame ps)" and "\<forall>p \<in> set ps. length p < 65534"
    and "text_buffer_ok m" and "mt_text m = Some old" and "grants_all (mt_heap m)"
    and "length old + length (concat ps) \<le> unat (mt_limit m)"
  shows "\<exists>m'. records_loop False True text_record c m = (m', True) \<and> mt_text m' = Some (old @ concat ps) \<and>
     mt_truncated m' = mt_truncated m \<and> text_buffer_ok m' \<and> mt_limit m' = mt_limit m \<and> grants_all (mt_heap m')"
  using assms
proof (induction ps arbitrary: c m old)
  case Nil
  then show ?case by (simp add: records_loop_end offset_less_iff)
next
  case (Cons p ps)
  have r: "cur_rest c = encode_frame (TB_RECORD_TEXT, le_bytes 2 (length p) @ p) @ encode_frames (map text_frame ps)"
    using Cons.prems(2) by (simp add: text_frame_def [of p])
  obtain body c' where n: "tb_codec_next c = Some (TB_RECORD_TEXT, body, c')"
    and b: "cur_rest body = le_bytes 2 (length p) @ p" "cur_rest c' = encode_frames (map text_frame ps)"
    using tb_codec_next_complete [OF Cons.prems(1) r] Cons.prems(3) by auto
  note w = tb_codec_next_sound(1,2) [OF Cons.prems(1) n]
  obtain m' where m': "text_record TB_RECORD_TEXT body m = (m', None)" "mt_text m' = Some (old @ p)"
    "mt_truncated m' = mt_truncated m" "text_buffer_ok m'" "mt_limit m' = mt_limit m" "grants_all (mt_heap m')"
    using text_record_complete [OF Cons.prems(4-6) w(1) b(1)] Cons.prems(3,7) by auto
  have "cur_offset c < cur_length c"
    using Cons.prems(1) r by (simp add: offset_less_iff encode_frame_def)
  then have "records_loop False True text_record c m = records_loop False True text_record c' m'"
    using records_loop_next [OF _ n, where h = text_record, OF _ m'(1)] by blast
  then show ?case
    using Cons.IH [OF w(2) b(2) _ m'(4,2,6)] Cons.prems(3,7) m' by simp
qed

section \<open>Properties\<close>


definition sample_reader :: "nat TbMessageText" where
  "sample_reader = tb_message_text_init CB_TEXT sample_view_ports 0 sample_heap 1000 8000"


text \<open>
  C27. A response that carries a message's text in any number of parts is collected without loss:
  as long as the text fits the limit and the heap provides, the reader holds exactly the
  concatenation of the parts after what it had, and nothing is marked as truncated.
\<close>

theorem message_text_complete:
  assumes "text_buffer_ok m" and "mt_text m = Some old" and "grants_all (mt_heap m)"
    and "unat (rs_length r) \<le> length data" and "rs_payload r = Some data"
    and "take (unat (rs_length r)) data = encode_frames (map text_frame ps)" and "list_all (\<lambda>p. length p < 65534) ps"
    and "length old + length (concat ps) \<le> unat (mt_limit m)"
  shows "\<exists>m'. text_append m r = (m', True) \<and> mt_text m' = Some (old @ concat ps) \<and>
     mt_truncated m' = mt_truncated m \<and> text_buffer_ok m'"
  using text_parts_loop [of "tb_cursor_init (rs_payload r) (rs_length r)" ps m old] assms
  by (auto simp: text_append_def list_all_iff)

definition sample_text_response :: TbResponse where
  "sample_text_response = \<lparr>rs_outcome = TB_OUTCOME_RESPONSE, rs_result = 0, rs_flags = 0, rs_retry_after = 0,
     rs_payload = Some [5, 4, 0, 2, 0, 72, 105, 5, 3, 0, 1, 0, 33], rs_length = 13, rs_index = 0, rs_total = 1,
     rs_final = True\<rparr>"

theorem message_text_complete_witness:
  "\<exists>m'. text_append (sample_reader\<lparr>mt_text := Some []\<rparr>) sample_text_response = (m', True) \<and>
     mt_text m' = Some [72, 105, 33]"
  using message_text_complete
    [of "sample_reader\<lparr>mt_text := Some []\<rparr>" "[]" sample_text_response _ "[[72, 105], [33]]", OF _ _ _ _ refl [THEN trans]]
  by (auto simp: sample_reader_def tb_message_text_init_def text_buffer_ok_def sample_heap_def grants_all_def
      sample_text_response_def text_frame_def encode_frame_def le_bytes_numeral)

text \<open>
  A part that is cut at the limit leaves room when the cut falls back to a character boundary,
  and a later part that fits this room is still appended: the collected text then has a hole.
\<close>

lemma message_text_hole:
  "mt_text (fst (text_append (sample_reader\<lparr>mt_text := Some [], mt_limit := 3\<rparr>)
     (sample_text_response\<lparr>rs_payload := Some [5, 4, 0, 2, 0, 72, 105, 5, 4, 0, 2, 0, 0xC3, 0xA9, 5, 3, 0, 1, 0, 33],
        rs_length := 20\<rparr>))) = Some [72, 105, 33]"
  by (simp add: text_append_def records_loop.simps codec_eval text_record_def tb_codec_text_def tb_layout_text_def
      sample_text_response_def sample_reader_def tb_message_text_init_def text_reserve_def sample_heap_def malloc_def
      grow_capacity.simps utf8_back_numeral Let_def)

end
