(* ===== verification/Send_Tracker.thy ===== *)
theory Send_Tracker
  imports Clients
begin

text \<open>
  The tracker of the message being sent (\<^verbatim>\<open>send_tracker.h\<close>, \<^verbatim>\<open>send_tracker.c\<close>): one draft at a
  time, submitted with retries, and the states the phone reports about it, in answers and in
  records that other answers carry.
\<close>

section \<open>Data\<close>

abbreviation (input) TB_SEND_TITLE_SIZE :: nat where "TB_SEND_TITLE_SIZE \<equiv> 33"
abbreviation (input) TB_SEND_PREVIEW_SIZE :: nat where "TB_SEND_PREVIEW_SIZE \<equiv> 41"
abbreviation (input) TB_SEND_TIMEOUT :: u32 where "TB_SEND_TIMEOUT \<equiv> 25000"
abbreviation (input) TB_SEND_ATTEMPTS :: u8 where "TB_SEND_ATTEMPTS \<equiv> 3"

datatype TbSendPhase =
  TB_SENDING_IDLE | TB_SENDING_SUBMITTING | TB_SENDING_PENDING | TB_SENDING_SENT | TB_SENDING_FAILED
| TB_SENDING_UNKNOWN

record TbSendTarget =
  tg_account :: cstring
  tg_chat :: cstring
  tg_reply :: cstring

record TbSendStatus =
  ss_draft_id :: u32
  ss_phase :: TbSendPhase
  ss_code :: int
  ss_retry_after :: u16
  ss_flags :: u8
  ss_restored :: bool
  ss_target :: TbSendTarget
  ss_message :: cstring
  ss_title :: cstring
  ss_preview :: cstring

record 'v TbSendPorts =
  sdp_changed :: "'v \<Rightarrow> TbSendStatus \<Rightarrow> 'v"

record 'v TbSendTracker =
  sd_ports :: "'v TbSendPorts"
  sd_context :: 'v
  sd_status :: TbSendStatus
  sd_pending :: u32
  sd_attempt :: u8

section \<open>Operations\<close>

text \<open>\<open>memset(status, 0, sizeof(*status))\<close>\<close>

definition send_status_zero :: TbSendStatus where
  "send_status_zero = \<lparr>ss_draft_id = 0, ss_phase = TB_SENDING_IDLE, ss_code = 0, ss_retry_after = 0,
     ss_flags = 0, ss_restored = False, ss_target = \<lparr>tg_account = [], tg_chat = [], tg_reply = []\<rparr>,
     ss_message = [], ss_title = [], ss_preview = []\<rparr>"

definition send_notify :: "'v TbSendTracker \<Rightarrow> 'v TbSendTracker" where
  "send_notify s = s\<lparr>sd_context := sdp_changed (sd_ports s) (sd_context s) (sd_status s)\<rparr>"

definition phase_of :: "u8 \<Rightarrow> TbSendPhase" where
  "phase_of state =
     (if state = TB_SEND_STATE_SENT then TB_SENDING_SENT
      else if state = TB_SEND_STATE_FAILED then TB_SENDING_FAILED
      else if state = TB_SEND_STATE_UNKNOWN then TB_SENDING_UNKNOWN
      else TB_SENDING_PENDING)"

definition settled :: "TbSendPhase \<Rightarrow> bool" where
  "settled phase \<longleftrightarrow> phase = TB_SENDING_SENT \<or> phase = TB_SENDING_FAILED"

definition same_target :: "TbSendTarget \<Rightarrow> TbSendStateRecord \<Rightarrow> bool" where
  "same_target target rec \<longleftrightarrow>
     tb_copy_span [] TB_ACCOUNT_ID_SIZE (ssr_account rec) = tg_account target \<and>
     tb_copy_span [] TB_TELEGRAM_ID_SIZE (ssr_chat rec) = tg_chat target"

definition send_submit ::
  "'x TbRequestLayer \<times> 'v TbSendTracker \<Rightarrow> u8 \<Rightarrow> bool \<times> 'x TbRequestLayer \<times> 'v TbSendTracker" where
  "send_submit p kind =
     (case p of (L, s) \<Rightarrow>
        (let target = ss_target (sd_status s);
             args = (request_args kind)\<lparr>ra_draft_id := ss_draft_id (sd_status s), ra_attempt := sd_attempt s,
               ra_account := strncpy TB_ACCOUNT_ID_SIZE (tg_account target),
               ra_chat := strncpy TB_TELEGRAM_ID_SIZE (tg_chat target),
               ra_message := strncpy TB_TELEGRAM_ID_SIZE (tg_reply target)\<rparr>
         in case tb_requests_submit L (Some args) TB_SEND_TIMEOUT TB_SEND_ATTEMPTS (kind = TB_REQUEST_SEND)
                  (Some CB_SEND) of
              (L1, q) \<Rightarrow> (q \<noteq> 0, L1, s\<lparr>sd_pending := q\<rparr>)))"

definition send_apply :: "'v TbSendTracker \<Rightarrow> TbSendStateRecord \<Rightarrow> 'v TbSendTracker" where
  "send_apply s rec =
     (let status = sd_status s; phase = phase_of (ssr_state rec); code = int (unat (ssr_code rec))
      in if settled (ss_phase status) \<and> \<not> settled phase then s
         else
           (let same = (ss_phase status = phase \<and> ss_code status = code \<and> ss_flags status = ssr_flags rec);
                s1 = s\<lparr>sd_status := status
                  \<lparr>ss_phase := phase, ss_code := code, ss_retry_after := ssr_retry_after rec,
                   ss_flags := ssr_flags rec,
                   ss_message := tb_copy_span (ss_message status) TB_TELEGRAM_ID_SIZE (ssr_message rec),
                   ss_title := (if span_length (ssr_title rec) \<noteq> 0
                                then tb_copy_span (ss_title status) TB_SEND_TITLE_SIZE (ssr_title rec)
                                else ss_title status),
                   ss_preview := (if span_length (ssr_preview rec) \<noteq> 0
                                  then tb_copy_span (ss_preview status) TB_SEND_PREVIEW_SIZE (ssr_preview rec)
                                  else ss_preview status)\<rparr>\<rparr>
            in if \<not> same then send_notify s1 else s1))"

definition first_state :: "TbResponse \<Rightarrow> TbSendStateRecord option" where
  "first_state r =
     (case tb_codec_next (tb_cursor_init (rs_payload r) (rs_length r)) of
        None \<Rightarrow> None
      | Some (t, body, _) \<Rightarrow> if t = TB_RECORD_SEND_STATE then tb_codec_send_state body else None)"

text \<open>The status after an answer that carries no state of the draft.\<close>

definition send_lost :: "TbResponse \<Rightarrow> TbSendStatus \<Rightarrow> TbSendStatus" where
  "send_lost r status =
     (let error = tb_error_from_response r
      in if error = TB_ERROR_NO_RESPONSE \<or> error = TB_ERROR_PHONE_UNREACHABLE
         then status\<lparr>ss_phase := TB_SENDING_UNKNOWN, ss_code := error\<rparr>
         else if \<not> settled (ss_phase status)
         then status\<lparr>ss_phase := TB_SENDING_FAILED,
           ss_code := (if error = TB_RESULT_OK then TB_RESULT_PROTOCOL_ERROR else error),
           ss_flags := (if error = TB_RESULT_BUSY \<or> error = TB_RESULT_SEND_RATE_LIMITED
                        then TB_SEND_FLAG_RETRYABLE else 0),
           ss_retry_after := (if rs_retry_after r > 65535 then 65535 else ucast (rs_retry_after r))\<rparr>
         else status)"

definition send_completed ::
  "u32 \<Rightarrow> TbResponse \<Rightarrow> 'x TbRequestLayer \<times> 'v TbSendTracker \<Rightarrow> 'x TbRequestLayer \<times> 'v TbSendTracker" where
  "send_completed q r p =
     (case p of (L, s) \<Rightarrow>
        if q \<noteq> sd_pending s \<or> rs_outcome r = TB_OUTCOME_CANCELLED then (L, s)
        else
          (let s1 = s\<lparr>sd_pending := 0\<rparr>;
               rec = (if rs_outcome r = TB_OUTCOME_RESPONSE \<and> rs_result r = TB_RESULT_OK then first_state r else None)
           in case Option.bind rec (\<lambda>st. if ssr_draft_id st = ss_draft_id (sd_status s1) then Some st else None) of
                Some st \<Rightarrow> (L, send_apply s1 st)
              | None \<Rightarrow>
                  ((if \<not> rs_final r then cancel_request L q else L),
                   send_notify (s1\<lparr>sd_status := send_lost r (sd_status s1)\<rparr>))))"

definition tb_send_init :: "'v TbSendPorts \<Rightarrow> 'v \<Rightarrow> 'v TbSendTracker" where
  "tb_send_init ports context =
     \<lparr>sd_ports = ports, sd_context = context, sd_status = send_status_zero, sd_pending = 0, sd_attempt = 0\<rparr>"

definition tb_send_busy :: "'v TbSendTracker \<Rightarrow> bool" where
  "tb_send_busy s \<longleftrightarrow> ss_draft_id (sd_status s) \<noteq> 0 \<and>
     (ss_phase (sd_status s) = TB_SENDING_SUBMITTING \<or> ss_phase (sd_status s) = TB_SENDING_PENDING)"

text \<open>The second half of \<open>tb_send_start\<close>, once the draft may go out.\<close>

definition send_begin ::
  "'x TbRequestLayer \<times> 'v TbSendTracker \<Rightarrow> TbSendTarget \<Rightarrow> u32 \<Rightarrow> cstring option \<Rightarrow> cstring option \<Rightarrow>
   'x TbRequestLayer \<times> 'v TbSendTracker" where
  "send_begin p tgt draft_id title preview =
     (case p of (L, s) \<Rightarrow>
        (let s1 = s\<lparr>sd_status := send_status_zero
               \<lparr>ss_draft_id := draft_id, ss_phase := TB_SENDING_SUBMITTING, ss_target := tgt,
                ss_title := strncpy TB_SEND_TITLE_SIZE (case title of None \<Rightarrow> [] | Some v \<Rightarrow> v),
                ss_preview := strncpy TB_SEND_PREVIEW_SIZE (case preview of None \<Rightarrow> [] | Some v \<Rightarrow> v)\<rparr>\<rparr>
         in case send_submit (L, s1) TB_REQUEST_SEND of
              (ok, L1, s2) \<Rightarrow>
                (L1, send_notify
                   (if ok then s2
                    else s2\<lparr>sd_status := (sd_status s2)
                      \<lparr>ss_phase := TB_SENDING_FAILED, ss_code := tb_error_submit_failed L1,
                       ss_flags := TB_SEND_FLAG_RETRYABLE\<rparr>\<rparr>))))"

definition tb_send_start ::
  "'x TbRequestLayer \<times> 'v TbSendTracker \<Rightarrow> TbSendTarget option \<Rightarrow> u32 \<Rightarrow> bool \<Rightarrow> cstring option \<Rightarrow> cstring option \<Rightarrow>
   bool \<times> 'x TbRequestLayer \<times> 'v TbSendTracker" where
  "tb_send_start p target draft_id again title preview =
     (case p of (L, s) \<Rightarrow>
        case target of
          None \<Rightarrow> (False, L, s)
        | Some tgt \<Rightarrow>
            if draft_id = 0 \<or> tg_account tgt = [] \<or> tg_chat tgt = [] then (False, L, s)
            else
              (let same_draft = (ss_draft_id (sd_status s) = draft_id)
               in if tb_send_busy s then (same_draft \<and> \<not> again, L, s)
                  else if same_draft \<and> ss_phase (sd_status s) = TB_SENDING_SENT then (False, L, s)
                  else if same_draft \<and> again \<and> \<not> has_flag (ss_flags (sd_status s)) TB_SEND_FLAG_RETRYABLE \<and>
                          ss_phase (sd_status s) \<noteq> TB_SENDING_UNKNOWN
                  then (False, L, s)
                  else
                    (let s1 = (if same_draft \<and> again then s\<lparr>sd_attempt := sd_attempt s + 1\<rparr>
                               else if \<not> same_draft then s\<lparr>sd_attempt := 0\<rparr> else s)
                     in (True, send_begin (L, s1) tgt draft_id title preview))))"

definition tb_send_check ::
  "'x TbRequestLayer \<times> 'v TbSendTracker \<Rightarrow> bool \<times> 'x TbRequestLayer \<times> 'v TbSendTracker" where
  "tb_send_check p =
     (case p of (L, s) \<Rightarrow>
        if ss_draft_id (sd_status s) = 0 \<or> sd_pending s \<noteq> 0 \<or> settled (ss_phase (sd_status s)) then (False, L, s)
        else send_submit (L, s) TB_REQUEST_SEND_CHECK)"

definition tb_send_record :: "'v TbSendTracker \<Rightarrow> TbSendStateRecord \<Rightarrow> bool \<Rightarrow> bool \<times> 'v TbSendTracker" where
  "tb_send_record s rec restored =
     (if ssr_draft_id rec = 0 then (False, s)
      else if ssr_draft_id rec \<noteq> ss_draft_id (sd_status s) then
        (if \<not> restored \<or> tb_send_busy s then (False, s)
         else (True, send_apply (s\<lparr>sd_attempt := 0, sd_status := send_status_zero
           \<lparr>ss_draft_id := ssr_draft_id rec, ss_phase := TB_SENDING_IDLE, ss_restored := True,
            ss_target := \<lparr>tg_account = tb_copy_span [] TB_ACCOUNT_ID_SIZE (ssr_account rec),
                          tg_chat = tb_copy_span [] TB_TELEGRAM_ID_SIZE (ssr_chat rec), tg_reply = []\<rparr>\<rparr>\<rparr>) rec))
      else if \<not> same_target (ss_target (sd_status s)) rec then (False, s)
      else (True, send_apply s rec))"

text \<open>\<open>tb_send_payload\<close>: the loop's state is the tracker and the flag \<open>any\<close>.\<close>

definition send_payload_record ::
  "u8 \<Rightarrow> TbCursor \<Rightarrow> 'v TbSendTracker \<times> bool \<Rightarrow> ('v TbSendTracker \<times> bool) \<times> unit option" where
  "send_payload_record t body p =
     (case p of (s, any) \<Rightarrow>
        ((case (if t = TB_RECORD_SEND_STATE \<or> t = TB_RECORD_PENDING_SEND then tb_codec_send_state body else None) of
            None \<Rightarrow> (s, any)
          | Some rec \<Rightarrow>
              (case tb_send_record s rec (t = TB_RECORD_PENDING_SEND) of (ok, s1) \<Rightarrow> (s1, ok \<or> any))), None))"

definition tb_send_payload :: "'v TbSendTracker \<Rightarrow> bytes option \<Rightarrow> u16 \<Rightarrow> bool \<times> 'v TbSendTracker" where
  "tb_send_payload s payload len =
     (case records_loop () () send_payload_record (tb_cursor_init payload len) (s, False) of
        ((s1, any), _) \<Rightarrow> (any, s1))"

definition tb_send_forget :: "'v TbSendTracker \<Rightarrow> u32 \<Rightarrow> 'v TbSendTracker" where
  "tb_send_forget s draft_id =
     (if ss_draft_id (sd_status s) \<noteq> draft_id \<or> tb_send_busy s then s else s\<lparr>sd_status := send_status_zero\<rparr>)"

definition tb_send_close ::
  "'x TbRequestLayer \<times> 'v TbSendTracker \<Rightarrow> 'x TbRequestLayer \<times> 'v TbSendTracker" where
  "tb_send_close p =
     (case p of (L, s) \<Rightarrow>
        ((if sd_pending s \<noteq> 0 then cancel_request L (sd_pending s) else L), s\<lparr>sd_pending := 0\<rparr>))"

section \<open>Invariant\<close>

text \<open>Every text fits its array.\<close>

definition target_ok :: "TbSendTarget \<Rightarrow> bool" where
  "target_ok t \<longleftrightarrow> length (tg_account t) < TB_ACCOUNT_ID_SIZE \<and> length (tg_chat t) < TB_TELEGRAM_ID_SIZE \<and>
     length (tg_reply t) < TB_TELEGRAM_ID_SIZE"

definition status_ok :: "TbSendStatus \<Rightarrow> bool" where
  "status_ok st \<longleftrightarrow> target_ok (ss_target st) \<and> length (ss_message st) < TB_TELEGRAM_ID_SIZE \<and>
     length (ss_title st) < TB_SEND_TITLE_SIZE \<and> length (ss_preview st) < TB_SEND_PREVIEW_SIZE"

text \<open>A tracker that is submitting awaits an answer.\<close>

definition send_inv :: "'v TbSendTracker \<Rightarrow> bool" where
  "send_inv s \<longleftrightarrow> status_ok (sd_status s) \<and>
     (ss_phase (sd_status s) = TB_SENDING_SUBMITTING \<longrightarrow> sd_pending s \<noteq> 0)"

lemma status_zero_ok [simp]: "status_ok send_status_zero"
  by (simp add: send_status_zero_def status_ok_def target_ok_def)

lemma status_frame [simp]:
  "status_ok (st\<lparr>ss_phase := ph\<rparr>) = status_ok st" "status_ok (st\<lparr>ss_code := c\<rparr>) = status_ok st"
  "status_ok (st\<lparr>ss_retry_after := ra\<rparr>) = status_ok st" "status_ok (st\<lparr>ss_flags := fl\<rparr>) = status_ok st"
  "status_ok (st\<lparr>ss_draft_id := d\<rparr>) = status_ok st" "status_ok (st\<lparr>ss_restored := b\<rparr>) = status_ok st"
  by (simp_all add: status_ok_def)

lemma send_notify_frame [simp]:
  "sd_status (send_notify s) = sd_status s" "sd_pending (send_notify s) = sd_pending s"
  "sd_attempt (send_notify s) = sd_attempt s" "send_inv (send_notify s) = send_inv s"
  by (simp_all add: send_notify_def send_inv_def)

lemma phase_of_not_submitting [simp]: "phase_of st \<noteq> TB_SENDING_SUBMITTING" "phase_of st \<noteq> TB_SENDING_IDLE"
  by (simp_all add: phase_of_def)

text \<open>What a record changes: nothing when it would un-settle the draft, its phase otherwise.\<close>

lemma send_apply_phase:
  "ss_phase (sd_status (send_apply s rec)) =
     (if settled (ss_phase (sd_status s)) \<and> \<not> settled (phase_of (ssr_state rec)) then ss_phase (sd_status s)
      else phase_of (ssr_state rec))"
  by (simp add: send_apply_def Let_def)

lemma send_apply_frame [simp]:
  "ss_draft_id (sd_status (send_apply s rec)) = ss_draft_id (sd_status s)"
  "ss_target (sd_status (send_apply s rec)) = ss_target (sd_status s)"
  "sd_pending (send_apply s rec) = sd_pending s" "sd_attempt (send_apply s rec) = sd_attempt s"
  by (simp_all add: send_apply_def Let_def)

lemma send_apply_status_ok:
  assumes "status_ok (sd_status s)"
  shows "status_ok (sd_status (send_apply s rec))"
  using assms copy_span_fits [of 21] copy_span_fits [of 33] copy_span_fits [of 41]
  by (simp add: send_apply_def Let_def status_ok_def)

lemma send_apply_inv:
  "status_ok (sd_status s) \<Longrightarrow> send_inv (send_apply s rec)"
  by (auto simp: send_inv_def send_apply_status_ok send_apply_phase settled_def)

lemma send_submit_layer [tb_inv]: "requests_inv L \<Longrightarrow> requests_inv (fst (snd (send_submit (L, s) kind)))"
  by (auto simp: send_submit_def Let_def dest: submit_pair_inv split: prod.splits)

lemma send_submit_frame:
  "send_submit (L, s) kind = (ok, L', s') \<Longrightarrow> s' = s\<lparr>sd_pending := sd_pending s'\<rparr> \<and> (ok \<longleftrightarrow> sd_pending s' \<noteq> 0)"
  by (auto simp: send_submit_def Let_def split: prod.splits)

lemma send_lost_ok:
  "status_ok (send_lost r st) = status_ok st" "ss_phase (send_lost r st) \<noteq> TB_SENDING_SUBMITTING"
  "ss_draft_id (send_lost r st) = ss_draft_id st"
  by (auto simp: send_lost_def Let_def settled_def)

lemma send_completed_layer [tb_inv]: "requests_inv L \<Longrightarrow> requests_inv (fst (send_completed q r (L, s)))"
  by (auto simp: send_completed_def Let_def tb_inv split: option.splits if_splits)

lemma send_completed_inv: "send_inv s \<Longrightarrow> send_inv (snd (send_completed q r (L, s)))"
  using send_apply_inv [of "s\<lparr>sd_pending := 0\<rparr>"]
  by (simp add: send_completed_def Let_def send_lost_ok split: option.split) (simp add: send_inv_def send_lost_ok)

interpretation send: request_client sd_pending send_completed send_inv
  by unfold_locales (simp_all add: send_completed_inv tb_inv, auto simp: send_completed_def)

lemma send_begin_inv:
  assumes "requests_inv L" and "target_ok tgt"
  shows "requests_inv (fst (send_begin (L, s) tgt d ti pr)) \<and> send_inv (snd (send_begin (L, s) tgt d ti pr))"
proof -
  define st where "st = send_status_zero\<lparr>ss_draft_id := d, ss_phase := TB_SENDING_SUBMITTING, ss_target := tgt,
      ss_title := strncpy TB_SEND_TITLE_SIZE (case ti of None \<Rightarrow> [] | Some v \<Rightarrow> v),
      ss_preview := strncpy TB_SEND_PREVIEW_SIZE (case pr of None \<Rightarrow> [] | Some v \<Rightarrow> v)\<rparr>"
  have st: "status_ok st"
    using assms(2) by (simp add: st_def status_ok_def send_status_zero_def)
  obtain ok L' s' where sub: "send_submit (L, s\<lparr>sd_status := st\<rparr>) TB_REQUEST_SEND = (ok, L', s')" by (metis prod_cases3)
  have fr: "s' = s\<lparr>sd_status := st, sd_pending := sd_pending s'\<rparr>" "ok \<longleftrightarrow> sd_pending s' \<noteq> 0"
    using send_submit_frame [OF sub] by simp_all
  have "sd_status s' = st" by (subst fr(1)) simp
  then show ?thesis
    using send_submit_layer [OF assms(1), of "s\<lparr>sd_status := st\<rparr>" TB_REQUEST_SEND] sub fr(2) st
    by (simp add: send_begin_def Let_def send_inv_def flip: st_def)
qed

lemma send_start_inv:
  assumes "requests_inv L" and "send_inv s" and "pred_option target_ok target"
  shows "requests_inv (fst (snd (tb_send_start (L, s) target d again ti pr))) \<and>
     send_inv (snd (snd (tb_send_start (L, s) target d again ti pr)))"
  using assms by (cases target) (simp_all add: tb_send_start_def Let_def send_begin_inv)

lemma send_check_inv:
  assumes "requests_inv L" and "send_inv s"
  shows "requests_inv (fst (snd (tb_send_check (L, s)))) \<and> send_inv (snd (snd (tb_send_check (L, s))))"
proof (cases "ss_draft_id (sd_status s) = 0 \<or> sd_pending s \<noteq> 0 \<or> settled (ss_phase (sd_status s))")
  case True
  then show ?thesis using assms by (simp add: tb_send_check_def)
next
  case False
  obtain ok L' s' where sub: "send_submit (L, s) TB_REQUEST_SEND_CHECK = (ok, L', s')" by (metis prod_cases3)
  have "sd_status s' = sd_status s" using send_submit_frame [OF sub] by (metis TbSendTracker.select_convs(3) TbSendTracker.surjective TbSendTracker.update_convs(4))
  then have "send_inv s'" using False assms(2) by (simp add: send_inv_def)
  then show ?thesis using False sub send_submit_layer [OF assms(1), of s TB_REQUEST_SEND_CHECK]
    by (simp add: tb_send_check_def)
qed

lemma send_record_inv: "send_inv s \<Longrightarrow> send_inv (snd (tb_send_record s rec restored))"
proof -
  have "status_ok (send_status_zero\<lparr>ss_draft_id := d, ss_phase := TB_SENDING_IDLE, ss_restored := True,
      ss_target := \<lparr>tg_account = tb_copy_span [] TB_ACCOUNT_ID_SIZE a, tg_chat = tb_copy_span [] TB_TELEGRAM_ID_SIZE c, tg_reply = []\<rparr>\<rparr>)"
    for d a c
    using copy_span_fits [of 37] copy_span_fits [of 21] by (simp add: status_ok_def target_ok_def send_status_zero_def)
  then show "send_inv s \<Longrightarrow> ?thesis"
    by (auto simp: tb_send_record_def intro!: send_apply_inv) (simp_all add: send_inv_def)
qed

interpretation send_records: record_handler send_payload_record "\<lambda>(s, any). send_inv s"
  by unfold_locales
    (auto simp: send_payload_record_def split: option.splits prod.splits if_splits, (metis send_record_inv snd_conv)+)

lemma send_payload_inv:
  assumes "send_inv s" and "case payload of None \<Rightarrow> True | Some d \<Rightarrow> unat len \<le> length d"
  shows "send_inv (snd (tb_send_payload s payload len))"
proof -
  have "wf_cursor (tb_cursor_init payload len)" using assms(2) by (cases payload) simp_all
  from send_records.loop_inv [OF this, of "(s, False)" "()" "()"] show ?thesis
    using assms(1) by (auto simp: tb_send_payload_def split: prod.splits)
qed

lemma send_forget_inv: "send_inv s \<Longrightarrow> send_inv (tb_send_forget s d)"
  by (simp add: tb_send_forget_def send_inv_def) (simp add: send_status_zero_def)

lemma send_inv_context [simp]: "send_inv (s\<lparr>sd_context := v\<rparr>) = send_inv s"
  by (simp add: send_inv_def)

text \<open>
  A tracker in use, until it is closed. The last rule is the rest of the program and the platform.
\<close>

inductive send_step ::
  "'x TbRequestLayer \<times> 'v TbSendTracker \<Rightarrow> 'x TbRequestLayer \<times> 'v TbSendTracker \<Rightarrow> bool" where
  sd_start: "pred_option target_ok target \<Longrightarrow> send_step p (snd (tb_send_start p target draft again title preview))"
| sd_check: "send_step p (snd (tb_send_check p))"
| sd_record: "send_step (L, s) (L, snd (tb_send_record s rec restored))"
| sd_payload: "(case payload of None \<Rightarrow> True | Some d \<Rightarrow> unat len \<le> length d) \<Longrightarrow>
    send_step (L, s) (L, snd (tb_send_payload s payload len))"
| sd_forget: "send_step (L, s) (L, tb_send_forget s draft)"
| sd_completed: "send_step p (send_completed q r p)"
| sd_layer: "requests_inv L' \<Longrightarrow> send_step (L, s) (L', s\<lparr>sd_context := v\<rparr>)"

lemma send_step_inv:
  assumes "send_step p p'" and "requests_inv (fst p)" and "send_inv (snd p)"
  shows "requests_inv (fst p') \<and> send_inv (snd p')"
  using assms
proof (induction rule: send_step.induct)
  case (sd_start target p draft again title preview)
  then show ?case by (cases p) (simp add: send_start_inv)
next
  case (sd_check p)
  then show ?case by (cases p) (simp add: send_check_inv)
next
  case (sd_completed p q r)
  then show ?case by (cases p) (simp add: send_completed_inv tb_inv)
qed (simp_all add: send_record_inv send_payload_inv send_forget_inv)

lemma send_steps_inv:
  "send_step\<^sup>*\<^sup>* p p' \<Longrightarrow> requests_inv (fst p) \<Longrightarrow> send_inv (snd p) \<Longrightarrow>
   requests_inv (fst p') \<and> send_inv (snd p')"
  by (induction rule: rtranclp_induct) (auto dest: send_step_inv)

lemma send_init_inv: "send_inv (tb_send_init ports v)"
  by (simp add: tb_send_init_def send_inv_def) (simp add: send_status_zero_def)

section \<open>Settled drafts\<close>

text \<open>Records never take back that a draft was sent or failed.\<close>

definition draft_settled :: "u32 \<Rightarrow> 'v TbSendTracker \<Rightarrow> bool" where
  "draft_settled d s \<longleftrightarrow> ss_draft_id (sd_status s) = d \<and> settled (ss_phase (sd_status s))"

lemma send_apply_settled: "draft_settled d s \<Longrightarrow> draft_settled d (send_apply s rec)"
  by (simp add: draft_settled_def send_apply_phase)

lemma send_record_settled:
  assumes "draft_settled d s"
  shows "draft_settled d (snd (tb_send_record s rec restored)) \<or>
     restored \<and> ss_draft_id (sd_status (snd (tb_send_record s rec restored))) \<noteq> d"
  using assms send_apply_settled [OF assms, of rec]
  by (auto simp: tb_send_record_def draft_settled_def)

text \<open>The attempt number of the next send request.\<close>

definition next_attempt :: "'v TbSendTracker \<Rightarrow> u32 \<Rightarrow> bool \<Rightarrow> u8" where
  "next_attempt s draft again =
     (if ss_draft_id (sd_status s) = draft then sd_attempt s + (if again then 1 else 0) else 0)"

section \<open>Properties\<close>

text \<open>
  C28. However drafts are sent, checked, restored, answered and forgotten, every text of the
  status fits its array, and a tracker that says it is submitting has a request of its own
  outstanding, so that an answer or a timeout will move it on.
\<close>

theorem send_reachable_inv:
  assumes "requests_inv L" and "send_step\<^sup>*\<^sup>* (L, tb_send_init ports v) (L', s)"
  shows "status_ok (sd_status s) \<and> (ss_phase (sd_status s) = TB_SENDING_SUBMITTING \<longrightarrow> sd_pending s \<noteq> 0)"
  using send_steps_inv [OF assms(2)] assms(1) send_init_inv [of ports v] by (simp add: send_inv_def)

definition sample_send_ports :: "TbSendPhase list TbSendPorts" where
  "sample_send_ports = \<lparr>sdp_changed = \<lambda>v st. ss_phase st # v\<rparr>"

definition sample_target :: TbSendTarget where
  "sample_target = \<lparr>tg_account = [97], tg_chat = [49], tg_reply = []\<rparr>"

theorem send_reachable_inv_witness:
  "status_ok (sd_status (snd (snd (tb_send_start (sample_layer, tb_send_init sample_send_ports [])
     (Some sample_target) 7 False None None))))"
proof -
  let ?p = "(sample_layer, tb_send_init sample_send_ports [])"
  let ?o = "snd (tb_send_start ?p (Some sample_target) 7 False None None)"
  have "send_step ?p ?o" by (rule sd_start) (simp add: sample_target_def target_ok_def)
  then have "send_step\<^sup>*\<^sup>* ?p (fst ?o, snd ?o)" by simp
  from send_reachable_inv [OF sample_inv(1) this] show ?thesis by blast
qed

text \<open>
  C29. No draft goes out twice by accident: a tracker that is busy, a draft already reported as
  sent, and a repeat of a draft whose failure was final all leave the request layer and the
  tracker untouched; in every other case one send request with the draft and its attempt number
  is submitted, and the attempt number grows exactly when the user repeats the same draft.
\<close>

theorem send_start_gate:
  assumes "draft \<noteq> 0" and "tg_account tgt \<noteq> []" and "tg_chat tgt \<noteq> []"
  shows "case tb_send_start (L, s) (Some tgt) draft again title preview of (ok, L', s') \<Rightarrow>
    if tb_send_busy s \<or> ss_draft_id (sd_status s) = draft \<and> ss_phase (sd_status s) = TB_SENDING_SENT \<or>
       ss_draft_id (sd_status s) = draft \<and> again \<and> \<not> has_flag (ss_flags (sd_status s)) TB_SEND_FLAG_RETRYABLE \<and>
         ss_phase (sd_status s) \<noteq> TB_SENDING_UNKNOWN
    then L' = L \<and> s' = s \<and> ok = (tb_send_busy s \<and> ss_draft_id (sd_status s) = draft \<and> \<not> again)
    else ok \<and> sd_attempt s' = next_attempt s draft again \<and> ss_draft_id (sd_status s') = draft \<and>
      tb_requests_submit L (Some ((request_args TB_REQUEST_SEND)\<lparr>ra_draft_id := draft, ra_attempt := next_attempt s draft again,
          ra_account := strncpy TB_ACCOUNT_ID_SIZE (tg_account tgt),
          ra_chat := strncpy TB_TELEGRAM_ID_SIZE (tg_chat tgt),
          ra_message := strncpy TB_TELEGRAM_ID_SIZE (tg_reply tgt)\<rparr>))
        TB_SEND_TIMEOUT TB_SEND_ATTEMPTS True (Some CB_SEND) = (L', sd_pending s') \<and>
      ss_phase (sd_status s') = (if sd_pending s' = 0 then TB_SENDING_FAILED else TB_SENDING_SUBMITTING)"
  using assms
  by (auto simp: tb_send_start_def send_begin_def send_submit_def next_attempt_def Let_def split: prod.splits)

theorem send_start_gate_witness:
  "case tb_send_start (sample_layer, (tb_send_init sample_send_ports [])
       \<lparr>sd_status := send_status_zero\<lparr>ss_draft_id := 7, ss_phase := TB_SENDING_SENT\<rparr>\<rparr>)
     (Some sample_target) 7 True None None of (ok, L', s') \<Rightarrow> L' = sample_layer \<and> \<not> ok"
  using send_start_gate [of 7 sample_target "(tb_send_init sample_send_ports [])
       \<lparr>sd_status := send_status_zero\<lparr>ss_draft_id := 7, ss_phase := TB_SENDING_SENT\<rparr>\<rparr>" True sample_layer None None]
  by (auto simp: sample_target_def tb_send_busy_def)



text \<open>
  A lost answer is another matter: it turns a draft that a record has already reported as sent
  back to unknown, after which the user may send it again.
\<close>

lemma send_timeout_unsettles:
  assumes "draft_settled d s" and "sd_pending s = q" and "rs_outcome r = TB_OUTCOME_TIMEOUT"
  shows "ss_phase (sd_status (snd (send_completed q r (L, s)))) = TB_SENDING_UNKNOWN"
  using assms by (simp add: send_completed_def Let_def send_lost_def tb_error_from_response_def)

end
