(* ===== verification/Chats.thy ===== *)
theory Chats
  imports Clients "HOL-Library.Sublist"
begin

text \<open>
  The chat list (\<^verbatim>\<open>chats.h\<close>, \<^verbatim>\<open>chats.c\<close>): pages of chats of one account and list, with their
  texts in a heap budget, refreshed on a timer. The array \<open>items\<close> of \<open>capacity\<close> entries is the
  list of its \<open>count\<close> live entries; the entry that \<open>append\<close> fills before it counts it is a local value.
\<close>

section \<open>Data\<close>

abbreviation (input) TB_TITLE_LIMIT :: nat where "TB_TITLE_LIMIT \<equiv> 64"
abbreviation (input) TB_SENDER_LIMIT :: nat where "TB_SENDER_LIMIT \<equiv> 32"
abbreviation (input) TB_EXTRA_LIMIT :: nat where "TB_EXTRA_LIMIT \<equiv> 48"

record TbChat =
  ch_id :: cstring
  ch_title :: "bytes option"
  ch_sender :: "bytes option"
  ch_extra :: "bytes option"
  ch_preview :: "bytes option"
  ch_type :: u8
  ch_flags :: u8
  ch_preview_kind :: u8
  ch_preview_action :: u8
  ch_send :: u8
  ch_preview_duration :: u16
  ch_unread :: u16
  ch_last_date :: u32

datatype TbChatsLoad = TB_CHATS_IDLE | TB_CHATS_FIRST | TB_CHATS_MORE | TB_CHATS_REFRESH

datatype TbChatsTail = TB_TAIL_MORE | TB_TAIL_UNKNOWN | TB_TAIL_END | TB_TAIL_FULL | TB_TAIL_FAILED

record TbChatsConfig =
  cc_capacity :: u16
  cc_page_limit :: u8
  cc_text_limit :: u16
  cc_text_budget :: nat
  cc_timeout :: u32
  cc_refresh_interval :: u32
  cc_stale_after :: u32

record 'v TbChats =
  cs_ports :: "'v TbViewPorts"
  cs_context :: 'v
  cs_heap :: heap
  cs_config :: TbChatsConfig
  cs_account :: cstring
  cs_list :: u8
  cs_items :: "TbChat list"
  cs_budget :: TbBudget
  cs_load :: TbChatsLoad
  cs_pending :: u32
  cs_tail :: TbChatsTail
  cs_error :: int
  cs_retry_after :: u32
  cs_connection_not_ready :: bool
  cs_connection :: u8
  cs_proxy :: bool
  cs_unread_chats :: u32
  cs_unread_messages :: u32
  cs_summary_revision :: u32
  cs_loaded :: bool
  cs_active :: bool
  cs_resynced :: bool
  cs_loaded_at :: u32
  cs_refresh_due :: u32

section \<open>Operations\<close>

definition chats_changed :: "'v TbChats \<Rightarrow> 'v TbChats" where
  "chats_changed c = c\<lparr>cs_context := vp_changed (cs_ports c) (cs_context c)\<rparr>"

definition chat_free :: "TbChat \<Rightarrow> TbBudget \<Rightarrow> TbBudget" where
  "chat_free item b =
     tb_budget_free (tb_budget_free (tb_budget_free (tb_budget_free b (ch_title item)) (ch_sender item))
       (ch_extra item)) (ch_preview item)"

definition chats_clear :: "'v TbChats \<Rightarrow> 'v TbChats" where
  "chats_clear c = c\<lparr>cs_budget := fold chat_free (cs_items c) (cs_budget c), cs_items := []\<rparr>"

definition chats_schedule :: "'v TbChats \<Rightarrow> 'v TbChats" where
  "chats_schedule c =
     (let c1 = c\<lparr>cs_context := vp_cancel (cs_ports c) (cs_context c), cs_refresh_due := 0\<rparr>
      in if \<not> cs_active c1 \<or> \<not> cs_loaded c1 \<or> cc_refresh_interval (cs_config c1) = 0 then c1
         else c1\<lparr>cs_refresh_due := vp_now (cs_ports c1) (cs_context c1) + cc_refresh_interval (cs_config c1),
                cs_context := snd (vp_schedule (cs_ports c1) (cs_context c1) (cc_refresh_interval (cs_config c1)))\<rparr>)"

definition chats_request ::
  "'x TbRequestLayer \<times> 'v TbChats \<Rightarrow> TbChatsLoad \<Rightarrow> u8 \<Rightarrow> 'x TbRequestLayer \<times> 'v TbChats" where
  "chats_request p load op =
     (case p of (L, c) \<Rightarrow>
        (let L1 = (if cs_pending c \<noteq> 0 then cancel_request L (cs_pending c) else L);
             args = (request_args TB_REQUEST_CHATS)
               \<lparr>ra_page_op := op, ra_list := cs_list c, ra_page_limit := cc_page_limit (cs_config c),
                ra_text_limit := cc_text_limit (cs_config c),
                ra_account := strncpy TB_ACCOUNT_ID_SIZE (cs_account c)\<rparr>
         in case tb_requests_submit L1 (Some args) (cc_timeout (cs_config c)) 2 False (Some CB_CHATS) of
              (L2, q) \<Rightarrow>
                (L2, chats_changed
                   (if q = 0 then c\<lparr>cs_pending := q, cs_load := TB_CHATS_IDLE, cs_error := tb_error_submit_failed L2\<rparr>
                    else c\<lparr>cs_pending := q, cs_load := load, cs_error := TB_ERROR_NONE\<rparr>))))"

text \<open>The four texts of a chat, in the order the code copies them.\<close>

definition chat_texts ::
  "u16 \<Rightarrow> TbChatRecord \<Rightarrow> heap \<Rightarrow> TbBudget \<Rightarrow>
   (bytes option \<times> bytes option \<times> bytes option \<times> bytes option) \<times> TbBudget \<times> heap" where
  "chat_texts text_limit rec h b =
     (case tb_budget_copy h b (chr_title rec) TB_TITLE_LIMIT False of (title, b1, h1) \<Rightarrow>
      case tb_budget_copy h1 b1 (chr_preview_sender rec) TB_SENDER_LIMIT False of (sender, b2, h2) \<Rightarrow>
      case tb_budget_copy h2 b2 (chr_preview_extra rec) TB_EXTRA_LIMIT False of (extra, b3, h3) \<Rightarrow>
      case tb_budget_copy h3 b3 (chr_preview_text rec) (unat text_limit) False of (preview, b4, h4) \<Rightarrow>
        ((title, sender, extra, preview), b4, h4))"

definition chats_append :: "'v TbChats \<Rightarrow> TbChatRecord \<Rightarrow> 'v TbChats \<times> bool" where
  "chats_append c rec =
     (if length (cs_items c) \<ge> unat (cc_capacity (cs_config c)) then (c\<lparr>cs_tail := TB_TAIL_FULL\<rparr>, True)
      else
        (case tb_copy_id [] TB_TELEGRAM_ID_SIZE (chr_id rec) True of
           (False, _) \<Rightarrow> (c, False)
         | (True, cid) \<Rightarrow>
             if cid \<in> set (map ch_id (cs_items c)) then (c, True)
             else
               (case chat_texts (cc_text_limit (cs_config c)) rec (cs_heap c) (cs_budget c) of
                  ((title, sender, extra, preview), b, h) \<Rightarrow>
                    (let item = \<lparr>ch_id = cid, ch_title = title, ch_sender = sender, ch_extra = extra,
                           ch_preview = preview, ch_type = chr_type rec, ch_flags = chr_flags rec,
                           ch_preview_kind = chr_preview_kind rec, ch_preview_action = chr_preview_action rec,
                           ch_send = chr_send rec, ch_preview_duration = chr_preview_duration rec,
                           ch_unread = chr_unread rec, ch_last_date = chr_last_date rec\<rparr>
                     in if span_length (chr_title rec) \<noteq> 0 \<and> title = None \<or>
                           span_length (chr_preview_text rec) \<noteq> 0 \<and> preview = None
                        then (c\<lparr>cs_heap := h, cs_budget := chat_free item b, cs_tail := TB_TAIL_FULL\<rparr>, True)
                        else (c\<lparr>cs_heap := h, cs_budget := b, cs_items := cs_items c @ [item]\<rparr>, True)))))"

definition chats_record :: "u8 \<Rightarrow> TbCursor \<Rightarrow> 'v TbChats \<Rightarrow> 'v TbChats \<times> bool option" where
  "chats_record t body c =
     (if t = TB_RECORD_SUMMARY then
        (case tb_codec_summary body of
           None \<Rightarrow> (c, Some False)
         | Some su \<Rightarrow>
             (c\<lparr>cs_connection := smr_connection su, cs_proxy := (smr_proxy su \<noteq> 0),
                cs_unread_chats := smr_unread_chats su, cs_unread_messages := smr_unread_messages su,
                cs_summary_revision := cs_summary_revision c + 1\<rparr>, None))
      else
        (case (if t = TB_RECORD_CHAT then tb_codec_chat body else None) of
           None \<Rightarrow> (c, Some False)
         | Some rec \<Rightarrow>
             if cs_tail c = TB_TAIL_FULL then (c, None)
             else (case chats_append c rec of (c1, ok) \<Rightarrow> (c1, if ok then None else Some False))))"

definition chats_parse :: "'v TbChats \<Rightarrow> TbResponse \<Rightarrow> 'v TbChats \<times> bool" where
  "chats_parse c r = records_loop False True chats_record (tb_cursor_init (rs_payload r) (rs_length r)) c"

definition chats_tail_from :: "u32 \<Rightarrow> TbChatsTail" where
  "chats_tail_from flags =
     (if has_flag flags TB_FLAG_HAS_MORE then TB_TAIL_MORE
      else if has_flag flags TB_FLAG_PARTIAL then TB_TAIL_FAILED
      else if has_flag flags TB_FLAG_HAS_MORE_UNKNOWN then TB_TAIL_UNKNOWN
      else TB_TAIL_END)"

definition chats_fail ::
  "'x TbRequestLayer \<times> 'v TbChats \<Rightarrow> int \<Rightarrow> u32 \<Rightarrow> 'x TbRequestLayer \<times> 'v TbChats" where
  "chats_fail p error retry_after =
     (case p of (L, c) \<Rightarrow>
        (let load = cs_load c; c1 = c\<lparr>cs_pending := 0, cs_load := TB_CHATS_IDLE\<rparr>
         in if error = TB_RESULT_CURSOR_LOST \<and> \<not> cs_resynced c1
            then chats_request (L, c1\<lparr>cs_resynced := True\<rparr>) TB_CHATS_REFRESH TB_PAGE_OP_FIRST
            else
              (let c2 = c1\<lparr>cs_error := error, cs_retry_after := retry_after,
                     cs_tail := (if load = TB_CHATS_MORE then TB_TAIL_FAILED else cs_tail c1)\<rparr>
               in (L, chats_changed (chats_schedule c2)))))"

text \<open>What the first chunk of an answer resets before its records are read.\<close>

definition chats_begin :: "'v TbChats \<Rightarrow> TbResponse \<Rightarrow> 'v TbChats" where
  "chats_begin c r =
     (if rs_index r = 0 then
        (let c1 = (if cs_load c \<noteq> TB_CHATS_MORE then (chats_clear c)\<lparr>cs_tail := TB_TAIL_UNKNOWN\<rparr>
                   else if cs_tail c = TB_TAIL_FAILED then c\<lparr>cs_tail := TB_TAIL_UNKNOWN\<rparr> else c);
             c2 = (if cs_tail c1 = TB_TAIL_FULL \<and> length (cs_items c1) < unat (cc_capacity (cs_config c1))
                   then c1\<lparr>cs_tail := TB_TAIL_UNKNOWN\<rparr> else c1)
         in c2\<lparr>cs_connection_not_ready := has_flag (rs_flags r) TB_FLAG_CONNECTION_NOT_READY\<rparr>)
      else c)"

definition chats_completed ::
  "u32 \<Rightarrow> TbResponse \<Rightarrow> 'x TbRequestLayer \<times> 'v TbChats \<Rightarrow> 'x TbRequestLayer \<times> 'v TbChats" where
  "chats_completed q r p =
     (case p of (L, c) \<Rightarrow>
        if q \<noteq> cs_pending c \<or> rs_outcome r = TB_OUTCOME_CANCELLED then (L, c)
        else
          (let L1 = (if \<not> rs_final r then cancel_request L q else L)
           in if rs_outcome r \<noteq> TB_OUTCOME_RESPONSE \<or> rs_result r \<noteq> TB_RESULT_OK
              then chats_fail (L1, c) (tb_error_from_response r) (rs_retry_after r)
              else
                (case chats_parse (chats_begin c r) r of
                   (c1, False) \<Rightarrow> chats_fail (L1, c1) TB_RESULT_PROTOCOL_ERROR 0
                 | (c1, True) \<Rightarrow>
                     (L, if \<not> rs_final r then chats_changed c1
                         else
                           (let c2 = c1\<lparr>cs_pending := 0, cs_load := TB_CHATS_IDLE, cs_error := TB_ERROR_NONE,
                                  cs_resynced := False,
                                  cs_tail := (if cs_tail c1 \<noteq> TB_TAIL_FULL then chats_tail_from (rs_flags r) else cs_tail c1),
                                  cs_loaded := True, cs_loaded_at := vp_now (cs_ports c1) (cs_context c1)\<rparr>
                            in chats_changed (chats_schedule c2))))))"

definition tb_chats_init :: "'v TbViewPorts \<Rightarrow> 'v \<Rightarrow> TbChatsConfig \<Rightarrow> heap \<Rightarrow> nat \<Rightarrow> bool \<times> 'v TbChats" where
  "tb_chats_init ports context config h item_size =
     (case malloc h (unat (cc_capacity config) * item_size) of
        (ok, h1) \<Rightarrow>
          (ok, \<lparr>cs_ports = ports, cs_context = context, cs_heap = h1, cs_config = config, cs_account = [],
             cs_list = 0, cs_items = [], cs_budget = \<lparr>bud_used = 0, bud_limit = cc_text_budget config\<rparr>,
             cs_load = TB_CHATS_IDLE, cs_pending = 0, cs_tail = TB_TAIL_MORE, cs_error = 0,
             cs_retry_after = 0, cs_connection_not_ready = False, cs_connection = 0, cs_proxy = False,
             cs_unread_chats = 0, cs_unread_messages = 0, cs_summary_revision = 0, cs_loaded = False,
             cs_active = False, cs_resynced = False, cs_loaded_at = 0, cs_refresh_due = 0\<rparr>))"

definition tb_chats_close ::
  "'x TbRequestLayer \<times> 'v TbChats \<Rightarrow> 'x TbRequestLayer \<times> 'v TbChats" where
  "tb_chats_close p =
     (case p of (L, c) \<Rightarrow>
        ((if cs_pending c \<noteq> 0 then cancel_request L (cs_pending c) else L),
         (chats_clear (c\<lparr>cs_pending := 0, cs_context := vp_cancel (cs_ports c) (cs_context c)\<rparr>))
           \<lparr>cs_account := [], cs_load := TB_CHATS_IDLE, cs_tail := TB_TAIL_UNKNOWN, cs_error := TB_ERROR_NONE,
            cs_retry_after := 0, cs_loaded := False, cs_active := False, cs_resynced := False,
            cs_connection_not_ready := False, cs_connection := TB_CONNECTION_CONNECTING, cs_proxy := False,
            cs_unread_chats := 0, cs_unread_messages := 0, cs_refresh_due := 0\<rparr>))"

text \<open>After \<open>tb_chats_deinit\<close> the array is gone; there is no entry in it.\<close>

definition tb_chats_deinit ::
  "'x TbRequestLayer \<times> 'v TbChats \<Rightarrow> 'x TbRequestLayer \<times> 'v TbChats" where
  "tb_chats_deinit p = tb_chats_close p"

definition tb_chats_open ::
  "'x TbRequestLayer \<times> 'v TbChats \<Rightarrow> cstring \<Rightarrow> u8 \<Rightarrow> 'x TbRequestLayer \<times> 'v TbChats" where
  "tb_chats_open p account lst =
     (case tb_chats_close p of (L, c) \<Rightarrow>
        chats_request (L, c\<lparr>cs_account := strncpy TB_ACCOUNT_ID_SIZE account,
            cs_list := (if lst = TB_LIST_ARCHIVE then TB_LIST_ARCHIVE else TB_LIST_MAIN), cs_active := True\<rparr>)
          TB_CHATS_FIRST TB_PAGE_OP_FIRST)"

definition tb_chats_set_list ::
  "'x TbRequestLayer \<times> 'v TbChats \<Rightarrow> u8 \<Rightarrow> 'x TbRequestLayer \<times> 'v TbChats" where
  "tb_chats_set_list p lst = tb_chats_open p (cs_account (snd p)) lst"

definition tb_chats_load_more ::
  "'x TbRequestLayer \<times> 'v TbChats \<Rightarrow> 'x TbRequestLayer \<times> 'v TbChats" where
  "tb_chats_load_more p =
     (if cs_load (snd p) \<noteq> TB_CHATS_IDLE \<or> \<not> cs_loaded (snd p) then p
      else if cs_tail (snd p) = TB_TAIL_MORE then chats_request p TB_CHATS_MORE TB_PAGE_OP_NEXT
      else if cs_tail (snd p) = TB_TAIL_FAILED then chats_request p TB_CHATS_MORE TB_PAGE_OP_RETRY
      else if cs_tail (snd p) = TB_TAIL_UNKNOWN then chats_request p TB_CHATS_REFRESH TB_PAGE_OP_FIRST
      else p)"

definition tb_chats_refresh ::
  "'x TbRequestLayer \<times> 'v TbChats \<Rightarrow> 'x TbRequestLayer \<times> 'v TbChats" where
  "tb_chats_refresh p =
     (if cs_load (snd p) \<noteq> TB_CHATS_IDLE then p
      else chats_request p (if cs_loaded (snd p) then TB_CHATS_REFRESH else TB_CHATS_FIRST) TB_PAGE_OP_FIRST)"

definition tb_chats_retry ::
  "'x TbRequestLayer \<times> 'v TbChats \<Rightarrow> 'x TbRequestLayer \<times> 'v TbChats" where
  "tb_chats_retry p =
     (if cs_load (snd p) \<noteq> TB_CHATS_IDLE then p
      else if cs_tail (snd p) = TB_TAIL_FAILED \<and> cs_loaded (snd p) then tb_chats_load_more p
      else tb_chats_refresh p)"

definition tb_chats_set_active ::
  "'x TbRequestLayer \<times> 'v TbChats \<Rightarrow> bool \<Rightarrow> 'x TbRequestLayer \<times> 'v TbChats" where
  "tb_chats_set_active p active =
     (case p of (L, c) \<Rightarrow>
        if cs_account c = [] then (L, c)
        else
          (let c1 = c\<lparr>cs_active := active\<rparr>
           in if \<not> active
              then (L, c1\<lparr>cs_context := vp_cancel (cs_ports c1) (cs_context c1), cs_refresh_due := 0\<rparr>)
              else
                (let now = vp_now (cs_ports c1) (cs_context c1)
                 in if cc_stale_after (cs_config c1) > 0 \<and> cs_loaded c1 \<and> cs_load c1 = TB_CHATS_IDLE \<and>
                       now - cs_loaded_at c1 \<ge> cc_stale_after (cs_config c1)
                    then tb_chats_refresh (L, c1) else (L, chats_schedule c1))))"

definition tb_chats_timer ::
  "'x TbRequestLayer \<times> 'v TbChats \<Rightarrow> 'x TbRequestLayer \<times> 'v TbChats" where
  "tb_chats_timer p =
     (case p of (L, c) \<Rightarrow>
        (let c1 = c\<lparr>cs_refresh_due := 0\<rparr>
         in if \<not> cs_active c1 then (L, c1)
            else if cs_load c1 \<noteq> TB_CHATS_IDLE then (L, chats_schedule c1)
            else tb_chats_refresh (L, c1)))"

definition tb_chats_find :: "'v TbChats \<Rightarrow> cstring \<Rightarrow> int" where
  "tb_chats_find c cid =
     (case List.find (\<lambda>i. ch_id (cs_items c ! i) = cid) [0..<length (cs_items c)] of
        None \<Rightarrow> - 1 | Some i \<Rightarrow> int i)"

section \<open>Invariant\<close>

definition chat_cost :: "TbChat \<Rightarrow> nat" where
  "chat_cost i = text_cost (ch_title i) + text_cost (ch_sender i) + text_cost (ch_extra i) + text_cost (ch_preview i)"

text \<open>
  The list holds at most \<open>capacity\<close> chats with different, proper identifiers, and their texts cost
  no more than the budget counts, which is within its limit.
\<close>

definition chats_data_ok :: "'v TbChats \<Rightarrow> bool" where
  "chats_data_ok c \<longleftrightarrow> length (cs_items c) \<le> unat (cc_capacity (cs_config c)) \<and>
     distinct (map ch_id (cs_items c)) \<and>
     (\<forall>i \<in> set (cs_items c). ch_id i \<noteq> [] \<and> length (ch_id i) < TB_TELEGRAM_ID_SIZE) \<and>
     sum_list (map chat_cost (cs_items c)) \<le> bud_used (cs_budget c) \<and>
     bud_used (cs_budget c) \<le> bud_limit (cs_budget c) \<and> bud_limit (cs_budget c) = cc_text_budget (cs_config c)"

definition chats_inv :: "'v TbChats \<Rightarrow> bool" where
  "chats_inv c \<longleftrightarrow> chats_data_ok c \<and> (cs_load c = TB_CHATS_IDLE \<longleftrightarrow> cs_pending c = 0)"

lemma chats_changed_frame [simp]:
  "chats_inv (chats_changed c) = chats_inv c" "cs_items (chats_changed c) = cs_items c"
  "cs_config (chats_changed c) = cs_config c" "cs_budget (chats_changed c) = cs_budget c"
  "cs_load (chats_changed c) = cs_load c" "cs_pending (chats_changed c) = cs_pending c"
  by (simp_all add: chats_changed_def chats_inv_def chats_data_ok_def)

lemma chats_schedule_frame [simp]:
  "chats_inv (chats_schedule c) = chats_inv c" "cs_items (chats_schedule c) = cs_items c"
  by (simp_all add: chats_schedule_def Let_def chats_inv_def chats_data_ok_def)

lemma chats_data_cong:
  "cs_items c' = cs_items c \<Longrightarrow> cs_config c' = cs_config c \<Longrightarrow> cs_budget c' = cs_budget c \<Longrightarrow>
   chats_data_ok c \<Longrightarrow> chats_data_ok c'"
  by (simp add: chats_data_ok_def)

lemma chats_data_frame [simp]:
  "chats_data_ok (c\<lparr>cs_context := x0\<rparr>) = chats_data_ok c"
  "chats_data_ok (c\<lparr>cs_heap := x1\<rparr>) = chats_data_ok c"
  "chats_data_ok (c\<lparr>cs_account := x2\<rparr>) = chats_data_ok c"
  "chats_data_ok (c\<lparr>cs_list := x3\<rparr>) = chats_data_ok c"
  "chats_data_ok (c\<lparr>cs_load := x4\<rparr>) = chats_data_ok c"
  "chats_data_ok (c\<lparr>cs_pending := x5\<rparr>) = chats_data_ok c"
  "chats_data_ok (c\<lparr>cs_tail := x6\<rparr>) = chats_data_ok c"
  "chats_data_ok (c\<lparr>cs_error := x7\<rparr>) = chats_data_ok c"
  "chats_data_ok (c\<lparr>cs_retry_after := x8\<rparr>) = chats_data_ok c"
  "chats_data_ok (c\<lparr>cs_connection_not_ready := x9\<rparr>) = chats_data_ok c"
  "chats_data_ok (c\<lparr>cs_connection := x10\<rparr>) = chats_data_ok c"
  "chats_data_ok (c\<lparr>cs_proxy := x11\<rparr>) = chats_data_ok c"
  "chats_data_ok (c\<lparr>cs_unread_chats := x12\<rparr>) = chats_data_ok c"
  "chats_data_ok (c\<lparr>cs_unread_messages := x13\<rparr>) = chats_data_ok c"
  "chats_data_ok (c\<lparr>cs_summary_revision := x14\<rparr>) = chats_data_ok c"
  "chats_data_ok (c\<lparr>cs_loaded := x15\<rparr>) = chats_data_ok c"
  "chats_data_ok (c\<lparr>cs_active := x16\<rparr>) = chats_data_ok c"
  "chats_data_ok (c\<lparr>cs_resynced := x17\<rparr>) = chats_data_ok c"
  "chats_data_ok (c\<lparr>cs_loaded_at := x18\<rparr>) = chats_data_ok c"
  "chats_data_ok (c\<lparr>cs_refresh_due := x19\<rparr>) = chats_data_ok c"
  by (simp_all add: chats_data_ok_def)

text \<open>Freeing gives back no more than the texts cost.\<close>

lemma chat_free_accounts:
  shows "bud_used (chat_free i b) \<le> bud_used b" and "bud_limit (chat_free i b) = bud_limit b"
    and "x + chat_cost i \<le> bud_used b \<Longrightarrow> x \<le> bud_used (chat_free i b)"
proof -
  let ?b1 = "tb_budget_free b (ch_title i)"
  let ?b2 = "tb_budget_free ?b1 (ch_sender i)"
  let ?b3 = "tb_budget_free ?b2 (ch_extra i)"
  have le: "bud_used (tb_budget_free ?b3 (ch_preview i)) \<le> bud_used ?b3" "bud_used ?b3 \<le> bud_used ?b2"
    "bud_used ?b2 \<le> bud_used ?b1" "bud_used ?b1 \<le> bud_used b"
    by (rule budget_free_accounts(1))+
  then show "bud_used (chat_free i b) \<le> bud_used b" by (simp add: chat_free_def)
  show "bud_limit (chat_free i b) = bud_limit b" by (simp add: chat_free_def budget_free_accounts(2))
  assume "x + chat_cost i \<le> bud_used b"
  then have "x + text_cost (ch_preview i) + text_cost (ch_extra i) + text_cost (ch_sender i) + text_cost (ch_title i) \<le> bud_used b"
    by (simp add: chat_cost_def)
  then show "x \<le> bud_used (chat_free i b)" unfolding chat_free_def by (intro budget_free_accounts(3))
qed

lemma chats_free_all:
  shows "bud_used (fold chat_free xs b) \<le> bud_used b" and "bud_limit (fold chat_free xs b) = bud_limit b"
proof -
  have "bud_used (fold chat_free xs b) \<le> bud_used b \<and> bud_limit (fold chat_free xs b) = bud_limit b"
  proof (induction xs arbitrary: b)
    case (Cons x xs)
    then show ?case
      using chat_free_accounts(1,2) [of x b] Cons.IH [of "chat_free x b"] by (auto intro: order_trans)
  qed simp
  then show "bud_used (fold chat_free xs b) \<le> bud_used b" "bud_limit (fold chat_free xs b) = bud_limit b" by simp_all
qed

lemma chats_clear_ok [simp]:
  "chats_data_ok c \<Longrightarrow> chats_data_ok (chats_clear c)" "cs_items (chats_clear c) = []"
  "cs_pending (chats_clear c) = cs_pending c" "cs_load (chats_clear c) = cs_load c"
  "cs_config (chats_clear c) = cs_config c"
  using chats_free_all [of "cs_items c" "cs_budget c"]
  by (auto simp: chats_clear_def chats_data_ok_def)

lemma chats_request_inv:
  "chats_data_ok c \<Longrightarrow> load \<noteq> TB_CHATS_IDLE \<Longrightarrow> chats_inv (snd (chats_request (L, c) load op))"
  by (auto simp: chats_request_def Let_def chats_inv_def chats_data_ok_def split: prod.splits)

lemma chats_request_layer [tb_inv]:
  "requests_inv L \<Longrightarrow> requests_inv (fst (chats_request (L, c) load op))"
  by (auto simp: chats_request_def Let_def tb_inv dest: submit_pair_inv [rotated] split: prod.splits if_splits)

lemma chats_request_items [simp]: "cs_items (snd (chats_request (L, c) load op)) = cs_items c"
  by (auto simp: chats_request_def Let_def split: prod.splits)

lemma chat_texts_accounts:
  assumes "chat_texts n rec h b = ((t, s, e, p), b', h')" and "bud_used b \<le> bud_limit b"
  shows "bud_used b + (text_cost t + text_cost s + text_cost e + text_cost p) \<le> bud_used b'"
    and "bud_limit b' = bud_limit b" and "bud_used b' \<le> bud_limit b"
proof -
  obtain b1 h1 b2 h2 b3 h3 where
    1: "tb_budget_copy h b (chr_title rec) 64 False = (t, b1, h1)" and
    2: "tb_budget_copy h1 b1 (chr_preview_sender rec) 32 False = (s, b2, h2)" and
    3: "tb_budget_copy h2 b2 (chr_preview_extra rec) 48 False = (e, b3, h3)" and
    4: "tb_budget_copy h3 b3 (chr_preview_text rec) (unat n) False = (p, b', h')"
    using assms(1) by (auto simp: chat_texts_def split: prod.splits)
  note a = budget_copy_accounts [OF 1] budget_copy_accounts [OF 2] budget_copy_accounts [OF 3] budget_copy_accounts [OF 4]
  show "bud_used b + (text_cost t + text_cost s + text_cost e + text_cost p) \<le> bud_used b'"
    "bud_limit b' = bud_limit b" "bud_used b' \<le> bud_limit b"
    using a assms(2) by auto
qed

text \<open>Appending keeps the list and adds at most one chat behind it.\<close>

lemma chats_append_effect:
  assumes "chats_append c rec = (c', ok)"
  obtains (same) "cs_items c' = cs_items c" "cs_budget c' = cs_budget c" "cs_config c' = cs_config c"
  | (full) item b h n where "chat_texts n rec (cs_heap c) (cs_budget c) =
        ((ch_title item, ch_sender item, ch_extra item, ch_preview item), b, h)" "cs_items c' = cs_items c"
      "cs_budget c' = chat_free item b" "cs_config c' = cs_config c"
  | (added) item b h n where "chat_texts n rec (cs_heap c) (cs_budget c) =
        ((ch_title item, ch_sender item, ch_extra item, ch_preview item), b, h)" "cs_items c' = cs_items c @ [item]"
      "cs_budget c' = b" "cs_config c' = cs_config c" "length (cs_items c) < unat (cc_capacity (cs_config c))"
      "ch_id item \<notin> set (map ch_id (cs_items c))" "ch_id item \<noteq> []" "length (ch_id item) < TB_TELEGRAM_ID_SIZE"
proof -
  obtain ok' cid where cid: "tb_copy_id [] TB_TELEGRAM_ID_SIZE (chr_id rec) True = (ok', cid)" by fastforce
  obtain t s e p b h where tx: "chat_texts (cc_text_limit (cs_config c)) rec (cs_heap c) (cs_budget c) = ((t, s, e, p), b, h)"
    by (metis prod_cases5 prod.collapse)
  define item where "item = \<lparr>ch_id = cid, ch_title = t, ch_sender = s, ch_extra = e,
      ch_preview = p, ch_type = chr_type rec, ch_flags = chr_flags rec,
      ch_preview_kind = chr_preview_kind rec, ch_preview_action = chr_preview_action rec,
      ch_send = chr_send rec, ch_preview_duration = chr_preview_duration rec,
      ch_unread = chr_unread rec, ch_last_date = chr_last_date rec\<rparr>"
  have tx': "chat_texts (cc_text_limit (cs_config c)) rec (cs_heap c) (cs_budget c) =
      ((ch_title item, ch_sender item, ch_extra item, ch_preview item), b, h)"
    using tx by (simp add: item_def)
  have cid': "ch_id item = cid" by (simp add: item_def)
  have eq: "chats_append c rec =
      (if length (cs_items c) \<ge> unat (cc_capacity (cs_config c)) then (c\<lparr>cs_tail := TB_TAIL_FULL\<rparr>, True)
       else if \<not> ok' then (c, False)
       else if cid \<in> set (map ch_id (cs_items c)) then (c, True)
       else if span_length (chr_title rec) \<noteq> 0 \<and> t = None \<or> span_length (chr_preview_text rec) \<noteq> 0 \<and> p = None
       then (c\<lparr>cs_heap := h, cs_budget := chat_free item b, cs_tail := TB_TAIL_FULL\<rparr>, True)
       else (c\<lparr>cs_heap := h, cs_budget := b, cs_items := cs_items c @ [item]\<rparr>, True))"
    by (simp add: chats_append_def cid tx Let_def flip: item_def split: bool.split)
  consider (A) "length (cs_items c) \<ge> unat (cc_capacity (cs_config c)) \<or> \<not> ok' \<or> cid \<in> set (map ch_id (cs_items c))"
    | (B) "\<not> length (cs_items c) \<ge> unat (cc_capacity (cs_config c))" "ok'" "cid \<notin> set (map ch_id (cs_items c))"
        "span_length (chr_title rec) \<noteq> 0 \<and> t = None \<or> span_length (chr_preview_text rec) \<noteq> 0 \<and> p = None"
    | (C) "\<not> length (cs_items c) \<ge> unat (cc_capacity (cs_config c))" "ok'" "cid \<notin> set (map ch_id (cs_items c))"
        "\<not> (span_length (chr_title rec) \<noteq> 0 \<and> t = None \<or> span_length (chr_preview_text rec) \<noteq> 0 \<and> p = None)"
    by blast
  then show thesis
  proof cases
    case A
    then have "c' = c \<or> c' = c\<lparr>cs_tail := TB_TAIL_FULL\<rparr>" using assms eq by (metis (no_types, lifting) fst_conv)
    then show ?thesis by (intro same) auto
  next
    case B
    then have "c' = c\<lparr>cs_heap := h, cs_budget := chat_free item b, cs_tail := TB_TAIL_FULL\<rparr>"
      using assms unfolding eq by (simp only: if_False if_True prod.inject) simp
    then show ?thesis by (intro full [OF tx']) simp_all
  next
    case C
    then have "c' = c\<lparr>cs_heap := h, cs_budget := b, cs_items := cs_items c @ [item]\<rparr>"
      using assms unfolding eq by (simp only: if_False if_True prod.inject) simp
    then show ?thesis using copy_id_shape [of "[]" 21 "chr_id rec" True cid] cid cid' C
      by (intro added [OF tx']) simp_all
  qed
qed

lemma chats_append_ok:
  assumes ok: "chats_data_ok c" and a: "chats_append c rec = (c', r)"
  shows "chats_data_ok c'"
proof -
  have u: "bud_used (cs_budget c) \<le> bud_limit (cs_budget c)"
    "sum_list (map chat_cost (cs_items c)) \<le> bud_used (cs_budget c)" using ok by (simp_all add: chats_data_ok_def)
  from a show ?thesis
  proof (cases rule: chats_append_effect)
    case same
    then show ?thesis using ok by (intro chats_data_cong [of c' c])
  next
    case (full item b h n)
    note t = chat_texts_accounts [OF full(1) u(1)]
    have "bud_used (cs_budget c) + chat_cost item \<le> bud_used b" using t(1) by (simp add: chat_cost_def)
    then have "bud_used (cs_budget c) \<le> bud_used (chat_free item b)" by (rule chat_free_accounts(3))
    then have "sum_list (map chat_cost (cs_items c)) \<le> bud_used (chat_free item b)" using u(2) by linarith
    moreover have "bud_used (chat_free item b) \<le> bud_limit (chat_free item b)"
      using t(2,3) chat_free_accounts(1,2) [of item b] by linarith
    ultimately show ?thesis using ok full t(2) chat_free_accounts(2) [of item b] by (simp add: chats_data_ok_def)
  next
    case (added item b h n)
    note t = chat_texts_accounts [OF added(1) u(1)]
    have "sum_list (map chat_cost (cs_items c @ [item])) \<le> bud_used b" using t(1) u(2) by (simp add: chat_cost_def)
    then show ?thesis using ok added t(2,3) by (simp add: chats_data_ok_def)
  qed
qed

lemma chats_record_ok:
  assumes "chats_data_ok c" and "chats_record t body c = (c', r)"
  shows "chats_data_ok c'"
  using assms chats_append_ok [OF assms(1)]
  by (auto simp: chats_record_def split: if_splits option.splits prod.splits)

lemma chats_append_frame:
  "chats_append c rec = (c', r) \<Longrightarrow> cs_pending c' = cs_pending c \<and> cs_load c' = cs_load c \<and> prefix (cs_items c) (cs_items c')"
  by (auto simp: chats_append_def Let_def split: if_splits prod.splits bool.splits)

lemma chats_record_frame:
  "chats_record t body c = (c', r) \<Longrightarrow> cs_pending c' = cs_pending c \<and> cs_load c' = cs_load c \<and> prefix (cs_items c) (cs_items c')"
  by (auto simp: chats_record_def dest: chats_append_frame split: if_splits option.splits prod.splits)

interpretation chats_records: record_handler chats_record
  "\<lambda>c. chats_data_ok c \<and> cs_pending c = q \<and> cs_load c = l \<and> prefix xs (cs_items c)" for q l xs
  by unfold_locales (use chats_record_ok chats_record_frame prefix_order.trans in metis)

lemma chats_parse_ok:
  assumes "chats_data_ok c" and "response_ok r" and "chats_parse c r = (c', ok)"
  shows "chats_data_ok c'" and "cs_pending c' = cs_pending c" and "cs_load c' = cs_load c"
    and "prefix (cs_items c) (cs_items c')"
  using chats_records.loop_inv [of "tb_cursor_init (rs_payload r) (rs_length r)" c "cs_pending c" "cs_load c" "cs_items c" False True]
    assms by (simp_all add: chats_parse_def)

lemma chats_begin_ok:
  assumes "chats_data_ok c"
  shows "chats_data_ok (chats_begin c r)" and "cs_pending (chats_begin c r) = cs_pending c"
    and "cs_load (chats_begin c r) = cs_load c"
    and "cs_load c = TB_CHATS_MORE \<or> rs_index r \<noteq> 0 \<Longrightarrow> cs_items (chats_begin c r) = cs_items c"
  using assms by (auto simp: chats_begin_def Let_def)

lemma chats_fail_inv: "chats_data_ok c \<Longrightarrow> chats_inv (snd (chats_fail (L, c) e ra))"
  by (simp add: chats_fail_def Let_def chats_request_inv)
    (simp add: chats_inv_def)

lemma chats_fail_items [simp]: "cs_items (snd (chats_fail (L, c) e ra)) = cs_items c"
  by (simp add: chats_fail_def Let_def)

lemma chats_fail_layer [tb_inv]: "requests_inv L \<Longrightarrow> requests_inv (fst (chats_fail (L, c) e ra))"
  by (simp add: chats_fail_def Let_def tb_inv)

lemma chats_completed_layer [tb_inv]: "requests_inv L \<Longrightarrow> requests_inv (fst (chats_completed q r (L, c)))"
  by (auto simp: chats_completed_def Let_def tb_inv split: prod.splits bool.splits)

lemma chats_completed_inv:
  assumes inv: "chats_inv c" and r: "response_ok r"
  shows "chats_inv (snd (chats_completed q r (L, c)))"
proof (cases "q \<noteq> cs_pending c \<or> rs_outcome r = TB_OUTCOME_CANCELLED")
  case True
  then show ?thesis using inv by (simp add: chats_completed_def)
next
  case False
  have d: "chats_data_ok c" using inv by (simp add: chats_inv_def)
  obtain c1 ok where p: "chats_parse (chats_begin c r) r = (c1, ok)" by fastforce
  note b = chats_begin_ok [OF d, of r]
  note pk = chats_parse_ok [OF b(1) r p]
  have more: "chats_inv c1" using pk b inv by (simp add: chats_inv_def)
  have fin: "chats_inv (c1\<lparr>cs_pending := 0, cs_load := TB_CHATS_IDLE, cs_error := e, cs_resynced := rs,
      cs_tail := tl, cs_loaded := ld, cs_loaded_at := at\<rparr>)" for e rs tl ld at
    using pk(1) by (simp add: chats_inv_def)
  show ?thesis
    using False d pk(1) more fin
    by (cases ok) (simp_all add: chats_completed_def Let_def p chats_fail_inv)
qed

interpretation chats: request_client cs_pending chats_completed chats_inv
  by unfold_locales (simp_all add: chats_completed_inv tb_inv, auto simp: chats_completed_def)

lemma chats_close_inv:
  assumes "chats_data_ok c"
  shows "chats_inv (snd (tb_chats_close (L, c)))"
  using assms by (simp add: tb_chats_close_def chats_inv_def)

lemma chats_close_layer [tb_inv]: "requests_inv L \<Longrightarrow> requests_inv (fst (tb_chats_close (L, c)))"
  by (simp add: tb_chats_close_def tb_inv)

definition chats_pair_inv :: "'x TbRequestLayer \<times> 'v TbChats \<Rightarrow> bool" where
  "chats_pair_inv p \<longleftrightarrow> requests_inv (fst p) \<and> chats_inv (snd p)"

lemma chats_inv_data: "chats_inv c \<Longrightarrow> chats_data_ok c"
  by (simp add: chats_inv_def)

lemma chats_request_pair:
  "requests_inv L \<Longrightarrow> chats_data_ok c \<Longrightarrow> load \<noteq> TB_CHATS_IDLE \<Longrightarrow> chats_pair_inv (chats_request (L, c) load op)"
  by (simp add: chats_pair_inv_def tb_inv chats_request_inv)

lemma chats_pair_request:
  "chats_pair_inv p \<Longrightarrow> load \<noteq> TB_CHATS_IDLE \<Longrightarrow> chats_pair_inv (chats_request p load op)"
  using chats_request_pair [of "fst p" "snd p" load op] by (auto simp: chats_pair_inv_def dest: chats_inv_data)

lemma chats_pair_open:
  assumes "chats_pair_inv p"
  shows "chats_pair_inv (tb_chats_open p a l)"
proof -
  obtain L c where p: "p = (L, c)" by (cases p)
  obtain L1 c1 where cl: "tb_chats_close (L, c) = (L1, c1)" by fastforce
  have d: "requests_inv L" "chats_data_ok c" using assms by (auto simp: p chats_pair_inv_def chats_inv_data)
  have "requests_inv L1" "chats_data_ok c1"
    using chats_close_inv [OF d(2), of L] chats_close_layer [OF d(1), of c]
    by (auto simp: cl chats_inv_data)
  then show ?thesis unfolding p cl tb_chats_open_def prod.case by (intro chats_request_pair) simp_all
qed

lemma chats_pair_load:
  "chats_pair_inv p \<Longrightarrow> chats_pair_inv (tb_chats_load_more p)"
  "chats_pair_inv p \<Longrightarrow> chats_pair_inv (tb_chats_refresh p)"
  "chats_pair_inv p \<Longrightarrow> chats_pair_inv (tb_chats_retry p)"
  by (simp_all add: tb_chats_load_more_def tb_chats_refresh_def tb_chats_retry_def chats_pair_request)

lemma chats_pair_active:
  assumes "chats_pair_inv p"
  shows "chats_pair_inv (tb_chats_set_active p active)" and "chats_pair_inv (tb_chats_timer p)"
proof -
  obtain L c where p: "p = (L, c)" by (cases p)
  have inv: "requests_inv L" "chats_inv c" using assms by (simp_all add: p chats_pair_inv_def)
  then have upd: "chats_inv (c\<lparr>cs_active := active\<rparr>)" "chats_inv (c\<lparr>cs_refresh_due := 0\<rparr>)"
    "chats_inv (c\<lparr>cs_active := active, cs_context := v, cs_refresh_due := 0\<rparr>)" for active v
    by (simp_all add: chats_inv_def)
  have ref: "chats_pair_inv (tb_chats_refresh (L, c\<lparr>cs_active := active\<rparr>))"
    "chats_pair_inv (tb_chats_refresh (L, c\<lparr>cs_refresh_due := 0\<rparr>))" for active
    by (rule chats_pair_load(2), simp add: chats_pair_inv_def inv upd)+
  have pair: "chats_pair_inv (L, c')" if "chats_inv c'" for c' :: "'b TbChats"
    using that inv by (simp add: chats_pair_inv_def)
  show "chats_pair_inv (tb_chats_set_active p active)" "chats_pair_inv (tb_chats_timer p)"
    by (simp_all add: p tb_chats_set_active_def tb_chats_timer_def Let_def ref pair inv upd)
qed

lemma chats_inv_context [simp]: "chats_inv (c\<lparr>cs_context := v\<rparr>) = chats_inv c"
  by (simp add: chats_inv_def)

text \<open>
  The operations and what arrives for them. The last rule is the rest of the program and the platform:
  the layer and the context of the ports, with its clock, may be others.
\<close>

inductive chats_step ::
  "'x TbRequestLayer \<times> 'v TbChats \<Rightarrow> 'x TbRequestLayer \<times> 'v TbChats \<Rightarrow> bool" where
  cs_open: "chats_step p (tb_chats_open p account lst)"
| cs_set_list: "chats_step p (tb_chats_set_list p lst)"
| cs_load_more: "chats_step p (tb_chats_load_more p)"
| cs_refresh: "chats_step p (tb_chats_refresh p)"
| cs_retry: "chats_step p (tb_chats_retry p)"
| cs_set_active: "chats_step p (tb_chats_set_active p active)"
| cs_timer: "chats_step p (tb_chats_timer p)"
| cs_close: "chats_step p (tb_chats_close p)"
| cs_completed: "response_ok r \<Longrightarrow> chats_step p (chats_completed q r p)"
| cs_layer: "requests_inv L' \<Longrightarrow> chats_step (L, c) (L', c\<lparr>cs_context := v\<rparr>)"

lemma chats_step_inv: "chats_step p p' \<Longrightarrow> chats_pair_inv p \<Longrightarrow> chats_pair_inv p'"
proof (induction rule: chats_step.induct)
  case (cs_close p)
  then show ?case
    using chats_close_inv [of "snd p" "fst p"] chats_close_layer [of "fst p" "snd p"]
    by (auto simp: chats_pair_inv_def dest: chats_inv_data)
next
  case (cs_completed r p q)
  then show ?case by (cases p) (simp add: chats_pair_inv_def chats_completed_inv tb_inv)
qed (simp_all add: chats_pair_open chats_pair_load chats_pair_active tb_chats_set_list_def chats_pair_inv_def [of "(_, _)"])

lemma chats_steps_inv: "chats_step\<^sup>*\<^sup>* p p' \<Longrightarrow> chats_pair_inv p \<Longrightarrow> chats_pair_inv p'"
  by (induction rule: rtranclp_induct) (auto dest: chats_step_inv)

lemma chats_init_inv: "tb_chats_init ports v config h n = (ok, c) \<Longrightarrow> chats_inv c"
  by (auto simp: tb_chats_init_def chats_inv_def chats_data_ok_def split: prod.splits)

section \<open>Properties\<close>

text \<open>
  C31. However the chat list is opened, paged, refreshed, activated and answered, it is loading
  exactly while a request of its own is pending; it holds at most \<open>capacity\<close> chats, no two with
  the same identifier, and the texts of all chats together, terminators included, never take more
  heap than the configured budget.
\<close>

theorem chats_reachable_inv:
  assumes "tb_chats_init ports v config h n = (ok, c0)" and "requests_inv L" and "chats_step\<^sup>*\<^sup>* (L, c0) (L', c)"
  shows "(cs_load c = TB_CHATS_IDLE \<longleftrightarrow> cs_pending c = 0) \<and>
     length (cs_items c) \<le> unat (cc_capacity (cs_config c)) \<and> distinct (map ch_id (cs_items c)) \<and>
     (\<forall>i \<in> set (cs_items c). ch_id i \<noteq> [] \<and> length (ch_id i) < TB_TELEGRAM_ID_SIZE) \<and>
     sum_list (map chat_cost (cs_items c)) \<le> cc_text_budget (cs_config c)"
proof -
  have "chats_inv c"
    using chats_steps_inv [OF assms(3)] chats_init_inv [OF assms(1)] assms(2) by (simp add: chats_pair_inv_def)
  then have inv: "cs_load c = TB_CHATS_IDLE \<longleftrightarrow> cs_pending c = 0" and d: "chats_data_ok c"
    by (simp_all add: chats_inv_def)
  have "sum_list (map chat_cost (cs_items c)) \<le> cc_text_budget (cs_config c)"
    using d by (simp add: chats_data_ok_def)
  with inv d show ?thesis unfolding chats_data_ok_def by blast
qed

definition sample_chats_config :: TbChatsConfig where
  "sample_chats_config = \<lparr>cc_capacity = 2, cc_page_limit = 20, cc_text_limit = 80, cc_text_budget = 200,
     cc_timeout = 8000, cc_refresh_interval = 60000, cc_stale_after = 5000\<rparr>"

definition sample_chats :: "nat TbChats" where
  "sample_chats = snd (tb_chats_init sample_view_ports 0 sample_chats_config sample_heap 48)"

theorem chats_reachable_inv_witness:
  "cs_load (snd (tb_chats_open (sample_layer, sample_chats) [97] 0)) = TB_CHATS_IDLE \<longleftrightarrow>
   cs_pending (snd (tb_chats_open (sample_layer, sample_chats) [97] 0)) = 0"
proof -
  let ?o = "tb_chats_open (sample_layer, sample_chats) [97] 0"
  have i: "tb_chats_init sample_view_ports 0 sample_chats_config sample_heap 48 =
      (fst (tb_chats_init sample_view_ports 0 sample_chats_config sample_heap 48), sample_chats)"
    by (simp add: sample_chats_def)
  have st: "chats_step\<^sup>*\<^sup>* (sample_layer, sample_chats) (fst ?o, snd ?o)"
    by (rule r_into_rtranclp) (simp add: cs_open)
  show ?thesis by (rule conjunct1 [OF chats_reachable_inv [OF i sample_inv(1) st]])
qed


definition sample_chat :: TbChat where
  "sample_chat = \<lparr>ch_id = [53], ch_title = None, ch_sender = None, ch_extra = None, ch_preview = None, ch_type = 0,
     ch_flags = 0, ch_preview_kind = 0, ch_preview_action = 0, ch_send = 0, ch_preview_duration = 0, ch_unread = 0,
     ch_last_date = 0\<rparr>"


end
