(* ===== verification/History.thy ===== *)
theory History
  imports Clients
begin

text \<open>
  The message history of one chat (\<^verbatim>\<open>history.h\<close>, \<^verbatim>\<open>history.c\<close>): pages are staged, sorted and
  merged into the list, within a capacity and a text budget, and three timers drive follow-up
  requests. The arrays \<open>items\<close> and \<open>staging\<close> are the lists of their live entries; message keys are
  \<open>int64_t\<close> values and the height is an \<open>int16_t\<close>. The quote that \<open>stage\<close> assembles in a scratch
  slot is a list of at most 95 bytes (the slot, allocated at start, has 160).
\<close>

section \<open>Data\<close>

abbreviation (input) TB_MESSAGE_SENDER_LIMIT :: nat where "TB_MESSAGE_SENDER_LIMIT \<equiv> 32"
abbreviation (input) TB_MESSAGE_EXTRA_LIMIT :: nat where "TB_MESSAGE_EXTRA_LIMIT \<equiv> 48"
abbreviation (input) TB_FORWARD_LIMIT :: nat where "TB_FORWARD_LIMIT \<equiv> 48"
abbreviation (input) TB_REPLY_LIMIT :: nat where "TB_REPLY_LIMIT \<equiv> 96"
abbreviation (input) TB_BUSY_POSTPONE :: u32 where "TB_BUSY_POSTPONE \<equiv> 1000"
abbreviation (input) INT64_MAX :: int where "INT64_MAX \<equiv> 9223372036854775807"

record TbMessage =
  ms_id :: cstring
  ms_key :: int
  ms_date :: u32
  ms_flags :: u8
  ms_kind :: u8
  ms_action :: u8
  ms_duration :: u16
  ms_media :: u8
  ms_media_count :: u8
  ms_album :: u32
  ms_sender :: "bytes option"
  ms_signature :: "bytes option"
  ms_forward :: "bytes option"
  ms_extra :: "bytes option"
  ms_text :: "bytes option"
  ms_reply :: "bytes option"
  ms_reply_id :: "bytes option"
  ms_reply_sender :: "bytes option"
  ms_height :: int

datatype TbTop = TB_TOP_MORE | TB_TOP_LOADING | TB_TOP_FAILED | TB_TOP_WAITING | TB_TOP_START | TB_TOP_UNKNOWN

datatype TbHistoryOp = TB_HISTORY_NONE | TB_HISTORY_FIRST | TB_HISTORY_REFRESH | TB_HISTORY_OLDER

record TbHistoryConfig =
  hc_capacity :: u16
  hc_page_limit :: u8
  hc_text_limit :: u16
  hc_text_budget :: nat
  hc_timeout :: u32
  hc_refresh_interval :: u32
  hc_followup_delays :: "u32 \<times> u32"

record 'v TbHistory =
  hi_ports :: "'v TbViewPorts"
  hi_context :: 'v
  hi_heap :: heap
  hi_config :: TbHistoryConfig
  hi_account :: cstring
  hi_chat :: cstring
  hi_chat_type :: u8
  hi_saved :: bool
  hi_items :: "TbMessage list"
  hi_staging :: "TbMessage list"
  hi_staging_invalid :: bool
  hi_budget :: TbBudget
  hi_top :: TbTop
  hi_top_op :: u8
  hi_op :: TbHistoryOp
  hi_op_page :: u8
  hi_pending :: u32
  hi_loaded :: bool
  hi_truncated :: bool
  hi_connection_not_ready :: bool
  hi_active :: bool
  hi_refreshing_silently :: bool
  hi_resynced :: bool
  hi_error :: int
  hi_top_error :: int
  hi_refresh_error :: int
  hi_retry_after :: u32
  hi_followups :: u8
  hi_followup_chain :: bool
  hi_rechecks :: u8
  hi_followup_due :: u32
  hi_recheck_due :: u32
  hi_periodic_due :: u32
  hi_refreshed_at :: u32
  hi_revision :: u32

section \<open>Budget and timers\<close>

definition history_changed :: "'v TbHistory \<Rightarrow> 'v TbHistory" where
  "history_changed h =
     h\<lparr>hi_revision := hi_revision h + 1, hi_context := vp_changed (hi_ports h) (hi_context h)\<rparr>"

definition message_free :: "TbMessage \<Rightarrow> TbBudget \<Rightarrow> TbBudget" where
  "message_free item b =
     fold (\<lambda>t b. tb_budget_free b t)
       [ms_sender item, ms_signature item, ms_forward item, ms_extra item, ms_text item, ms_reply item,
        ms_reply_id item, ms_reply_sender item] b"

definition clear_items :: "'v TbHistory \<Rightarrow> 'v TbHistory" where
  "clear_items h = h\<lparr>hi_budget := fold message_free (hi_items h) (hi_budget h), hi_items := []\<rparr>"

definition clear_staging :: "'v TbHistory \<Rightarrow> 'v TbHistory" where
  "clear_staging h =
     h\<lparr>hi_budget := fold message_free (hi_staging h) (hi_budget h), hi_staging := [], hi_staging_invalid := False\<rparr>"

definition history_now :: "'v TbHistory \<Rightarrow> u32" where
  "history_now h = vp_now (hi_ports h) (hi_context h)"

definition history_due :: "u32 \<Rightarrow> u32 \<Rightarrow> bool" where
  "history_due at current \<longleftrightarrow> at \<noteq> 0 \<and> reached current at"

definition history_arm :: "'v TbHistory \<Rightarrow> 'v TbHistory" where
  "history_arm h =
     (let h1 = h\<lparr>hi_context := vp_cancel (hi_ports h) (hi_context h)\<rparr>;
          current = history_now h1;
          candidates = [hi_followup_due h1, hi_recheck_due h1, hi_periodic_due h1]
      in case earliest (map (\<lambda>at. if history_due at current then 0 else at - current)
                         (filter (\<lambda>at. at \<noteq> 0) candidates)) of
           None \<Rightarrow> h1
         | Some e \<Rightarrow> h1\<lparr>hi_context := snd (vp_schedule (hi_ports h1) (hi_context h1) (if e = 0 then 1 else e))\<rparr>)"

definition history_at :: "'v TbHistory \<Rightarrow> u32 \<Rightarrow> u32" where
  "history_at h delay = (let v = history_now h + delay in if v = 0 then 1 else v)"

definition schedule_periodic :: "'v TbHistory \<Rightarrow> 'v TbHistory" where
  "schedule_periodic h =
     h\<lparr>hi_periodic_due :=
         (if hi_active h \<and> hi_loaded h \<and> \<not> hi_truncated h \<and> hc_refresh_interval (hi_config h) \<noteq> 0
          then history_at h (hc_refresh_interval (hi_config h)) else 0)\<rparr>"

definition followup_delay :: "TbHistoryConfig \<Rightarrow> u8 \<Rightarrow> u32" where
  "followup_delay config n = (if n = 0 then fst (hc_followup_delays config) else snd (hc_followup_delays config))"

section \<open>Requests\<close>

definition history_submit ::
  "'x TbRequestLayer \<times> 'v TbHistory \<Rightarrow> TbHistoryOp \<Rightarrow> u8 \<Rightarrow> bool \<Rightarrow> 'x TbRequestLayer \<times> 'v TbHistory" where
  "history_submit p op page_op silent =
     (case p of (L, h) \<Rightarrow>
        (let L1 = (if hi_pending h \<noteq> 0 then cancel_request L (hi_pending h) else L);
             h1 = clear_staging (h\<lparr>hi_pending := 0\<rparr>);
             args = (request_args TB_REQUEST_HISTORY)
               \<lparr>ra_page_op := page_op, ra_page_limit := hc_page_limit (hi_config h1),
                ra_text_limit := hc_text_limit (hi_config h1),
                ra_account := strncpy TB_ACCOUNT_ID_SIZE (hi_account h1),
                ra_chat := strncpy TB_TELEGRAM_ID_SIZE (hi_chat h1)\<rparr>;
             h2 = h1\<lparr>hi_op := op, hi_op_page := page_op, hi_refreshing_silently := silent,
                    hi_top := (if op = TB_HISTORY_OLDER then TB_TOP_LOADING else hi_top h1),
                    hi_error := (if op = TB_HISTORY_FIRST then TB_ERROR_NONE else hi_error h1)\<rparr>
         in case tb_requests_submit L1 (Some args) (hc_timeout (hi_config h2)) 2 False (Some CB_HISTORY) of
              (L2, q) \<Rightarrow>
                (let h3 = h2\<lparr>hi_pending := q\<rparr>; error = tb_error_submit_failed L2;
                     h4 = (if q \<noteq> 0 then h3
                           else if \<not> hi_loaded h3 then h3\<lparr>hi_op := TB_HISTORY_NONE, hi_error := error\<rparr>
                           else if op = TB_HISTORY_OLDER
                           then h3\<lparr>hi_op := TB_HISTORY_NONE, hi_top := TB_TOP_FAILED, hi_top_error := error\<rparr>
                           else h3\<lparr>hi_op := TB_HISTORY_NONE, hi_refresh_error := error\<rparr>)
                 in (L2, history_changed h4))))"

section \<open>Staging\<close>

text \<open>Copying texts into the budget one after the other, always with \<open>force\<close>.\<close>

fun copy_texts :: "(TbSpan \<times> nat) list \<Rightarrow> TbBudget \<times> heap \<Rightarrow> bytes option list \<times> TbBudget \<times> heap" where
  "copy_texts [] (b, h) = ([], b, h)"
| "copy_texts ((v, n) # vs) (b, h) =
     (case tb_budget_copy h b v n True of (t, b1, h1) \<Rightarrow>
      case copy_texts vs (b1, h1) of (ts, b2, h2) \<Rightarrow> (t # ts, b2, h2))"

definition message_quote :: "TbMessageRecord \<Rightarrow> bytes" where
  "message_quote rec =
     (let sender = take (tb_utf8_fit (span_data (mgr_reply_sender rec)) (unat (span_length (mgr_reply_sender rec))) 33)
                     (span_data (mgr_reply_sender rec));
          q1 = (if sender \<noteq> [] \<and> span_length (mgr_reply_text rec) \<noteq> 0 \<and> length sender + 2 < TB_REPLY_LIMIT
                then sender @ [58, 32] else sender);
          text = take (tb_utf8_fit (span_data (mgr_reply_text rec)) (unat (span_length (mgr_reply_text rec)))
                        (TB_REPLY_LIMIT - length q1)) (span_data (mgr_reply_text rec))
      in q1 @ text)"

definition message_spans_of :: "u16 \<Rightarrow> TbMessageRecord \<Rightarrow> (TbSpan \<times> nat) list" where
  "message_spans_of text_limit rec =
     [(mgr_sender rec, TB_MESSAGE_SENDER_LIMIT), (mgr_signature rec, TB_MESSAGE_SENDER_LIMIT),
      (mgr_forward rec, TB_FORWARD_LIMIT), (mgr_extra rec, TB_MESSAGE_EXTRA_LIMIT),
      (mgr_text rec, unat text_limit)]"

definition reply_spans_of :: "TbMessageRecord \<Rightarrow> (TbSpan \<times> nat) list" where
  "reply_spans_of rec =
     (if span_length (mgr_reply_id rec) \<noteq> 0
      then [(\<lparr>span_data = message_quote rec, span_length = of_nat (length (message_quote rec))\<rparr>, TB_REPLY_LIMIT),
            (mgr_reply_id rec, TB_TELEGRAM_ID_SIZE - 1), (mgr_reply_sender rec, TB_MESSAGE_SENDER_LIMIT)]
      else [])"

text \<open>The entry that a record fills, with its texts in the order of the lists above.\<close>

definition message_of :: "cstring \<Rightarrow> int \<Rightarrow> TbMessageRecord \<Rightarrow> bytes option list \<Rightarrow> TbMessage" where
  "message_of mid key rec ts =
     \<lparr>ms_id = mid, ms_key = key, ms_date = mgr_date rec, ms_flags = mgr_flags rec, ms_kind = mgr_kind rec,
      ms_action = mgr_action rec, ms_duration = mgr_duration rec, ms_media = mgr_media rec,
      ms_media_count = (if mgr_media_count rec \<noteq> 0 then mgr_media_count rec else 1),
      ms_album = (if has_flag (mgr_media rec) TB_MEDIA_FLAG_ALBUM then mgr_album rec else 0),
      ms_sender = ts ! 0, ms_signature = ts ! 1, ms_forward = ts ! 2, ms_extra = ts ! 3, ms_text = ts ! 4,
      ms_reply = (if length ts > 5 then ts ! 5 else None), ms_reply_id = (if length ts > 5 then ts ! 6 else None),
      ms_reply_sender = (if length ts > 5 then ts ! 7 else None), ms_height = - 1\<rparr>"

definition history_stage :: "'v TbHistory \<Rightarrow> TbMessageRecord \<Rightarrow> 'v TbHistory \<times> bool" where
  "history_stage h rec =
     (if length (hi_staging h) \<ge> unat (hc_page_limit (hi_config h)) then (h, True)
      else
        (case tb_copy_id [] TB_TELEGRAM_ID_SIZE (mgr_id rec) False of
           (False, _) \<Rightarrow> (h, False)
         | (True, mid) \<Rightarrow>
             (case tb_parse_id mid of
                None \<Rightarrow> (h, False)
              | Some key \<Rightarrow>
                  (case copy_texts (message_spans_of (hc_text_limit (hi_config h)) rec @ reply_spans_of rec)
                          (hi_budget h, hi_heap h) of
                     (ts, b, hp) \<Rightarrow>
                       (let item = message_of mid key rec ts
                        in if span_length (mgr_text rec) \<noteq> 0 \<and> ms_text item = None \<or>
                              span_length (mgr_sender rec) \<noteq> 0 \<and> ms_sender item = None \<or>
                              span_length (mgr_forward rec) \<noteq> 0 \<and> ms_forward item = None
                           then (h\<lparr>hi_heap := hp, hi_budget := message_free item b, hi_staging_invalid := True\<rparr>, True)
                           else (h\<lparr>hi_heap := hp, hi_budget := b, hi_staging := hi_staging h @ [item]\<rparr>, True))))))"

definition history_record :: "u8 \<Rightarrow> TbCursor \<Rightarrow> 'v TbHistory \<Rightarrow> 'v TbHistory \<times> bool option" where
  "history_record t body h =
     (case (if t = TB_RECORD_MESSAGE then tb_codec_message body else None) of
        None \<Rightarrow> (h, Some False)
      | Some rec \<Rightarrow> (case history_stage h rec of (h1, ok) \<Rightarrow> (h1, if ok then None else Some False)))"

definition history_parse :: "'v TbHistory \<Rightarrow> TbResponse \<Rightarrow> 'v TbHistory \<times> bool" where
  "history_parse h r = records_loop False True history_record (tb_cursor_init (rs_payload r) (rs_length r)) h"

text \<open>The insertion sort of the staged page, on the array it works on.\<close>

fun sort_shift :: "TbMessage \<Rightarrow> nat \<Rightarrow> TbMessage list \<Rightarrow> TbMessage list" where
  "sort_shift item 0 xs = xs[0 := item]"
| "sort_shift item (Suc n) xs =
     (if ms_key (xs ! n) > ms_key item then sort_shift item n (xs[Suc n := xs ! n]) else xs[Suc n := item])"

definition sort_messages :: "TbMessage list \<Rightarrow> TbMessage list" where
  "sort_messages xs = fold (\<lambda>i ys. sort_shift (ys ! i) i ys) [1..<length xs] xs"

definition sort_staging :: "'v TbHistory \<Rightarrow> 'v TbHistory" where
  "sort_staging h = h\<lparr>hi_staging := sort_messages (hi_staging h)\<rparr>"

section \<open>Merging\<close>

definition over_limits :: "'v TbHistory \<Rightarrow> u16 \<Rightarrow> bool" where
  "over_limits h count \<longleftrightarrow> count > hc_capacity (hi_config h) \<or> bud_used (hi_budget h) > bud_limit (hi_budget h)"

definition drop_newest :: "'v TbHistory \<Rightarrow> 'v TbHistory" where
  "drop_newest h =
     h\<lparr>hi_budget := message_free (last (hi_items h)) (hi_budget h), hi_items := butlast (hi_items h), hi_truncated := True\<rparr>"

function evict_newest :: "'v TbHistory \<Rightarrow> 'v TbHistory" where
  "evict_newest h =
     (if hi_items h \<noteq> [] \<and> over_limits h (of_nat (length (hi_items h))) then evict_newest (drop_newest h) else h)"
  by pat_completeness auto
termination
  by (relation "measure (\<lambda>h. length (hi_items h))") (simp_all add: drop_newest_def)

declare evict_newest.simps [simp del]

fun kept_down :: "TbMessage list \<Rightarrow> int \<Rightarrow> nat \<Rightarrow> nat" where
  "kept_down items key 0 = 0"
| "kept_down items key (Suc n) = (if ms_key (items ! n) \<ge> key then kept_down items key n else Suc n)"

definition kept_before :: "'v TbHistory \<Rightarrow> int \<Rightarrow> nat" where
  "kept_before h key = kept_down (hi_items h) key (length (hi_items h))"

definition remove_from :: "'v TbHistory \<Rightarrow> nat \<Rightarrow> 'v TbHistory" where
  "remove_from h keep =
     h\<lparr>hi_budget := fold message_free (drop keep (hi_items h)) (hi_budget h), hi_items := take keep (hi_items h)\<rparr>"

definition append_one :: "TbMessage \<Rightarrow> 'v TbHistory \<Rightarrow> 'v TbHistory" where
  "append_one item h =
     (if hi_items h \<noteq> [] \<and> ms_key item \<le> ms_key (last (hi_items h)) \<or>
         length (hi_items h) \<ge> unat (hc_capacity (hi_config h))
      then h\<lparr>hi_budget := message_free item (hi_budget h)\<rparr>
      else h\<lparr>hi_items := hi_items h @ [item]\<rparr>)"

definition append_staging :: "'v TbHistory \<Rightarrow> 'v TbHistory" where
  "append_staging h = (fold append_one (hi_staging h) h)\<lparr>hi_staging := []\<rparr>"

definition accept_one :: "int \<Rightarrow> nat \<Rightarrow> TbMessage \<Rightarrow> TbMessage list \<times> TbBudget \<Rightarrow> TbMessage list \<times> TbBudget" where
  "accept_one oldest capacity item p =
     (case p of (accepted, b) \<Rightarrow>
        if ms_key item < oldest \<and> length accepted < capacity then (accepted @ [item], b)
        else (accepted, message_free item b))"

function make_room :: "nat \<Rightarrow> 'v TbHistory \<Rightarrow> 'v TbHistory" where
  "make_room room h = (if length (hi_items h) > room then make_room room (drop_newest h) else h)"
  by pat_completeness auto
termination
  by (relation "measure (\<lambda>(room, h). length (hi_items h))") (auto simp: drop_newest_def)

declare make_room.simps [simp del]

definition prepend_staging :: "'v TbHistory \<Rightarrow> 'v TbHistory" where
  "prepend_staging h =
     (let oldest = (if hi_items h \<noteq> [] then ms_key (hd (hi_items h)) else INT64_MAX);
          capacity = hc_capacity (hi_config h);
          (accepted, b) = fold (accept_one oldest (unat capacity)) (hi_staging h) ([], hi_budget h);
          h1 = h\<lparr>hi_staging := [], hi_budget := b\<rparr>
      in if accepted = [] then h1
         else (let h2 = make_room (unat (capacity - of_nat (length accepted))) h1
               in h2\<lparr>hi_items := accepted @ hi_items h2\<rparr>))"

definition set_top_from :: "'v TbHistory \<Rightarrow> u32 \<Rightarrow> bool \<Rightarrow> 'v TbHistory" where
  "set_top_from h0 flags older =
     (let h = h0\<lparr>hi_top_error := TB_ERROR_NONE\<rparr>
      in if has_flag flags TB_FLAG_HAS_MORE
         then h\<lparr>hi_top := TB_TOP_MORE, hi_top_op := TB_PAGE_OP_NEXT, hi_rechecks := 0, hi_recheck_due := 0\<rparr>
         else
           (let waiting = has_flag flags TB_FLAG_REFRESH_PENDING;
                h1 = (if has_flag flags TB_FLAG_PARTIAL
                      then h\<lparr>hi_top_op := (if older then TB_PAGE_OP_RETRY else TB_PAGE_OP_REFRESH),
                             hi_top := (if waiting then TB_TOP_WAITING else TB_TOP_FAILED)\<rparr>
                      else if has_flag flags TB_FLAG_LOCAL_EXHAUSTED
                      then h\<lparr>hi_top_op := (if older then TB_PAGE_OP_RECHECK else TB_PAGE_OP_REFRESH),
                             hi_top := (if waiting then TB_TOP_WAITING else TB_TOP_START)\<rparr>
                      else h\<lparr>hi_top_op := (if older then TB_PAGE_OP_RECHECK else TB_PAGE_OP_REFRESH),
                             hi_top := TB_TOP_UNKNOWN\<rparr>)
            in if hi_top h1 = TB_TOP_WAITING \<and> older then
                 (if hi_rechecks h1 < 2
                  then h1\<lparr>hi_recheck_due := history_at h1 (followup_delay (hi_config h1) (hi_rechecks h1)),
                          hi_rechecks := hi_rechecks h1 + 1\<rparr>
                  else h1\<lparr>hi_top := (if has_flag flags TB_FLAG_PARTIAL then TB_TOP_FAILED else TB_TOP_START)\<rparr>)
               else h1))"

definition merge_newest :: "'v TbHistory \<Rightarrow> u32 \<Rightarrow> bool \<Rightarrow> 'v TbHistory" where
  "merge_newest h flags first =
     (if first \<or> hi_items h = [] then
        set_top_from ((append_staging (clear_items h))\<lparr>hi_truncated := False\<rparr>) flags False
      else if hi_staging h = [] then h
      else
        (let newest = ms_key (last (hi_items h)); smallest = ms_key (hd (hi_staging h));
             keep = (if smallest \<le> newest then kept_before h smallest else length (hi_items h));
             contiguous = (smallest \<le> newest \<or> length (hi_staging h) < unat (hc_page_limit (hi_config h)))
         in if \<not> contiguous \<or> over_limits h (of_nat (keep + length (hi_staging h)))
            then (clear_staging h)\<lparr>hi_truncated := True\<rparr>
            else append_staging (remove_from h keep)))"

definition finish_newest :: "'v TbHistory \<Rightarrow> u32 \<Rightarrow> bool \<Rightarrow> 'v TbHistory" where
  "finish_newest h flags first =
     (let h1 = merge_newest h flags first;
          h2 = h1\<lparr>hi_loaded := True, hi_refreshed_at := history_now h1, hi_refresh_error := TB_ERROR_NONE\<rparr>;
          h3 = (if has_flag flags TB_FLAG_REFRESH_PENDING \<and> hi_followup_chain h2 \<and> hi_followups h2 < 2
                then h2\<lparr>hi_followup_due := history_at h2 (followup_delay (hi_config h2) (hi_followups h2)),
                        hi_followups := hi_followups h2 + 1\<rparr>
                else h2\<lparr>hi_followup_due := 0, hi_followup_chain := False\<rparr>)
      in schedule_periodic h3)"

definition album_one :: "TbMessage \<Rightarrow> TbMessage list \<times> TbBudget \<Rightarrow> TbMessage list \<times> TbBudget" where
  "album_one item p =
     (case p of (kept, b) \<Rightarrow>
        if kept \<noteq> [] \<and> ms_album item \<noteq> 0 \<and> ms_album (last kept) = ms_album item then
          (let last1 = (last kept)
                 \<lparr>ms_media_count := (if ms_media_count item > ms_media_count (last kept)
                                     then ms_media_count item else ms_media_count (last kept)),
                  ms_media := ms_media (last kept) OR (ms_media item AND (TB_MEDIA_FLAG_SPOILER OR TB_MEDIA_FLAG_IMAGE))\<rparr>;
               swap = (tb_or_empty (ms_text last1) = [] \<and> tb_or_empty (ms_text item) \<noteq> []);
               last2 = (if swap then item\<lparr>ms_media_count := ms_media_count last1, ms_media := ms_media last1\<rparr> else last1);
               freed = (if swap then last1 else item)
           in (butlast kept @ [last2\<lparr>ms_height := - 1\<rparr>], message_free freed b))
        else (kept @ [item], b))"

definition merge_albums :: "'v TbHistory \<Rightarrow> 'v TbHistory" where
  "merge_albums h =
     (case fold album_one (hi_items h) ([], hi_budget h) of (kept, b) \<Rightarrow> h\<lparr>hi_items := kept, hi_budget := b\<rparr>)"

section \<open>Answers\<close>

definition history_finish :: "'v TbHistory \<Rightarrow> TbResponse \<Rightarrow> 'v TbHistory" where
  "history_finish h r =
     (let op = hi_op h;
          h1 = sort_staging (h\<lparr>hi_pending := 0, hi_op := TB_HISTORY_NONE, hi_error := TB_ERROR_NONE, hi_resynced := False,
                 hi_connection_not_ready := has_flag (rs_flags r) TB_FLAG_CONNECTION_NOT_READY\<rparr>);
          h2 = evict_newest
                 (if op = TB_HISTORY_OLDER then set_top_from (prepend_staging h1) (rs_flags r) True
                  else finish_newest h1 (rs_flags r) (op = TB_HISTORY_FIRST));
          h3 = merge_albums h2;
          h4 = (if hi_truncated h3 then h3\<lparr>hi_periodic_due := 0\<rparr> else h3)
      in history_changed (history_arm h4))"

definition history_fail ::
  "'x TbRequestLayer \<times> 'v TbHistory \<Rightarrow> int \<Rightarrow> u32 \<Rightarrow> 'x TbRequestLayer \<times> 'v TbHistory" where
  "history_fail p error retry_after =
     (case p of (L, h) \<Rightarrow>
        (let op = hi_op h;
             h1 = (clear_staging (h\<lparr>hi_pending := 0, hi_op := TB_HISTORY_NONE\<rparr>))\<lparr>hi_retry_after := retry_after\<rparr>
         in if error = TB_RESULT_CURSOR_LOST \<and> \<not> hi_resynced h1
            then history_submit (L, h1\<lparr>hi_resynced := True, hi_followups := 0, hi_followup_chain := True, hi_rechecks := 0\<rparr>)
                   TB_HISTORY_FIRST TB_PAGE_OP_FIRST (hi_loaded h1)
            else
              (let h2 = (if \<not> hi_loaded h1 \<or> tb_error_is_account_level error \<or> tb_error_is_connection_level error \<or>
                            error = TB_RESULT_CHAT_NOT_FOUND
                         then h1\<lparr>hi_error := error\<rparr>
                         else if op = TB_HISTORY_OLDER then h1\<lparr>hi_top := TB_TOP_FAILED, hi_top_error := error\<rparr>
                         else h1\<lparr>hi_refresh_error := error\<rparr>);
                   h3 = (if hi_loaded h2 \<and> hi_top h2 = TB_TOP_LOADING
                         then h2\<lparr>hi_top := TB_TOP_FAILED, hi_top_error := error\<rparr> else h2);
                   h4 = (if hi_loaded h3 \<and> (error = TB_RESULT_CURSOR_LOST \<or> op = TB_HISTORY_FIRST) \<and> hi_top h3 = TB_TOP_FAILED
                         then h3\<lparr>hi_top_op := TB_PAGE_OP_FIRST\<rparr> else h3)
               in (L, history_changed (history_arm (schedule_periodic h4))))))"

definition history_completed ::
  "u32 \<Rightarrow> TbResponse \<Rightarrow> 'x TbRequestLayer \<times> 'v TbHistory \<Rightarrow> 'x TbRequestLayer \<times> 'v TbHistory" where
  "history_completed q r p =
     (case p of (L, h) \<Rightarrow>
        if q \<noteq> hi_pending h \<or> rs_outcome r = TB_OUTCOME_CANCELLED then (L, h)
        else
          (let L1 = (if \<not> rs_final r then cancel_request L q else L)
           in if rs_outcome r \<noteq> TB_OUTCOME_RESPONSE \<or> rs_result r \<noteq> TB_RESULT_OK
              then history_fail (L1, h) (tb_error_from_response r) (rs_retry_after r)
              else
                (case history_parse h r of
                   (h1, False) \<Rightarrow> history_fail (L1, h1) TB_RESULT_PROTOCOL_ERROR 0
                 | (h1, True) \<Rightarrow>
                     if \<not> rs_final r then (L, h1)
                     else if hi_staging_invalid h1 then history_fail (L, clear_staging h1) TB_ERROR_OUT_OF_MEMORY 0
                     else (L, history_finish h1 r))))"

section \<open>Operations\<close>

definition tb_history_init :: "'v TbViewPorts \<Rightarrow> 'v \<Rightarrow> TbHistoryConfig \<Rightarrow> heap \<Rightarrow> nat \<Rightarrow> bool \<times> 'v TbHistory" where
  "tb_history_init ports context config hp item_size =
     (case malloc hp (unat (hc_capacity config) * item_size) of (ok1, hp1) \<Rightarrow>
      case malloc hp1 (unat (hc_page_limit config) * item_size) of (ok2, hp2) \<Rightarrow>
        (ok1 \<and> ok2, \<lparr>hi_ports = ports, hi_context = context, hi_heap = hp2, hi_config = config, hi_account = [],
           hi_chat = [], hi_chat_type = 0, hi_saved = False, hi_items = [], hi_staging = [],
           hi_staging_invalid = False, hi_budget = \<lparr>bud_used = 0, bud_limit = hc_text_budget config\<rparr>,
           hi_top = TB_TOP_MORE, hi_top_op = 0, hi_op = TB_HISTORY_NONE, hi_op_page = 0, hi_pending = 0,
           hi_loaded = False, hi_truncated = False, hi_connection_not_ready = False, hi_active = False,
           hi_refreshing_silently = False, hi_resynced = False, hi_error = 0, hi_top_error = 0,
           hi_refresh_error = 0, hi_retry_after = 0, hi_followups = 0, hi_followup_chain = False,
           hi_rechecks = 0, hi_followup_due = 0, hi_recheck_due = 0, hi_periodic_due = 0,
           hi_refreshed_at = 0, hi_revision = 0\<rparr>))"

definition tb_history_close ::
  "'x TbRequestLayer \<times> 'v TbHistory \<Rightarrow> 'x TbRequestLayer \<times> 'v TbHistory" where
  "tb_history_close p =
     (case p of (L, h) \<Rightarrow>
        ((if hi_pending h \<noteq> 0 then cancel_request L (hi_pending h) else L),
         (clear_staging (h\<lparr>hi_pending := 0\<rparr>))
           \<lparr>hi_op := TB_HISTORY_NONE, hi_active := False, hi_followup_due := 0, hi_recheck_due := 0,
            hi_periodic_due := 0, hi_context := vp_cancel (hi_ports h) (hi_context h)\<rparr>))"

definition tb_history_deinit ::
  "'x TbRequestLayer \<times> 'v TbHistory \<Rightarrow> 'x TbRequestLayer \<times> 'v TbHistory" where
  "tb_history_deinit p = (case tb_history_close p of (L, h) \<Rightarrow> (L, clear_items h))"

definition tb_history_is :: "'v TbHistory \<Rightarrow> cstring \<Rightarrow> cstring \<Rightarrow> bool" where
  "tb_history_is h account chat \<longleftrightarrow> hi_loaded h \<and> hi_account h = account \<and> hi_chat h = chat"

definition tb_history_open ::
  "'x TbRequestLayer \<times> 'v TbHistory \<Rightarrow> cstring \<Rightarrow> cstring \<Rightarrow> u8 \<Rightarrow> bool \<Rightarrow> 'x TbRequestLayer \<times> 'v TbHistory" where
  "tb_history_open p account chat chat_type saved =
     (let same = (tb_history_is (snd p) account chat \<and> \<not> hi_truncated (snd p))
      in case tb_history_close p of (L, h) \<Rightarrow>
           (let h1 = h\<lparr>hi_active := True, hi_chat_type := chat_type, hi_saved := saved, hi_followups := 0,
                  hi_followup_chain := True, hi_rechecks := 0, hi_resynced := False, hi_retry_after := 0\<rparr>
            in if same then history_submit (L, h1) TB_HISTORY_FIRST TB_PAGE_OP_FIRST True
               else history_submit
                      (L, (clear_items h1)\<lparr>hi_account := strncpy TB_ACCOUNT_ID_SIZE account,
                         hi_chat := strncpy TB_TELEGRAM_ID_SIZE chat, hi_loaded := False, hi_truncated := False,
                         hi_top := TB_TOP_LOADING, hi_error := TB_ERROR_NONE, hi_top_error := TB_ERROR_NONE,
                         hi_refresh_error := TB_ERROR_NONE\<rparr>)
                      TB_HISTORY_FIRST TB_PAGE_OP_FIRST False))"

definition tb_history_load_older ::
  "'x TbRequestLayer \<times> 'v TbHistory \<Rightarrow> 'x TbRequestLayer \<times> 'v TbHistory" where
  "tb_history_load_older p =
     (case p of (L, h) \<Rightarrow>
        if \<not> hi_loaded h \<or> hi_op h \<noteq> TB_HISTORY_NONE then (L, h)
        else if hi_top h = TB_TOP_MORE then history_submit (L, h) TB_HISTORY_OLDER TB_PAGE_OP_NEXT False
        else if hi_top h = TB_TOP_LOADING then (L, h)
        else
          (let h1 = h\<lparr>hi_recheck_due := 0\<rparr>
           in if hi_top_op h1 = TB_PAGE_OP_FIRST
              then history_submit (L, h1\<lparr>hi_resynced := False, hi_followups := 0, hi_followup_chain := True\<rparr>)
                     TB_HISTORY_FIRST TB_PAGE_OP_FIRST True
              else if hi_top_op h1 = TB_PAGE_OP_REFRESH
              then history_submit (L, h1\<lparr>hi_followups := 0, hi_followup_chain := True\<rparr>)
                     TB_HISTORY_REFRESH TB_PAGE_OP_REFRESH False
              else history_submit (L, if hi_top h1 \<noteq> TB_TOP_WAITING then h1\<lparr>hi_rechecks := 0\<rparr> else h1)
                     TB_HISTORY_OLDER (hi_top_op h1) False))"

definition tb_history_refresh ::
  "'x TbRequestLayer \<times> 'v TbHistory \<Rightarrow> 'x TbRequestLayer \<times> 'v TbHistory" where
  "tb_history_refresh p =
     (case p of (L, h) \<Rightarrow>
        if hi_op h \<noteq> TB_HISTORY_NONE \<or> hi_account h = [] then (L, h)
        else
          (let h1 = h\<lparr>hi_followups := 0, hi_followup_chain := True\<rparr>
           in if \<not> hi_loaded h1 \<or> hi_truncated h1
              then history_submit (L, h1\<lparr>hi_resynced := False\<rparr>) TB_HISTORY_FIRST TB_PAGE_OP_FIRST (hi_loaded h1)
              else history_submit (L, h1) TB_HISTORY_REFRESH TB_PAGE_OP_REFRESH False))"

definition tb_history_retry ::
  "'x TbRequestLayer \<times> 'v TbHistory \<Rightarrow> 'x TbRequestLayer \<times> 'v TbHistory" where
  "tb_history_retry p =
     (case p of (L, h) \<Rightarrow>
        if hi_op h \<noteq> TB_HISTORY_NONE \<or> hi_account h = [] then (L, h)
        else if \<not> hi_loaded h
        then history_submit (L, h\<lparr>hi_error := TB_ERROR_NONE, hi_resynced := False, hi_followups := 0,
               hi_followup_chain := True\<rparr>) TB_HISTORY_FIRST TB_PAGE_OP_FIRST False
        else if hi_top h = TB_TOP_FAILED then tb_history_load_older (L, h)
        else tb_history_refresh (L, h))"

definition tb_history_set_active ::
  "'x TbRequestLayer \<times> 'v TbHistory \<Rightarrow> bool \<Rightarrow> 'x TbRequestLayer \<times> 'v TbHistory" where
  "tb_history_set_active p active =
     (case p of (L, h) \<Rightarrow>
        if hi_account h = [] then (L, h)
        else
          (let h1 = h\<lparr>hi_active := active\<rparr>
           in if \<not> active then (L, history_arm (h1\<lparr>hi_periodic_due := 0, hi_followup_due := 0\<rparr>))
              else if hi_loaded h1 \<and> hi_op h1 = TB_HISTORY_NONE \<and> \<not> hi_truncated h1 \<and>
                      history_now h1 - hi_refreshed_at h1 \<ge> hc_refresh_interval (hi_config h1)
              then tb_history_refresh (L, h1)
              else (L, history_arm (schedule_periodic h1))))"

definition tb_history_timer ::
  "'x TbRequestLayer \<times> 'v TbHistory \<Rightarrow> 'x TbRequestLayer \<times> 'v TbHistory" where
  "tb_history_timer p =
     (case p of (L, h) \<Rightarrow>
        (let current = history_now h;
             followup = history_due (hi_followup_due h) current;
             periodic = history_due (hi_periodic_due h) current;
             recheck = history_due (hi_recheck_due h) current
         in if \<not> followup \<and> \<not> periodic \<and> \<not> recheck then (L, history_arm h)
            else if hi_op h \<noteq> TB_HISTORY_NONE then
              (L, history_arm (h
                 \<lparr>hi_followup_due := (if followup then history_at h TB_BUSY_POSTPONE else hi_followup_due h),
                  hi_periodic_due := (if periodic then history_at h TB_BUSY_POSTPONE else hi_periodic_due h),
                  hi_recheck_due := (if recheck then history_at h TB_BUSY_POSTPONE else hi_recheck_due h)\<rparr>))
            else if recheck
            then history_submit (L, h\<lparr>hi_recheck_due := 0\<rparr>) TB_HISTORY_OLDER (hi_top_op h) False
            else
              (let h1 = h\<lparr>hi_followup_due := 0, hi_periodic_due := 0\<rparr>;
                   h2 = (if periodic \<and> \<not> followup then h1\<lparr>hi_followups := 0, hi_followup_chain := False\<rparr> else h1)
               in if \<not> hi_active h2 then (L, history_arm h2)
                  else history_submit (L, h2) TB_HISTORY_REFRESH TB_PAGE_OP_REFRESH True)))"

definition tb_history_find :: "'v TbHistory \<Rightarrow> cstring \<Rightarrow> int" where
  "tb_history_find h mid =
     (case List.find (\<lambda>i. ms_id (hi_items h ! i) = mid) [0..<length (hi_items h)] of
        None \<Rightarrow> - 1 | Some i \<Rightarrow> int i)"

end
