(* ===== verification/History_Facts.thy ===== *)
theory History_Facts
  imports History "HOL-Library.Multiset"
begin

text \<open>
  Lemmas and properties of the message history: the sort is the stable sort, the lists stay
  sorted, within capacity and within the text budget, and merging a page does what it should.
\<close>

section \<open>Sorting\<close>

lemma sort_shift_split:
  "n < length xs \<Longrightarrow> \<exists>A B. take n xs = A @ B \<and> (\<forall>y \<in> set B. ms_key x < ms_key y) \<and>
     (A \<noteq> [] \<longrightarrow> ms_key (last A) \<le> ms_key x) \<and> sort_shift x n xs = A @ x # B @ drop (Suc n) xs"
proof (induction n arbitrary: xs)
  case 0
  then show ?case by (cases xs) auto
next
  case (Suc n)
  show ?case
  proof (cases "ms_key (xs ! n) > ms_key x")
    case False
    then show ?thesis using Suc.prems
      by (intro exI [of _ "take (Suc n) xs"] exI [of _ "[]"])
        (auto simp: upd_conv_take_nth_drop take_Suc_conv_app_nth)
  next
    case True
    let ?ys = "xs[Suc n := xs ! n]"
    obtain A B where ab: "take n ?ys = A @ B" "\<forall>y \<in> set B. ms_key x < ms_key y"
        "A \<noteq> [] \<longrightarrow> ms_key (last A) \<le> ms_key x" "sort_shift x n ?ys = A @ x # B @ drop (Suc n) ?ys"
      using Suc.IH [of ?ys] Suc.prems by auto
    have "take (Suc n) xs = A @ (B @ [xs ! n])"
      using ab(1) Suc.prems by (simp add: take_Suc_conv_app_nth)
    moreover have "drop (Suc n) ?ys = xs ! n # drop (Suc (Suc n)) xs"
      using Suc.prems by (simp add: drop_update_swap Cons_nth_drop_Suc [symmetric])
    ultimately show ?thesis using ab True
      by (intro exI [of _ A] exI [of _ "B @ [xs ! n]"]) simp
  qed
qed

text \<open>One round of the sort: the next entry goes behind every entry with a key as small.\<close>

lemma sort_shift_insert:
  assumes n: "n < length xs" and s: "sorted (map ms_key (take n xs))"
  defines "ys \<equiv> sort_shift (xs ! n) n xs"
  shows "length ys = length xs" and "drop (Suc n) ys = drop (Suc n) xs" and "mset ys = mset xs"
    and "sorted (map ms_key (take (Suc n) ys))"
    and "filter (\<lambda>x. ms_key x = k) ys = filter (\<lambda>x. ms_key x = k) xs"
proof -
  define x D where "x = xs ! n" and "D = drop (Suc n) xs"
  obtain A B where ab: "take n xs = A @ B" "\<forall>y \<in> set B. ms_key x < ms_key y"
      "A \<noteq> [] \<longrightarrow> ms_key (last A) \<le> ms_key x" "ys = A @ x # B @ D"
    using sort_shift_split [OF n, of x] unfolding ys_def x_def D_def by blast
  have len: "length A + length B = n" using ab(1) n by (metis length_append length_take min.absorb4)
  have xs: "xs = A @ B @ x # D"
    using n ab(1) unfolding x_def D_def by (metis append.assoc append_take_drop_id Cons_nth_drop_Suc)
  show "length ys = length xs" "drop (Suc n) ys = drop (Suc n) xs" "mset ys = mset xs"
    using len by (simp_all add: ab(4) xs Suc_diff_le)
  have "\<forall>y \<in> set A. ms_key y \<le> ms_key x"
  proof (cases "A = []")
    case False
    then have "sorted (map ms_key (butlast A @ [last A]))" using s ab(1) by (simp add: sorted_append)
    then have "\<forall>y \<in> set (butlast A). ms_key y \<le> ms_key (last A)" by (simp add: sorted_append)
    then have "\<forall>y \<in> set (butlast A @ [last A]). ms_key y \<le> ms_key (last A)" by auto
    then show ?thesis using ab(3) False by (metis append_butlast_last_id order_trans)
  qed simp
  then have "sorted (map ms_key (A @ x # B))"
    using s ab(1,2) by (auto simp: sorted_append less_imp_le)
  moreover have "take (Suc n) ys = A @ x # B" using len by (auto simp: ab(4) Suc_diff_le)
  ultimately show "sorted (map ms_key (take (Suc n) ys))" by simp
  have "filter (\<lambda>x. ms_key x = k) B = []" if "ms_key x = k"
    using ab(2) that by (auto simp: filter_empty_conv)
  then show "filter (\<lambda>x. ms_key x = k) ys = filter (\<lambda>x. ms_key x = k) xs"
    by (simp add: ab(4) xs)
qed

lemma sort_rounds:
  assumes "n \<le> length xs"
  defines "ys \<equiv> fold (\<lambda>i ys. sort_shift (ys ! i) i ys) [1..<n] xs"
  shows "length ys = length xs \<and> mset ys = mset xs \<and> sorted (map ms_key (take n ys)) \<and>
     (\<forall>k. filter (\<lambda>x. ms_key x = k) ys = filter (\<lambda>x. ms_key x = k) xs)"
  using assms(1) unfolding ys_def
proof (induction n)
  case 0
  then show ?case by simp
next
  case (Suc n)
  show ?case
  proof (cases "n = 0")
    case True
    then show ?thesis using Suc.prems by (cases xs) simp_all
  next
    case False
    let ?ys = "fold (\<lambda>i ys. sort_shift (ys ! i) i ys) [1..<n] xs"
    have "n < length ?ys" "sorted (map ms_key (take n ?ys))" using Suc by simp_all
    note r = sort_shift_insert [OF this]
    have "fold (\<lambda>i ys. sort_shift (ys ! i) i ys) [1..<Suc n] xs = sort_shift (?ys ! n) n ?ys"
      using False by simp
    then show ?thesis using Suc r by simp
  qed
qed

lemma sort_messages_sort_key: "sort_messages xs = sort_key ms_key xs"
proof -
  note r = sort_rounds [of "length xs" xs, folded sort_messages_def]
  have "sort_key ms_key xs = sort_messages xs"
    by (rule properties_for_sort_key) (use r in \<open>auto simp: eq_commute\<close>)
  then show ?thesis by simp
qed

text \<open>
  C33. The insertion sort that orders a staged page by message key computes the stable sort of the
  page: nothing is lost or repeated, and messages with equal keys keep their order.
\<close>

theorem history_sort_stable:
  "hi_staging (sort_staging h) = sort_key ms_key (hi_staging h)"
  by (simp add: sort_staging_def sort_messages_sort_key)

section \<open>The text budget\<close>

definition message_cost :: "TbMessage \<Rightarrow> nat" where
  "message_cost m =
     sum_list (map text_cost [ms_sender m, ms_signature m, ms_forward m, ms_extra m, ms_text m, ms_reply m,
       ms_reply_id m, ms_reply_sender m])"

definition messages_cost :: "TbMessage list \<Rightarrow> nat" where
  "messages_cost ms = sum_list (map message_cost ms)"

lemma messages_cost_simps [simp]:
  "messages_cost [] = 0" "messages_cost (m # ms) = message_cost m + messages_cost ms"
  "messages_cost (xs @ ys) = messages_cost xs + messages_cost ys"
  by (simp_all add: messages_cost_def)

lemma messages_cost_mset: "mset xs = mset ys \<Longrightarrow> messages_cost xs = messages_cost ys"
  unfolding messages_cost_def by (metis mset_map sum_mset_sum_list)

lemma texts_free_accounts:
  "bud_used (fold (\<lambda>t b. tb_budget_free b t) ts b) \<le> bud_used b \<and>
   bud_limit (fold (\<lambda>t b. tb_budget_free b t) ts b) = bud_limit b \<and>
   (x + sum_list (map text_cost ts) \<le> bud_used b \<longrightarrow> x \<le> bud_used (fold (\<lambda>t b. tb_budget_free b t) ts b))"
proof (induction ts arbitrary: b)
  case (Cons t ts)
  show ?case
    using Cons.IH [of "tb_budget_free b t"] budget_free_accounts(1,2) [of b t]
      budget_free_accounts(3) [of "x + sum_list (map text_cost ts)" t b]
    by (auto intro: order_trans)
qed simp

lemma message_free_accounts:
  shows "bud_used (message_free m b) \<le> bud_used b" and "bud_limit (message_free m b) = bud_limit b"
    and "x + message_cost m \<le> bud_used b \<Longrightarrow> x \<le> bud_used (message_free m b)"
  using texts_free_accounts [where ts = "[ms_sender m, ms_signature m, ms_forward m, ms_extra m, ms_text m, ms_reply m,
       ms_reply_id m, ms_reply_sender m]" and b = b and x = x]
  unfolding message_free_def message_cost_def by blast+

lemma messages_free_accounts:
  "bud_limit (fold message_free ms b) = bud_limit b \<and>
   (x + messages_cost ms \<le> bud_used b \<longrightarrow> x \<le> bud_used (fold message_free ms b))"
proof (induction ms arbitrary: b)
  case (Cons m ms)
  show ?case
    using Cons.IH [of "message_free m b"] message_free_accounts(2) [of m b]
      message_free_accounts(3) [of "x + messages_cost ms" m b] by auto
qed simp

lemma copy_texts_accounts:
  assumes "copy_texts vs (b, h) = (ts, b', h')"
  shows "length ts = length vs \<and> bud_limit b' = bud_limit b \<and> bud_used b + sum_list (map text_cost ts) \<le> bud_used b'"
  using assms
proof (induction vs arbitrary: b h ts b' h')
  case (Cons v vs)
  obtain s n where v: "v = (s, n)" by (cases v)
  obtain t b1 h1 where c: "tb_budget_copy h b s n True = (t, b1, h1)" by (metis prod_cases3)
  obtain ts2 b2 h2 where r: "copy_texts vs (b1, h1) = (ts2, b2, h2)" by (metis prod_cases3)
  have "ts = t # ts2" "b' = b2" using Cons.prems v c r by simp_all
  then show ?case using Cons.IH [OF r] budget_copy_accounts(1,2) [OF c] by simp
qed simp

section \<open>Invariant\<close>

text \<open>A stored message has the identifier its key was read from.\<close>

definition message_ok :: "TbMessage \<Rightarrow> bool" where
  "message_ok m \<longleftrightarrow> tb_parse_id (ms_id m) = Some (ms_key m) \<and> length (ms_id m) < TB_TELEGRAM_ID_SIZE"

text \<open>
  The lists: the items are sorted and within capacity, the staged page within the page limit, and
  all their texts together cost no more than the budget counts.
\<close>

definition lists_ok :: "TbHistoryConfig \<Rightarrow> TbMessage list \<Rightarrow> TbMessage list \<Rightarrow> TbBudget \<Rightarrow> bool" where
  "lists_ok cfg items staging b \<longleftrightarrow>
     length items \<le> unat (hc_capacity cfg) \<and> sorted (map ms_key items) \<and>
     length staging \<le> unat (hc_page_limit cfg) \<and> list_all message_ok items \<and> list_all message_ok staging \<and>
     messages_cost items + messages_cost staging \<le> bud_used b \<and> bud_limit b = hc_text_budget cfg"

definition history_lists :: "'v TbHistory \<Rightarrow> bool" where
  "history_lists h \<longleftrightarrow> lists_ok (hi_config h) (hi_items h) (hi_staging h) (hi_budget h)"

lemma lists_clear_items: "lists_ok cfg items st b \<Longrightarrow> lists_ok cfg [] st (fold message_free items b)"
  using messages_free_accounts [of items b "messages_cost st"] by (simp add: lists_ok_def add.commute)

lemma lists_clear_staging: "lists_ok cfg items st b \<Longrightarrow> lists_ok cfg items [] (fold message_free st b)"
  using messages_free_accounts [of st b "messages_cost items"] by (simp add: lists_ok_def)

lemma lists_take:
  assumes "lists_ok cfg items st b"
  shows "lists_ok cfg (take n items) st (fold message_free (drop n items) b)"
proof -
  have "messages_cost items = messages_cost (take n items) + messages_cost (drop n items)"
    using messages_cost_simps(3) [of "take n items" "drop n items"] by simp
  moreover have "sorted (map ms_key items) \<Longrightarrow> sorted (map ms_key (take n items))"
    using sorted_wrt_take [of "(\<le>)" "map ms_key items" n] by (simp add: take_map)
  ultimately show ?thesis
    using assms messages_free_accounts [of "drop n items" b "messages_cost (take n items) + messages_cost st"]
    by (auto simp: lists_ok_def list_all_iff dest: in_set_takeD)
qed

lemma lists_butlast:
  assumes "lists_ok cfg items st b" and "items \<noteq> []"
  shows "lists_ok cfg (butlast items) st (message_free (last items) b)"
proof -
  have "items = butlast items @ [last items]" using assms(2) by simp
  then have "drop (length items - 1) items = [last items]"
    by (metis append_eq_conv_conj length_butlast)
  then show ?thesis using lists_take [OF assms(1), of "length items - 1"] by (simp add: butlast_conv_take)
qed

lemma lists_perm:
  assumes "lists_ok cfg items st b" and "mset st' = mset st"
  shows "lists_ok cfg items st' b"
  using assms messages_cost_mset [OF assms(2)] mset_eq_length [OF assms(2)] mset_eq_setD [OF assms(2)]
  by (simp add: lists_ok_def list_all_iff)

lemma lists_free_staged:
  assumes "lists_ok cfg items (m # st) b"
  shows "lists_ok cfg items st (message_free m b)"
  using assms message_free_accounts(2) [of m b] message_free_accounts(3) [of "messages_cost items + messages_cost st" m b]
  by (auto simp: lists_ok_def)

lemma append_one_lists:
  assumes "lists_ok (hi_config h) (hi_items h) (m # st) (hi_budget h)"
  shows "lists_ok (hi_config h) (hi_items (append_one m h)) st (hi_budget (append_one m h))"
proof (cases "hi_items h \<noteq> [] \<and> ms_key m \<le> ms_key (last (hi_items h)) \<or> length (hi_items h) \<ge> unat (hc_capacity (hi_config h))")
  case True
  then show ?thesis using lists_free_staged [OF assms] by (simp add: append_one_def)
next
  case False
  have "\<forall>x \<in> set (hi_items h). ms_key x \<le> ms_key m"
  proof (cases "hi_items h = []")
    case ne: False
    have "sorted (map ms_key (butlast (hi_items h) @ [last (hi_items h)]))" using assms ne by (simp add: lists_ok_def)
    then have "\<forall>x \<in> set (butlast (hi_items h) @ [last (hi_items h)]). ms_key x \<le> ms_key (last (hi_items h))"
      by (auto simp: sorted_append)
    then have "\<forall>x \<in> set (hi_items h). ms_key x \<le> ms_key (last (hi_items h))" using ne by simp
    then show ?thesis using False ne by fastforce
  qed simp
  then show ?thesis using False assms by (auto simp: append_one_def lists_ok_def sorted_append)
qed

lemma append_one_frame [simp]:
  "hi_config (append_one m h) = hi_config h" "hi_staging (append_one m h) = hi_staging h"
  "hi_followups (append_one m h) = hi_followups h" "hi_rechecks (append_one m h) = hi_rechecks h"
  "hi_op (append_one m h) = hi_op h" "hi_pending (append_one m h) = hi_pending h"
  by (simp_all add: append_one_def)

lemma append_fold_lists:
  assumes "lists_ok (hi_config h) (hi_items h) st (hi_budget h)"
  shows "lists_ok (hi_config h) (hi_items (fold append_one st h)) [] (hi_budget (fold append_one st h)) \<and>
     hi_config (fold append_one st h) = hi_config h \<and> hi_followups (fold append_one st h) = hi_followups h \<and>
     hi_rechecks (fold append_one st h) = hi_rechecks h \<and> hi_op (fold append_one st h) = hi_op h \<and>
     hi_pending (fold append_one st h) = hi_pending h"
  using assms
proof (induction st arbitrary: h)
  case (Cons m st)
  then show ?case using append_one_lists [OF Cons.prems] Cons.IH [of "append_one m h"] by simp
qed simp

text \<open>What the operations on the lists leave alone.\<close>

definition same_control :: "'v TbHistory \<Rightarrow> 'v TbHistory \<Rightarrow> bool" where
  "same_control h h' \<longleftrightarrow> hi_config h' = hi_config h \<and> hi_followups h' = hi_followups h \<and>
     hi_rechecks h' = hi_rechecks h \<and> hi_op h' = hi_op h \<and> hi_pending h' = hi_pending h"

lemma same_control_refl [simp]: "same_control h h"
  by (simp add: same_control_def)

lemma same_control_trans: "same_control h h' \<Longrightarrow> same_control h' h'' \<Longrightarrow> same_control h h''"
  by (simp add: same_control_def)

lemma append_staging_lists:
  "history_lists h \<Longrightarrow> history_lists (append_staging h) \<and> hi_staging (append_staging h) = [] \<and> same_control h (append_staging h)"
  using append_fold_lists [of h "hi_staging h"] by (simp add: history_lists_def append_staging_def same_control_def)

lemma clear_items_lists:
  "history_lists h \<Longrightarrow> history_lists (clear_items h)" "same_control h (clear_items h)"
  "hi_staging (clear_items h) = hi_staging h" "hi_items (clear_items h) = []"
  using lists_clear_items by (auto simp: history_lists_def clear_items_def same_control_def)

lemma clear_staging_lists:
  "history_lists h \<Longrightarrow> history_lists (clear_staging h)" "same_control h (clear_staging h)"
  "hi_staging (clear_staging h) = []" "hi_items (clear_staging h) = hi_items h"
  using lists_clear_staging by (auto simp: history_lists_def clear_staging_def same_control_def)

lemma remove_from_lists:
  "history_lists h \<Longrightarrow> history_lists (remove_from h n)" "same_control h (remove_from h n)"
  using lists_take by (auto simp: history_lists_def remove_from_def same_control_def)

lemma drop_newest_lists:
  "history_lists h \<Longrightarrow> hi_items h \<noteq> [] \<Longrightarrow> history_lists (drop_newest h)" "same_control h (drop_newest h)"
  "hi_staging (drop_newest h) = hi_staging h"
  using lists_butlast by (auto simp: history_lists_def drop_newest_def same_control_def)

lemma evict_newest_lists:
  assumes "history_lists h"
  shows "history_lists (evict_newest h) \<and> same_control h (evict_newest h) \<and>
     hi_staging (evict_newest h) = hi_staging h \<and>
     (hi_items (evict_newest h) = [] \<or> bud_used (hi_budget (evict_newest h)) \<le> bud_limit (hi_budget (evict_newest h)))"
  using assms
proof (induction h rule: evict_newest.induct)
  case (1 h)
  show ?case
  proof (cases "hi_items h \<noteq> [] \<and> over_limits h (of_nat (length (hi_items h)))")
    case True
    then have "history_lists (drop_newest h)" using drop_newest_lists(1) [OF 1(2)] by simp
    from 1(1) [OF True this] show ?thesis
      using True drop_newest_lists(2,3) [of h] same_control_trans
      by (subst (1 2 3 4 5 6) evict_newest.simps) auto
  next
    case False
    then show ?thesis using 1(2) by (subst (1 2 3 4 5 6) evict_newest.simps) (auto simp: over_limits_def)
  qed
qed

lemma make_room_lists:
  assumes "lists_ok (hi_config h) (hi_items h) st (hi_budget h)"
  shows "lists_ok (hi_config h) (hi_items (make_room n h)) st (hi_budget (make_room n h)) \<and>
     same_control h (make_room n h) \<and> hi_staging (make_room n h) = hi_staging h \<and>
     hi_items (make_room n h) = take n (hi_items h)"
  using assms
proof (induction n h rule: make_room.induct)
  case (1 n h)
  show ?case
  proof (cases "length (hi_items h) > n")
    case True
    then have ne: "hi_items h \<noteq> []" by auto
    have "lists_ok (hi_config (drop_newest h)) (hi_items (drop_newest h)) st (hi_budget (drop_newest h))"
      using lists_butlast [OF 1(2) ne] by (simp add: drop_newest_def)
    note ih = 1(1) [OF True this]
    have "take n (hi_items (drop_newest h)) = take n (hi_items h)" "hi_config (drop_newest h) = hi_config h"
      using True by (simp_all add: drop_newest_def take_butlast)
    then show ?thesis
      using ih True drop_newest_lists(2,3) [of h] same_control_trans
      by (subst (1 2 3 4 5) make_room.simps) auto
  next
    case False
    then show ?thesis using 1(2) by (subst (1 2 3 4 5) make_room.simps) auto
  qed
qed

lemma accept_fold:
  assumes "fold (accept_one oldest cap) st (acc, b) = (acc', b')"
  shows "acc' = acc @ take (cap - length acc) (filter (\<lambda>m. ms_key m < oldest) st) \<and> bud_limit b' = bud_limit b \<and>
     (x + messages_cost acc + messages_cost st \<le> bud_used b \<longrightarrow> x + messages_cost acc' \<le> bud_used b')"
  using assms
proof (induction st arbitrary: acc b)
  case (Cons m st)
  show ?case
  proof (cases "ms_key m < oldest \<and> length acc < cap")
    case True
    then have "cap - length acc = Suc (cap - Suc (length acc))" by (simp add: Suc_diff_Suc)
    with True show ?thesis
      using Cons.IH [of "acc @ [m]" b] Cons.prems by (auto simp: accept_one_def)
  next
    case False
    then show ?thesis
      using Cons.IH [of acc "message_free m b"] Cons.prems message_free_accounts(2) [of m b]
        message_free_accounts(3) [of "x + messages_cost acc + messages_cost st" m b]
      by (auto simp: accept_one_def)
  qed
qed simp

lemma sorted_filter_key: "sorted (map ms_key xs) \<Longrightarrow> sorted (map ms_key (take n (filter P xs)))"
  using sorted_wrt_take [of "(\<le>)" "map ms_key (filter P xs)" n] by (simp add: take_map sorted_filter)

text \<open>Putting an older page in front, and the exact list it gives.\<close>

lemma prepend_lists:
  assumes ok: "history_lists h" and sorted: "sorted (map ms_key (hi_staging h))"
  defines "accepted \<equiv> take (unat (hc_capacity (hi_config h)))
      (filter (\<lambda>m. ms_key m < (if hi_items h \<noteq> [] then ms_key (hd (hi_items h)) else INT64_MAX)) (hi_staging h))"
  shows "history_lists (prepend_staging h) \<and> hi_staging (prepend_staging h) = [] \<and> same_control h (prepend_staging h) \<and>
     hi_items (prepend_staging h) =
       accepted @ take (unat (hc_capacity (hi_config h)) - length accepted) (hi_items h)"
proof -
  define oldest where "oldest = (if hi_items h \<noteq> [] then ms_key (hd (hi_items h)) else INT64_MAX)"
  define cap where "cap = hc_capacity (hi_config h)"
  obtain acc b where f: "fold (accept_one oldest (unat cap)) (hi_staging h) ([], hi_budget h) = (acc, b)" by fastforce
  note af = accept_fold [OF f, where x = "messages_cost (hi_items h)"]
  have acc: "acc = accepted" using af by (simp add: accepted_def oldest_def cap_def)
  let ?h1 = "h\<lparr>hi_staging := [], hi_budget := b\<rparr>"
  have lh: "lists_ok (hi_config h) (hi_items h) (hi_staging h) (hi_budget h)" using ok by (simp add: history_lists_def)
  have sub: "set acc \<subseteq> set (hi_staging h)" "length acc \<le> length (hi_staging h)" "length acc \<le> unat cap"
    and less: "\<forall>m \<in> set acc. ms_key m < oldest" and accs: "sorted (map ms_key acc)"
    using sorted_filter_key [OF sorted] length_filter_le [of "\<lambda>m. ms_key m < oldest" "hi_staging h"]
    by (auto simp: af min.coboundedI1 dest: in_set_takeD)
  have l1: "lists_ok (hi_config ?h1) (hi_items ?h1) acc (hi_budget ?h1)"
    using lh af sub by (auto simp: lists_ok_def list_all_iff)
  show ?thesis
  proof (cases "acc = []")
    case True
    then have "prepend_staging h = ?h1" using f by (simp add: prepend_staging_def oldest_def cap_def)
    moreover have "length (hi_items h) \<le> unat (hc_capacity (hi_config h))" using lh by (simp add: lists_ok_def)
    ultimately show ?thesis using l1 True by (simp add: history_lists_def same_control_def acc)
  next
    case False
    define room where "room = unat (cap - of_nat (length acc))"
    have "unat (of_nat (length acc) :: u16) = length acc" using sub(3) unat_u16_less [of cap] by (intro unat_of_nat_u16) linarith
    then have room: "room = unat cap - length acc" using sub(3) by (simp add: room_def unat_minus_u16)
    note mr = make_room_lists [OF l1, of room]
    have eq: "prepend_staging h = (make_room room ?h1)\<lparr>hi_items := acc @ hi_items (make_room room ?h1)\<rparr>"
      using f False by (simp add: prepend_staging_def oldest_def cap_def Let_def room_def)
    have old: "oldest \<le> ms_key m" if "m \<in> set (hi_items h)" for m
      using lh that by (cases "hi_items h") (auto simp: lists_ok_def oldest_def)
    have "sorted (map ms_key (acc @ take room (hi_items h)))"
      using accs less old mr by (fastforce simp: sorted_append lists_ok_def dest: in_set_takeD)
    moreover have "length (acc @ take room (hi_items h)) \<le> unat cap" using sub(3) by (simp add: room)
    ultimately have "history_lists (prepend_staging h)"
      using mr unfolding eq by (auto simp: history_lists_def lists_ok_def same_control_def cap_def)
    then show ?thesis using mr eq room acc by (simp add: same_control_def cap_def)
  qed
qed

section \<open>Albums\<close>

lemma message_ok_frame [simp]:
  "message_ok (m\<lparr>ms_media := a\<rparr>) = message_ok m" "message_ok (m\<lparr>ms_media_count := n\<rparr>) = message_ok m"
  "message_ok (m\<lparr>ms_height := x\<rparr>) = message_ok m"
  by (simp_all add: message_ok_def)

lemma message_cost_frame [simp]:
  "message_cost (m\<lparr>ms_media := a\<rparr>) = message_cost m" "message_cost (m\<lparr>ms_media_count := n\<rparr>) = message_cost m"
  "message_cost (m\<lparr>ms_height := x\<rparr>) = message_cost m"
  by (simp_all add: message_cost_def)

text \<open>Merging an item into the album before it keeps one of the two messages.\<close>

lemma album_one_cases:
  obtains (keep) "album_one m (kept, b) = (kept @ [m], b)"
  | (merge) ks l l' f where "kept = ks @ [l]" "album_one m (kept, b) = (ks @ [l'], message_free f b)"
      "ms_key l' = ms_key l \<or> ms_key l' = ms_key m" "message_ok l \<Longrightarrow> message_ok m \<Longrightarrow> message_ok l'"
      "message_cost l' + message_cost f = message_cost l + message_cost m"
proof (cases "kept \<noteq> [] \<and> ms_album m \<noteq> 0 \<and> ms_album (last kept) = ms_album m")
  case False
  then show thesis by (intro keep) (auto simp: album_one_def)
next
  case True
  define l1 where "l1 = (last kept)
      \<lparr>ms_media_count := (if ms_media_count m > ms_media_count (last kept) then ms_media_count m else ms_media_count (last kept)),
       ms_media := ms_media (last kept) OR (ms_media m AND (TB_MEDIA_FLAG_SPOILER OR TB_MEDIA_FLAG_IMAGE))\<rparr>"
  define swap where "swap = (tb_or_empty (ms_text l1) = [] \<and> tb_or_empty (ms_text m) \<noteq> [])"
  define l2 where "l2 = (if swap then m\<lparr>ms_media_count := ms_media_count l1, ms_media := ms_media l1\<rparr> else l1)"
  define f where "f = (if swap then l1 else m)"
  have one: "album_one m (kept, b) = (butlast kept @ [l2\<lparr>ms_height := - 1\<rparr>], message_free f b)"
    unfolding album_one_def prod.case if_P [OF True] Let_def
    by (simp only: l1_def swap_def l2_def f_def)
  have l1: "ms_key l1 = ms_key (last kept)" "message_ok l1 = message_ok (last kept)" "message_cost l1 = message_cost (last kept)"
    by (simp_all add: l1_def)
  have "kept = butlast kept @ [last kept]" using True by simp
  then show thesis
    by (rule merge [OF _ one]) (auto simp: l2_def f_def l1)
qed

lemma albums_fold:
  assumes "sorted (map ms_key (kept @ ms))" and "list_all message_ok (kept @ ms)"
    and "messages_cost kept + messages_cost ms \<le> bud_used b"
  shows "case fold album_one ms (kept, b) of (kept', b') \<Rightarrow>
     sorted (map ms_key kept') \<and> list_all message_ok kept' \<and> messages_cost kept' \<le> bud_used b' \<and>
     length kept' \<le> length kept + length ms \<and> bud_limit b' = bud_limit b \<and>
     messages_cost kept' \<le> messages_cost kept + messages_cost ms"
  using assms
proof (induction ms arbitrary: kept b)
  case (Cons m ms)
  show ?case
  proof (cases rule: album_one_cases [of m kept b])
    case keep
    then show ?thesis using Cons.IH [of "kept @ [m]" b] Cons.prems by (auto split: prod.splits)
  next
    case (merge ks l l' f)
    have "sorted (map ms_key ((ks @ [l']) @ ms))"
      using Cons.prems(1) merge(1,3) by (auto simp: sorted_append)
    moreover have "list_all message_ok ((ks @ [l']) @ ms)" using Cons.prems(2) merge(1,4) by simp
    moreover have c: "messages_cost (ks @ [l']) + messages_cost ms + message_cost f \<le> bud_used b"
      using Cons.prems(3) merge(1,5) by simp
    ultimately show ?thesis
      using Cons.IH [of "ks @ [l']" "message_free f b"] message_free_accounts(2) [of f b]
        message_free_accounts(3) [OF c] merge(1,2,5) by (auto split: prod.splits)
  qed
qed simp

lemma merge_albums_lists:
  assumes "history_lists h" and "hi_staging h = []"
  shows "history_lists (merge_albums h) \<and> hi_staging (merge_albums h) = [] \<and> same_control h (merge_albums h) \<and>
     messages_cost (hi_items (merge_albums h)) \<le> messages_cost (hi_items h)"
  using assms albums_fold [of "[]" "hi_items h" "hi_budget h"]
  by (auto simp: history_lists_def lists_ok_def merge_albums_def same_control_def split: prod.splits)

section \<open>Operations keep the lists\<close>

definition history_counts :: "'v TbHistory \<Rightarrow> bool" where
  "history_counts h \<longleftrightarrow> hi_followups h \<le> 2 \<and> hi_rechecks h \<le> 2"

lemma inc_le_2: "(n :: u8) < 2 \<Longrightarrow> n + 1 \<le> 2"
  using unat_inc_less [of n 2] by (simp add: word_le_nat_alt word_less_nat_alt)

lemma set_top_from_frame [simp]:
  "hi_config (set_top_from h fl old) = hi_config h" "hi_items (set_top_from h fl old) = hi_items h"
  "hi_staging (set_top_from h fl old) = hi_staging h" "hi_budget (set_top_from h fl old) = hi_budget h"
  "hi_followups (set_top_from h fl old) = hi_followups h" "hi_op (set_top_from h fl old) = hi_op h"
  "hi_pending (set_top_from h fl old) = hi_pending h" "hi_truncated (set_top_from h fl old) = hi_truncated h"
  by (simp_all add: set_top_from_def Let_def)

lemma set_top_from_counts: "history_counts h \<Longrightarrow> history_counts (set_top_from h fl old)"
  by (simp add: history_counts_def) (simp add: set_top_from_def Let_def inc_le_2)

lemma same_control_counts: "same_control h h' \<Longrightarrow> history_counts h \<Longrightarrow> history_counts h'"
  by (simp add: same_control_def history_counts_def)

text \<open>The state of the running request and of the staged page, with the lists.\<close>

definition history_mid :: "'v TbHistory \<Rightarrow> bool" where
  "history_mid h \<longleftrightarrow> history_lists h \<and> history_counts h \<and> hi_op h = TB_HISTORY_NONE \<and> hi_pending h = 0"

lemma history_mid_control:
  "history_mid h \<Longrightarrow> same_control h h' \<Longrightarrow> history_lists h' \<Longrightarrow> history_mid h'"
  by (auto simp: history_mid_def same_control_def history_counts_def)

lemma history_mid_top: "history_mid h \<Longrightarrow> history_mid (set_top_from h fl old)"
  by (simp add: history_mid_def set_top_from_counts) (simp add: history_lists_def)

lemma history_mid_frame [simp]:
  "history_mid (h\<lparr>hi_truncated := b\<rparr>) = history_mid h" "history_mid (h\<lparr>hi_loaded := b\<rparr>) = history_mid h"
  "history_mid (h\<lparr>hi_refreshed_at := t\<rparr>) = history_mid h" "history_mid (h\<lparr>hi_refresh_error := e\<rparr>) = history_mid h"
  "history_mid (h\<lparr>hi_followup_due := t\<rparr>) = history_mid h" "history_mid (h\<lparr>hi_followup_chain := b\<rparr>) = history_mid h"
  "history_mid (h\<lparr>hi_periodic_due := t\<rparr>) = history_mid h"
  by (simp_all add: history_mid_def history_lists_def history_counts_def)

lemma merge_newest_mid:
  assumes "history_mid h"
  shows "history_mid (merge_newest h fl first) \<and> hi_staging (merge_newest h fl first) = []"
proof -
  have l: "history_lists h" using assms by (simp add: history_mid_def)
  consider (reset) "first \<or> hi_items h = []" | (empty) "\<not> (first \<or> hi_items h = [])" "hi_staging h = []"
    | (merge) "\<not> (first \<or> hi_items h = [])" "hi_staging h \<noteq> []" by blast
  then show ?thesis
  proof cases
    case reset
    note c = clear_items_lists(1) [OF l] clear_items_lists(2) [of h]
    note a = append_staging_lists [OF c(1)]
    have "history_mid (append_staging (clear_items h))"
      using history_mid_control [OF assms, of "append_staging (clear_items h)"] a same_control_trans [OF c(2)] by blast
    then show ?thesis using reset a by (simp add: merge_newest_def history_mid_top)
  next
    case empty
    then show ?thesis using assms by (simp add: merge_newest_def)
  next
    case merge
    have cut: "history_mid ((clear_staging h)\<lparr>hi_truncated := True\<rparr>)" "hi_staging (clear_staging h) = []"
      using history_mid_control [OF assms clear_staging_lists(2) clear_staging_lists(1) [OF l]]
      by (simp_all add: clear_staging_lists(3))
    have app: "history_mid (append_staging (remove_from h n))" "hi_staging (append_staging (remove_from h n)) = []" for n
      using append_staging_lists [OF remove_from_lists(1) [OF l, of n]]
        history_mid_control [OF assms same_control_trans [OF remove_from_lists(2)]] by blast+
    show ?thesis using merge cut app by (simp add: merge_newest_def Let_def)
  qed
qed

lemma finish_newest_mid:
  assumes "history_mid h"
  shows "history_mid (finish_newest h fl first) \<and> hi_staging (finish_newest h fl first) = []"
proof -
  note m = merge_newest_mid [OF assms, of fl first]
  have inc: "history_mid (g\<lparr>hi_followup_due := t, hi_followups := n\<rparr>)" if "history_mid g" "n \<le> 2" for g :: "'a TbHistory" and t n
    using that by (simp add: history_mid_def history_lists_def history_counts_def)
  show ?thesis
    using m by (simp add: finish_newest_def Let_def schedule_periodic_def inc inc_le_2)
qed

lemma history_arm_context: "\<exists>v. history_arm h = h\<lparr>hi_context := v\<rparr>"
proof -
  have "\<exists>v. (case e of None \<Rightarrow> h\<lparr>hi_context := a\<rparr> | Some x \<Rightarrow> h\<lparr>hi_context := a, hi_context := f x\<rparr>) = h\<lparr>hi_context := v\<rparr>"
    for e :: "u32 option" and f a
    by (cases e) auto
  then show ?thesis unfolding history_arm_def Let_def .
qed

lemma history_arm_frame [simp]:
  "hi_config (history_arm h) = hi_config h" "hi_items (history_arm h) = hi_items h"
  "hi_staging (history_arm h) = hi_staging h" "hi_budget (history_arm h) = hi_budget h"
  "hi_followups (history_arm h) = hi_followups h" "hi_rechecks (history_arm h) = hi_rechecks h"
  "hi_op (history_arm h) = hi_op h" "hi_pending (history_arm h) = hi_pending h"
  using history_arm_context [of h] by auto

lemma history_changed_frame [simp]:
  "hi_config (history_changed h) = hi_config h" "hi_items (history_changed h) = hi_items h"
  "hi_staging (history_changed h) = hi_staging h" "hi_budget (history_changed h) = hi_budget h"
  "hi_followups (history_changed h) = hi_followups h" "hi_rechecks (history_changed h) = hi_rechecks h"
  "hi_op (history_changed h) = hi_op h" "hi_pending (history_changed h) = hi_pending h"
  by (simp_all add: history_changed_def)

text \<open>The invariant between two events.\<close>

definition history_base :: "'v TbHistory \<Rightarrow> bool" where
  "history_base h \<longleftrightarrow> history_lists h \<and> history_counts h \<and> messages_cost (hi_items h) \<le> hc_text_budget (hi_config h)"

definition history_inv :: "'v TbHistory \<Rightarrow> bool" where
  "history_inv h \<longleftrightarrow> history_base h \<and> (hi_op h = TB_HISTORY_NONE \<longleftrightarrow> hi_pending h = 0) \<and>
     (hi_pending h = 0 \<longrightarrow> hi_staging h = [])"

lemma history_finish_inv:
  assumes "history_base h"
  shows "history_inv (history_finish h r)"
proof -
  define h1 where "h1 = sort_staging (h\<lparr>hi_pending := 0, hi_op := TB_HISTORY_NONE, hi_error := TB_ERROR_NONE,
      hi_resynced := False, hi_connection_not_ready := has_flag (rs_flags r) TB_FLAG_CONNECTION_NOT_READY\<rparr>)"
  have st: "hi_staging h1 = sort_key ms_key (hi_staging h)"
    by (simp add: h1_def sort_staging_def sort_messages_sort_key)
  have l0: "lists_ok (hi_config h) (hi_items h) (hi_staging h) (hi_budget h)" and c0: "history_counts h"
    using assms by (simp_all add: history_base_def history_lists_def)
  have "lists_ok (hi_config h) (hi_items h) (hi_staging h1) (hi_budget h)"
    by (rule lists_perm [OF l0]) (simp add: st)
  then have m1: "history_mid h1"
    using c0 unfolding history_mid_def history_lists_def history_counts_def by (simp add: h1_def sort_staging_def)
  have l1: "history_lists h1" using m1 by (simp add: history_mid_def)
  define h2 where "h2 = (if hi_op h = TB_HISTORY_OLDER then set_top_from (prepend_staging h1) (rs_flags r) True
      else finish_newest h1 (rs_flags r) (hi_op h = TB_HISTORY_FIRST))"
  have "history_mid h2 \<and> hi_staging h2 = []"
  proof (cases "hi_op h = TB_HISTORY_OLDER")
    case True
    have "sorted (map ms_key (hi_staging h1))" by (simp add: st)
    note p = prepend_lists [OF l1 this]
    have "history_mid (prepend_staging h1)" using history_mid_control [OF m1] p by blast
    then show ?thesis using True p by (simp add: h2_def history_mid_top)
  next
    case False
    then show ?thesis using finish_newest_mid [OF m1] by (simp add: h2_def)
  qed
  then have m2: "history_mid h2" "hi_staging h2 = []" "history_lists h2" by (simp_all add: history_mid_def)
  note e = evict_newest_lists [OF m2(3)]
  have cost: "messages_cost (hi_items (evict_newest h2)) \<le> hc_text_budget (hi_config (evict_newest h2))"
    using e by (auto simp: history_lists_def lists_ok_def)
  have m3: "history_mid (evict_newest h2)" using history_mid_control [OF m2(1)] e by blast
  have e4: "history_lists (evict_newest h2)" "hi_staging (evict_newest h2) = []" using e m2(2) by simp_all
  note a = merge_albums_lists [OF e4]
  have m4: "history_mid (merge_albums (evict_newest h2))" using history_mid_control [OF m3] a by blast
  have "messages_cost (hi_items (merge_albums (evict_newest h2))) \<le> hc_text_budget (hi_config (merge_albums (evict_newest h2)))"
    using a cost by (simp add: same_control_def)
  then show ?thesis
    using m4 a
    by (simp add: history_finish_def Let_def flip: h1_def h2_def)
      (simp add: history_inv_def history_base_def history_mid_def history_lists_def history_counts_def)
qed

section \<open>Staging and requests\<close>

lemma message_of_cost:
  assumes "length ts = 5 \<or> length ts = 8"
  shows "message_cost (message_of mid key rec ts) = sum_list (map text_cost ts)"
  using assms by (auto simp: message_cost_def message_of_def numeral_eq_Suc length_Suc_conv)

lemma spans_of_length:
  "length (message_spans_of n rec @ reply_spans_of rec) = 5 \<or> length (message_spans_of n rec @ reply_spans_of rec) = 8"
  by (simp add: message_spans_of_def reply_spans_of_def)

lemma history_stage_lists:
  assumes l: "history_lists h" and st: "history_stage h rec = (h', ok)"
  shows "history_lists h' \<and> same_control h h' \<and> hi_items h' = hi_items h"
proof -
  obtain i mid where c: "tb_copy_id [] 21 (mgr_id rec) False = (i, mid)" by fastforce
  obtain ts b hp where t: "copy_texts (message_spans_of (hc_text_limit (hi_config h)) rec @ reply_spans_of rec)
      (hi_budget h, hi_heap h) = (ts, b, hp)" by (metis prod_cases3)
  show ?thesis
  proof (cases "length (hi_staging h) < unat (hc_page_limit (hi_config h)) \<and> i \<and> tb_parse_id mid \<noteq> None")
    case False
    then have "h' = h" using st c by (cases i; cases "tb_parse_id mid") (auto simp: history_stage_def split: if_splits)
    then show ?thesis using l by simp
  next
    case True
    then obtain key where key: "tb_parse_id mid = Some key" by auto
    define item where "item = message_of mid key rec ts"
    note ta = copy_texts_accounts [OF t]
    have cost: "message_cost item = sum_list (map text_cost ts)"
      unfolding item_def using spans_of_length [of "hc_text_limit (hi_config h)" rec] ta by (intro message_of_cost) simp
    have mid: "length mid < 21" using copy_id_shape [of "[]" 21 "mgr_id rec" False mid] c True by simp
    have item: "message_ok item" using key mid by (simp add: message_ok_def item_def message_of_def)
    have lh: "lists_ok (hi_config h) (hi_items h) (hi_staging h) (hi_budget h)" using l by (simp add: history_lists_def)
    have new: "lists_ok (hi_config h) (hi_items h) (hi_staging h @ [item]) b"
      using lh ta cost item True by (simp add: lists_ok_def)
    have "messages_cost (hi_items h) + messages_cost (hi_staging h) + message_cost item \<le> bud_used b"
      using new by (simp add: lists_ok_def)
    from message_free_accounts(3) [OF this] have freed: "lists_ok (hi_config h) (hi_items h) (hi_staging h) (message_free item b)"
      using lh new message_free_accounts(2) [of item b] by (simp add: lists_ok_def)
    have "h' = h\<lparr>hi_heap := hp, hi_budget := message_free item b, hi_staging_invalid := True\<rparr> \<or>
        h' = h\<lparr>hi_heap := hp, hi_budget := b, hi_staging := hi_staging h @ [item]\<rparr>"
      using st True c t by (auto simp: history_stage_def key Let_def item_def split: if_splits)
    then show ?thesis using new freed by (auto simp: history_lists_def same_control_def)
  qed
qed

interpretation history_records: record_handler history_record
  "\<lambda>h. history_lists h \<and> same_control g h \<and> hi_items h = hi_items g" for g
proof unfold_locales
  fix h :: "'a TbHistory" and body t h' and r :: "bool option"
  assume h: "history_lists h \<and> same_control g h \<and> hi_items h = hi_items g" and e: "history_record t body h = (h', r)"
  show "history_lists h' \<and> same_control g h' \<and> hi_items h' = hi_items g"
  proof (cases "if t = TB_RECORD_MESSAGE then tb_codec_message body else None")
    case None
    then show ?thesis using h e by (simp add: history_record_def)
  next
    case (Some rec)
    obtain h1 ok where "history_stage h rec = (h1, ok)" by fastforce
    then show ?thesis using h e Some history_stage_lists [of h rec h1 ok] same_control_trans [of g h h1]
      by (simp add: history_record_def)
  qed
qed

lemma history_parse_lists:
  assumes "history_lists h" and "response_ok r" and "history_parse h r = (h', ok)"
  shows "history_lists h' \<and> same_control h h' \<and> hi_items h' = hi_items h"
  using history_records.loop_inv [of "tb_cursor_init (rs_payload r) (rs_length r)" h h False True] assms
  by (simp add: history_parse_def)

lemma history_base_control:
  "history_base h \<Longrightarrow> same_control h h' \<Longrightarrow> history_lists h' \<Longrightarrow> hi_items h' = hi_items h \<Longrightarrow> history_base h'"
  by (simp add: history_base_def same_control_def history_counts_def)

lemma history_base_lists: "history_base h \<Longrightarrow> history_lists h"
  by (simp add: history_base_def)

lemma clear_staging_base: "history_base h \<Longrightarrow> history_base (clear_staging h)"
  using history_base_control [of h "clear_staging h"] clear_staging_lists [of h] by (simp add: history_base_lists)

lemma clear_items_base:
  assumes "history_base h"
  shows "history_base (clear_items h)"
  using assms clear_items_lists [of h] by (simp add: history_base_def same_control_def history_counts_def)

lemma history_base_frame [simp]:
  "history_base (h\<lparr>hi_pending := q\<rparr>) = history_base h" "history_base (h\<lparr>hi_op := op\<rparr>) = history_base h"
  "history_base (h\<lparr>hi_retry_after := ra\<rparr>) = history_base h" "history_base (h\<lparr>hi_resynced := b\<rparr>) = history_base h"
  "history_base (h\<lparr>hi_followup_chain := b\<rparr>) = history_base h" "history_base (h\<lparr>hi_error := e\<rparr>) = history_base h"
  "history_base (h\<lparr>hi_top := t\<rparr>) = history_base h" "history_base (h\<lparr>hi_top_error := e\<rparr>) = history_base h"
  "history_base (h\<lparr>hi_refresh_error := e\<rparr>) = history_base h" "history_base (h\<lparr>hi_top_op := o1\<rparr>) = history_base h"
  "history_base (h\<lparr>hi_periodic_due := d\<rparr>) = history_base h" "history_base (h\<lparr>hi_followup_due := d\<rparr>) = history_base h"
  "history_base (h\<lparr>hi_recheck_due := d\<rparr>) = history_base h" "history_base (h\<lparr>hi_active := b\<rparr>) = history_base h"
  "history_base (h\<lparr>hi_context := v\<rparr>) = history_base h" "history_base (h\<lparr>hi_op_page := o1\<rparr>) = history_base h"
  "history_base (h\<lparr>hi_refreshing_silently := b\<rparr>) = history_base h" "history_base (h\<lparr>hi_chat_type := c\<rparr>) = history_base h"
  "history_base (h\<lparr>hi_saved := b\<rparr>) = history_base h" "history_base (h\<lparr>hi_account := a\<rparr>) = history_base h"
  "history_base (h\<lparr>hi_chat := a\<rparr>) = history_base h" "history_base (h\<lparr>hi_loaded := b\<rparr>) = history_base h"
  "history_base (h\<lparr>hi_truncated := b\<rparr>) = history_base h" "history_base (h\<lparr>hi_revision := w\<rparr>) = history_base h"
  by (simp_all add: history_base_def history_lists_def history_counts_def)

lemma history_base_counters:
  "history_base h \<Longrightarrow> history_base (h\<lparr>hi_followups := 0\<rparr>)" "history_base h \<Longrightarrow> history_base (h\<lparr>hi_rechecks := 0\<rparr>)"
  by (simp_all add: history_base_def history_lists_def history_counts_def)

lemma history_base_arm [simp]:
  "history_base (history_arm h) = history_base h" "history_base (history_changed h) = history_base h"
  by (simp_all add: history_base_def history_lists_def history_counts_def)

lemma history_submit_inv:
  assumes "history_base h" and "op \<noteq> TB_HISTORY_NONE"
  shows "history_inv (snd (history_submit (L, h) op page silent))"
proof -
  have b: "history_base (clear_staging (h\<lparr>hi_pending := 0\<rparr>))" by (rule clear_staging_base) (simp add: assms)
  have s: "hi_staging (clear_staging (h\<lparr>hi_pending := 0\<rparr>)) = []" by (rule clear_staging_lists(3))
  show ?thesis
    using b s assms(2) by (auto simp: history_submit_def Let_def history_inv_def split: prod.splits)
qed

lemma history_submit_layer [tb_inv]:
  "requests_inv L \<Longrightarrow> requests_inv (fst (history_submit (L, h) op page silent))"
  by (auto simp: history_submit_def Let_def tb_inv dest: submit_pair_inv [rotated] split: prod.splits if_splits)

lemma history_idle_inv: "history_base h \<Longrightarrow> hi_op h = TB_HISTORY_NONE \<Longrightarrow> hi_pending h = 0 \<Longrightarrow> hi_staging h = [] \<Longrightarrow> history_inv h"
  by (simp add: history_inv_def)

lemma schedule_periodic_frame [simp]:
  "history_base (schedule_periodic h) = history_base h" "hi_op (schedule_periodic h) = hi_op h"
  "hi_pending (schedule_periodic h) = hi_pending h" "hi_staging (schedule_periodic h) = hi_staging h"
  by (simp_all add: schedule_periodic_def)

text \<open>A history that waits for nothing.\<close>

definition history_quiet :: "'v TbHistory \<Rightarrow> bool" where
  "history_quiet h \<longleftrightarrow> history_base h \<and> hi_op h = TB_HISTORY_NONE \<and> hi_pending h = 0 \<and> hi_staging h = []"

lemma history_quiet_frame [simp]:
  "history_quiet (h\<lparr>hi_error := e\<rparr>) = history_quiet h" "history_quiet (h\<lparr>hi_top := t\<rparr>) = history_quiet h"
  "history_quiet (h\<lparr>hi_top_error := e\<rparr>) = history_quiet h" "history_quiet (h\<lparr>hi_refresh_error := e\<rparr>) = history_quiet h"
  "history_quiet (h\<lparr>hi_top_op := o1\<rparr>) = history_quiet h"
  by (simp_all add: history_quiet_def)

lemma history_quiet_if: "history_quiet a \<Longrightarrow> history_quiet b \<Longrightarrow> history_quiet (if c then a else b)"
  by simp

lemma history_quiet_inv: "history_quiet h \<Longrightarrow> history_inv (history_changed (history_arm (schedule_periodic h)))"
  by (simp add: history_quiet_def history_inv_def)

lemma history_fail_inv:
  assumes "history_base h"
  shows "history_inv (snd (history_fail (L, h) e ra))"
proof -
  define h1 where "h1 = (clear_staging (h\<lparr>hi_pending := 0, hi_op := TB_HISTORY_NONE\<rparr>))\<lparr>hi_retry_after := ra\<rparr>"
  have b: "history_base h1" unfolding h1_def using assms by (simp add: clear_staging_base)
  have c: "hi_op h1 = TB_HISTORY_NONE" "hi_pending h1 = 0" "hi_staging h1 = []"
    by (simp_all add: h1_def clear_staging_def)
  have sub: "history_inv (snd (history_submit (L, h1\<lparr>hi_resynced := x, hi_followups := 0, hi_followup_chain := y, hi_rechecks := 0\<rparr>)
      TB_HISTORY_FIRST page s))" for x y page s
    by (rule history_submit_inv)
      (use b in \<open>simp_all add: history_base_counters history_base_def history_lists_def history_counts_def\<close>)
  have q1: "history_quiet h1" using b c by (simp add: history_quiet_def)
  show ?thesis
  proof (cases "e = TB_RESULT_CURSOR_LOST \<and> \<not> hi_resynced h1")
    case True
    then show ?thesis unfolding history_fail_def prod.case Let_def h1_def [symmetric] using sub by simp
  next
    case False
    show ?thesis
      unfolding history_fail_def prod.case Let_def h1_def [symmetric] if_not_P [OF False] snd_conv
      by (intro history_quiet_inv history_quiet_if) (simp_all only: history_quiet_frame history_quiet_if q1)
  qed
qed

lemma history_fail_layer [tb_inv]: "requests_inv L \<Longrightarrow> requests_inv (fst (history_fail (L, h) e ra))"
  by (simp add: history_fail_def Let_def tb_inv)

lemma history_completed_layer [tb_inv]:
  "requests_inv L \<Longrightarrow> requests_inv (fst (history_completed q r (L, h)))"
  by (auto simp: history_completed_def Let_def tb_inv split: prod.splits bool.splits)

lemma history_completed_inv:
  assumes inv: "history_inv h" and q: "q \<noteq> 0" and r: "response_ok r"
  shows "history_inv (snd (history_completed q r (L, h)))"
proof (cases "q \<noteq> hi_pending h \<or> rs_outcome r = TB_OUTCOME_CANCELLED")
  case True
  then show ?thesis using inv by (simp add: history_completed_def)
next
  case False
  have b: "history_base h" using inv by (simp add: history_inv_def)
  obtain h1 ok where p: "history_parse h r = (h1, ok)" by fastforce
  note pl = history_parse_lists [OF history_base_lists [OF b] r p]
  have b1: "history_base h1" using history_base_control [OF b] pl by blast
  have more: "history_inv h1"
    using b1 pl inv q False by (auto simp: history_inv_def same_control_def)
  show ?thesis
    using False more
    by (cases ok) (simp_all add: history_completed_def Let_def p history_fail_inv history_finish_inv b b1 clear_staging_base)
qed

interpretation history: request_client hi_pending history_completed history_inv
  by unfold_locales (simp_all add: history_completed_inv tb_inv, auto simp: history_completed_def)

section \<open>Reachable histories\<close>

definition history_pair_inv :: "'x TbRequestLayer \<times> 'v TbHistory \<Rightarrow> bool" where
  "history_pair_inv p \<longleftrightarrow> requests_inv (fst p) \<and> history_inv (snd p)"

lemma history_pair_submit:
  "requests_inv L \<Longrightarrow> history_base h \<Longrightarrow> op \<noteq> TB_HISTORY_NONE \<Longrightarrow> history_pair_inv (history_submit (L, h) op page silent)"
  by (simp add: history_pair_inv_def tb_inv history_submit_inv)

lemma history_inv_base: "history_inv h \<Longrightarrow> history_base h"
  by (simp add: history_inv_def)

lemma history_close_pair:
  assumes "requests_inv L" and "history_base h"
  shows "history_pair_inv (tb_history_close (L, h))"
proof -
  have "history_base (clear_staging (h\<lparr>hi_pending := 0\<rparr>))" by (rule clear_staging_base) (simp add: assms)
  then show ?thesis
    using assms(1) by (simp add: tb_history_close_def history_pair_inv_def tb_inv history_inv_def clear_staging_lists(3))
      (simp add: clear_staging_def)
qed

lemma history_open_pair:
  assumes "requests_inv L" and "history_base h"
  shows "history_pair_inv (tb_history_open (L, h) a c t s)"
proof -
  obtain L1 h1 where cl: "tb_history_close (L, h) = (L1, h1)" by fastforce
  have "requests_inv L1" "history_base h1"
    using history_close_pair [OF assms] by (auto simp: cl history_pair_inv_def history_inv_base)
  then show ?thesis
    unfolding tb_history_open_def cl prod.case Let_def snd_conv
    by (auto intro!: history_pair_submit clear_items_base)
      (simp_all add: history_base_def history_lists_def history_counts_def clear_items_base)
qed

lemma history_load_pair:
  assumes l: "requests_inv L" and i: "history_inv h"
  shows "history_pair_inv (tb_history_load_older (L, h))" and "history_pair_inv (tb_history_refresh (L, h))"
    and "history_pair_inv (tb_history_retry (L, h))"
proof -
  have b: "history_base h" using i by (rule history_inv_base)
  have same: "history_pair_inv (L, h)" using l i by (simp add: history_pair_inv_def)
  have f: "history_base (h\<lparr>hi_followups := 0, hi_followup_chain := c, hi_resynced := d\<rparr>)"
    "history_base (h\<lparr>hi_followups := 0, hi_followup_chain := c\<rparr>)" for c d
    using b by (simp_all add: history_base_counters)
  show older: "history_pair_inv (tb_history_load_older (L, h))"
    using b f same by (auto simp: tb_history_load_older_def Let_def intro!: history_pair_submit l)
      (simp_all add: history_base_def history_lists_def history_counts_def)
  show refresh: "history_pair_inv (tb_history_refresh (L, h))"
    using f same by (auto simp: tb_history_refresh_def Let_def intro!: history_pair_submit l)
  show "history_pair_inv (tb_history_retry (L, h))"
    using b f same older refresh
    by (auto simp: tb_history_retry_def intro!: history_pair_submit l)
      (simp_all add: history_base_def history_lists_def history_counts_def)
qed

lemma history_timer_pair:
  assumes l: "requests_inv L" and i: "history_inv h"
  shows "history_pair_inv (tb_history_set_active (L, h) active)" and "history_pair_inv (tb_history_timer (L, h))"
proof -
  have b: "history_base h" using i by (rule history_inv_base)
  have arm: "history_pair_inv (L, history_arm g)" if "history_inv g" for g :: "'b TbHistory"
    using l that by (simp add: history_pair_inv_def history_inv_def)
  have upd: "history_inv (h\<lparr>hi_active := x\<rparr>)" "history_inv (h\<lparr>hi_active := x, hi_periodic_due := d, hi_followup_due := e\<rparr>)"
    "history_inv (schedule_periodic (h\<lparr>hi_active := x\<rparr>))"
    "history_inv (h\<lparr>hi_followup_due := d, hi_periodic_due := e, hi_recheck_due := f\<rparr>)" for x d e f
    using i by (simp_all add: history_inv_def)
  show "history_pair_inv (tb_history_set_active (L, h) active)"
    using arm [OF upd(2)] arm [OF upd(3)] history_load_pair(2) [OF l upd(1)] l i
    by (simp add: tb_history_set_active_def Let_def history_pair_inv_def)
  have sub: "history_pair_inv (history_submit (L, h\<lparr>hi_recheck_due := d\<rparr>) TB_HISTORY_OLDER page s)"
    "history_pair_inv (history_submit (L, h\<lparr>hi_followup_due := d, hi_periodic_due := e\<rparr>) TB_HISTORY_REFRESH page s)"
    "history_pair_inv (history_submit (L, h\<lparr>hi_followup_due := d, hi_periodic_due := e, hi_followups := 0, hi_followup_chain := x\<rparr>)
       TB_HISTORY_REFRESH page s)" for d e page s x
    by (rule history_pair_submit [OF l]; simp add: b history_base_counters)+
  have off: "history_inv (h\<lparr>hi_followup_due := d, hi_periodic_due := e\<rparr>)"
    "history_inv (h\<lparr>hi_followup_due := d, hi_periodic_due := e, hi_followups := 0, hi_followup_chain := x\<rparr>)" for d e x
    using i by (simp_all add: history_inv_def history_base_counters)
  show "history_pair_inv (tb_history_timer (L, h))"
    using arm [OF i] arm [OF upd(4)] arm [OF off(1)] arm [OF off(2)] sub
    by (simp add: tb_history_timer_def Let_def)
qed

lemma history_inv_context [simp]: "history_inv (h\<lparr>hi_context := v\<rparr>) = history_inv h"
  by (simp add: history_inv_def)

lemma history_inv_loaded [simp]: "history_inv (h\<lparr>hi_loaded := b\<rparr>) = history_inv h"
  by (simp add: history_inv_def)

text \<open>
  The operations and what arrives for them; \<^verbatim>\<open>main.c\<close> itself marks a lost chat as not loaded. The last rule is
  the rest of the program and the platform: the layer and the context of the ports, with its clock, may be others.
\<close>

inductive history_step ::
  "'x TbRequestLayer \<times> 'v TbHistory \<Rightarrow> 'x TbRequestLayer \<times> 'v TbHistory \<Rightarrow> bool" where
  hs_open: "history_step p (tb_history_open p account chat chat_type saved)"
| hs_load_older: "history_step p (tb_history_load_older p)"
| hs_refresh: "history_step p (tb_history_refresh p)"
| hs_retry: "history_step p (tb_history_retry p)"
| hs_set_active: "history_step p (tb_history_set_active p active)"
| hs_timer: "history_step p (tb_history_timer p)"
| hs_close: "history_step p (tb_history_close p)"
| hs_completed: "q \<noteq> 0 \<Longrightarrow> response_ok r \<Longrightarrow> history_step p (history_completed q r p)"
| hs_loaded: "history_step (L, h) (L, h\<lparr>hi_loaded := b\<rparr>)"
| hs_layer: "requests_inv L' \<Longrightarrow> history_step (L, h) (L', h\<lparr>hi_context := v\<rparr>)"

lemma history_step_inv:
  assumes "history_step p p'" and "history_pair_inv p"
  shows "history_pair_inv p'"
proof -
  have l: "requests_inv (fst p)" and i: "history_inv (snd p)" using assms(2) by (simp_all add: history_pair_inv_def)
  have "history_pair_inv (history_completed q r p)" if "q \<noteq> 0" "response_ok r" for q r
    using history_completed_inv [OF i that, of "fst p"] history_completed_layer [OF l, of q r "snd p"]
    by (simp add: history_pair_inv_def)
  note pairs = this history_open_pair [OF l history_inv_base [OF i]] history_load_pair [OF l i]
    history_timer_pair [OF l i] history_close_pair [OF l history_inv_base [OF i]]
  from assms(1) show ?thesis
    by (cases rule: history_step.cases) (use pairs i l in \<open>auto simp: history_pair_inv_def\<close>)
qed

lemma history_steps_inv: "history_step\<^sup>*\<^sup>* p p' \<Longrightarrow> history_pair_inv p \<Longrightarrow> history_pair_inv p'"
  by (induction rule: rtranclp_induct) (auto dest: history_step_inv)

lemma history_init_inv: "tb_history_init ports v config hp n = (ok, h) \<Longrightarrow> history_inv h"
  by (auto simp: tb_history_init_def history_inv_def history_base_def history_lists_def history_counts_def
      lists_ok_def split: prod.splits)

section \<open>Merging a page\<close>

lemma kept_down_spec:
  "n \<le> length items \<Longrightarrow> kept_down items k n \<le> n \<and>
     (\<forall>i. kept_down items k n \<le> i \<and> i < n \<longrightarrow> k \<le> ms_key (items ! i)) \<and>
     (0 < kept_down items k n \<longrightarrow> ms_key (items ! (kept_down items k n - 1)) < k)"
  by (induction n) (auto simp: not_le less_Suc_eq)

lemma kept_before_filter:
  assumes "sorted (map ms_key (hi_items h))"
  shows "take (kept_before h k) (hi_items h) = filter (\<lambda>m. ms_key m < k) (hi_items h)"
proof -
  let ?xs = "hi_items h" and ?n = "kept_before h k"
  note s = kept_down_spec [of "length ?xs" ?xs k, folded kept_before_def]
  have "?n \<le> length ?xs" using s by simp
  have le: "ms_key (?xs ! i) \<le> ms_key (?xs ! j)" if "i \<le> j" "j < length ?xs" for i j
    using assms that sorted_nth_mono [of "map ms_key ?xs" i j] by simp
  have "ms_key (?xs ! i) < k" if "i < ?n" for i
    using s le [of i "?n - 1"] that \<open>?n \<le> length ?xs\<close> by fastforce
  then have "filter (\<lambda>m. ms_key m < k) (take ?n ?xs) = take ?n ?xs"
    by (auto simp: filter_id_conv in_set_conv_nth)
  moreover have "filter (\<lambda>m. ms_key m < k) (drop ?n ?xs) = []"
    using s by (auto simp: filter_empty_conv in_set_conv_nth not_less)
  ultimately show ?thesis by (metis append_Nil2 append_take_drop_id filter_append)
qed

lemma append_fold_all:
  assumes "sorted_wrt (<) (map ms_key (hi_items h @ st))"
    and "length (hi_items h) + length st \<le> unat (hc_capacity (hi_config h))"
  shows "hi_items (fold append_one st h) = hi_items h @ st"
  using assms
proof (induction st arbitrary: h)
  case (Cons m st)
  have "ms_key (last (hi_items h)) < ms_key m" if "hi_items h \<noteq> []"
    using Cons.prems(1) that by (simp add: sorted_wrt_append)
  then have "append_one m h = h\<lparr>hi_items := hi_items h @ [m]\<rparr>"
    using Cons.prems(2) by (auto simp: append_one_def)
  then show ?case using Cons.IH [of "append_one m h"] Cons.prems by simp
qed simp

section \<open>Properties\<close>


definition sample_history_config :: TbHistoryConfig where
  "sample_history_config = \<lparr>hc_capacity = 3, hc_page_limit = 2, hc_text_limit = 80, hc_text_budget = 200,
     hc_timeout = 8000, hc_refresh_interval = 60000, hc_followup_delays = (1500, 4000)\<rparr>"

definition sample_history :: "nat TbHistory" where
  "sample_history = snd (tb_history_init sample_view_ports 0 sample_history_config sample_heap 48)"


text \<open>
  C35. Merging the newest page of a refresh that continues the list replaces everything from the
  oldest message of the page on by the page, so that messages deleted in between disappear and
  edited ones are the new ones; an older page contributes exactly its messages from before the
  list, in front of it, and the newest messages give way when the capacity is reached.
\<close>

theorem history_merges_pages:
  assumes "history_lists h" and "sorted_wrt (<) (map ms_key (hi_staging h))" and "hi_staging h \<noteq> []"
    and "hi_items h \<noteq> []" and "sorted_wrt (<) (map ms_key (hi_items h))"
    and "bud_used (hi_budget h) \<le> bud_limit (hi_budget h)"
  defines "older \<equiv> filter (\<lambda>m. ms_key m < ms_key (hd (hi_staging h))) (hi_items h)"
  shows "(if (ms_key (hd (hi_staging h)) \<le> ms_key (last (hi_items h)) \<or>
             length (hi_staging h) < unat (hc_page_limit (hi_config h))) \<and>
            length older + length (hi_staging h) \<le> unat (hc_capacity (hi_config h))
          then hi_items (merge_newest h flags False) = older @ hi_staging h else True) \<and>
     (let before = take (unat (hc_capacity (hi_config h)))
            (filter (\<lambda>m. ms_key m < ms_key (hd (hi_items h))) (hi_staging h))
      in hi_items (prepend_staging h) =
           before @ take (unat (hc_capacity (hi_config h)) - length before) (hi_items h))"
proof (intro conjI)
  have sorted: "sorted (map ms_key (hi_staging h))" "sorted (map ms_key (hi_items h))"
    using assms(2,5) by (auto intro: sorted_wrt_mono_rel [of _ "(<)" "(\<le>)"])
  show "let before = take (unat (hc_capacity (hi_config h)))
          (filter (\<lambda>m. ms_key m < ms_key (hd (hi_items h))) (hi_staging h))
      in hi_items (prepend_staging h) =
           before @ take (unat (hc_capacity (hi_config h)) - length before) (hi_items h)"
    using prepend_lists [OF assms(1) sorted(1)] assms(4) by (simp add: Let_def)
  let ?small = "ms_key (hd (hi_staging h))"
  define keep where "keep = (if ?small \<le> ms_key (last (hi_items h)) then kept_before h ?small else length (hi_items h))"
  have all: "ms_key m \<le> ms_key (last (hi_items h))" if "m \<in> set (hi_items h)" for m
  proof -
    have "sorted (map ms_key (butlast (hi_items h) @ [last (hi_items h)]))" using sorted(2) assms(4) by simp
    then have "\<forall>x \<in> set (butlast (hi_items h) @ [last (hi_items h)]). ms_key x \<le> ms_key (last (hi_items h))"
      by (auto simp: sorted_append)
    then show ?thesis using that assms(4) by simp
  qed
  have keep: "take keep (hi_items h) = older"
    using kept_before_filter [OF sorted(2), of ?small] all
    by (fastforce simp: keep_def older_def intro: filter_True [symmetric])
  then have len: "length older = keep"
    using kept_down_spec [of "length (hi_items h)" "hi_items h" ?small]
    by (metis keep_def kept_before_def length_take min.absorb2 order_refl)
  show "if (?small \<le> ms_key (last (hi_items h)) \<or> length (hi_staging h) < unat (hc_page_limit (hi_config h))) \<and>
          length older + length (hi_staging h) \<le> unat (hc_capacity (hi_config h))
        then hi_items (merge_newest h flags False) = older @ hi_staging h else True"
  proof (clarsimp)
    assume c: "?small \<le> ms_key (last (hi_items h)) \<or> length (hi_staging h) < unat (hc_page_limit (hi_config h))"
      and f: "length older + length (hi_staging h) \<le> unat (hc_capacity (hi_config h))"
    have "unat (of_nat (keep + length (hi_staging h)) :: u16) = keep + length (hi_staging h)"
      using f len unat_u16_less [of "hc_capacity (hi_config h)"] by (intro unat_of_nat_u16) linarith
    then have lim: "\<not> over_limits h (of_nat (keep + length (hi_staging h)))"
      using f len assms(6) by (simp add: over_limits_def word_less_nat_alt)
    have "sorted_wrt (<) (map ms_key (older @ hi_staging h))"
    proof -
      have "\<forall>m \<in> set (hi_staging h). ?small \<le> ms_key m" using sorted(1) assms(3) by (cases "hi_staging h") auto
      then show ?thesis
        using assms(2,5) by (fastforce simp: older_def sorted_wrt_append sorted_wrt_map sorted_wrt_filter)
    qed
    then have "hi_items (append_staging (remove_from h keep)) = older @ hi_staging h"
      using append_fold_all [of "remove_from h keep" "hi_staging h"] f keep
      by (simp add: append_staging_def remove_from_def)
    moreover have "merge_newest h flags False = append_staging (remove_from h keep)"
      unfolding merge_newest_def Let_def keep_def [symmetric] using c lim assms(3,4) by simp
    ultimately show "hi_items (merge_newest h flags False) = older @ hi_staging h" by simp
  qed
qed

definition sample_message :: "u8 \<Rightarrow> int \<Rightarrow> TbMessage" where
  "sample_message digit key = \<lparr>ms_id = [digit], ms_key = key, ms_date = 0, ms_flags = 0, ms_kind = 0, ms_action = 0,
     ms_duration = 0, ms_media = 0, ms_media_count = 1, ms_album = 0, ms_sender = None, ms_signature = None,
     ms_forward = None, ms_extra = None, ms_text = None, ms_reply = None, ms_reply_id = None, ms_reply_sender = None,
     ms_height = - 1\<rparr>"

theorem history_merges_pages_witness:
  "hi_items (merge_newest (sample_history\<lparr>hi_items := [sample_message 49 1, sample_message 52 4],
       hi_staging := [sample_message 51 3, sample_message 53 5]\<rparr>) 0 False) =
     [sample_message 49 1, sample_message 51 3, sample_message 53 5]"
proof -
  let ?h = "sample_history\<lparr>hi_items := [sample_message 49 1, sample_message 52 4],
       hi_staging := [sample_message 51 3, sample_message 53 5]\<rparr>"
  have "history_lists ?h"
    by (simp add: history_lists_def lists_ok_def message_ok_def message_cost_def sample_message_def sample_history_def
        tb_history_init_def sample_history_config_def sample_heap_def malloc_def tb_parse_id_def Let_def)
  note m = history_merges_pages [OF this]
  show ?thesis
    using m by (simp add: sample_message_def sample_history_def tb_history_init_def sample_history_config_def
        sample_heap_def malloc_def)
qed

end
