(* ===== verification/Compose.thy ===== *)
theory Compose
  imports Send_Tracker
begin

text \<open>
  Composing a message (\<^verbatim>\<open>compose.h\<close>, \<^verbatim>\<open>compose.c\<close>): the templates of an account, the draft that a
  template or a dictation gives, and its text as the phone sends it back. The preview block is the
  list of its entries and the draft text the list of the bytes before the terminator.
\<close>

section \<open>Data\<close>

abbreviation (input) TB_COMPOSE_NAME_SIZE :: nat where "TB_COMPOSE_NAME_SIZE \<equiv> 33"
abbreviation (input) TB_COMPOSE_QUOTE_SIZE :: nat where "TB_COMPOSE_QUOTE_SIZE \<equiv> 65"
abbreviation (input) TB_COMPOSE_DRAFT_LIMIT :: nat where "TB_COMPOSE_DRAFT_LIMIT \<equiv> 1024"

datatype TbTemplatesState = TB_TEMPLATES_NONE | TB_TEMPLATES_LOADING | TB_TEMPLATES_READY | TB_TEMPLATES_FAILED

datatype TbDraftState = TB_DRAFT_NONE | TB_DRAFT_LOADING | TB_DRAFT_READY | TB_DRAFT_FAILED

record TbComposeTarget =
  ct_send :: TbSendTarget
  ct_account_name :: cstring
  ct_chat_title :: cstring
  ct_reply_sender :: cstring
  ct_reply_text :: cstring

record TbComposeConfig =
  ccf_capacity :: u8
  ccf_preview_limit :: u8
  ccf_text_limit :: u16
  ccf_timeout :: u32

record 'v TbCompose =
  cm_ports :: "'v TbViewPorts"
  cm_context :: 'v
  cm_heap :: heap
  cm_config :: TbComposeConfig
  cm_target :: TbComposeTarget
  cm_open :: bool
  cm_templates :: TbTemplatesState
  cm_templates_stale :: bool
  cm_templates_error :: int
  cm_templates_rev :: u32
  cm_template_count :: u8
  cm_template_total :: u8
  cm_previews :: "cstring list option"
  cm_templates_pending :: u32
  cm_draft :: TbDraftState
  cm_draft_error :: int
  cm_draft_id :: u32
  cm_draft_bytes :: u16
  cm_draft_units :: u16
  cm_too_long :: bool
  cm_text :: "bytes option"
  cm_text_length :: u16
  cm_dictated :: "bytes option"
  cm_dictated_length :: u16
  cm_draft_pending :: u32
  cm_revision :: u32

section \<open>Operations\<close>

definition compose_target_zero :: TbComposeTarget where
  "compose_target_zero = \<lparr>ct_send = \<lparr>tg_account = [], tg_chat = [], tg_reply = []\<rparr>, ct_account_name = [],
     ct_chat_title = [], ct_reply_sender = [], ct_reply_text = []\<rparr>"

definition compose_changed :: "'v TbCompose \<Rightarrow> 'v TbCompose" where
  "compose_changed c =
     c\<lparr>cm_revision := cm_revision c + 1, cm_context := vp_changed (cm_ports c) (cm_context c)\<rparr>"

definition cancel_templates ::
  "'x TbRequestLayer \<times> 'v TbCompose \<Rightarrow> 'x TbRequestLayer \<times> 'v TbCompose" where
  "cancel_templates p =
     (case p of (L, c) \<Rightarrow>
        if cm_templates_pending c = 0 then (L, c)
        else (cancel_request L (cm_templates_pending c), c\<lparr>cm_templates_pending := 0\<rparr>))"

definition cancel_draft ::
  "'x TbRequestLayer \<times> 'v TbCompose \<Rightarrow> 'x TbRequestLayer \<times> 'v TbCompose" where
  "cancel_draft p =
     (case p of (L, c) \<Rightarrow>
        if cm_draft_pending c = 0 then (L, c)
        else (cancel_request L (cm_draft_pending c), c\<lparr>cm_draft_pending := 0\<rparr>))"

definition free_previews :: "'v TbCompose \<Rightarrow> 'v TbCompose" where
  "free_previews c = c\<lparr>cm_previews := None, cm_template_count := 0, cm_template_total := 0\<rparr>"

definition free_draft :: "'v TbCompose \<Rightarrow> 'v TbCompose" where
  "free_draft c = c\<lparr>cm_text := None, cm_text_length := 0, cm_dictated := None, cm_dictated_length := 0\<rparr>"

definition base_args :: "'v TbCompose \<Rightarrow> u8 \<Rightarrow> TbRequestArgs" where
  "base_args c kind =
     (request_args kind)\<lparr>ra_account := strncpy TB_ACCOUNT_ID_SIZE (tg_account (ct_send (cm_target c))),
       ra_chat := strncpy TB_TELEGRAM_ID_SIZE (tg_chat (ct_send (cm_target c))),
       ra_message := strncpy TB_TELEGRAM_ID_SIZE (tg_reply (ct_send (cm_target c)))\<rparr>"

text \<open>The loop of \<open>tb_utf8_units\<close>, with its \<open>uint32_t\<close> counter.\<close>

fun units_loop :: "bytes \<Rightarrow> u32 \<Rightarrow> u32" where
  "units_loop [] units = units"
| "units_loop (b # bs) units =
     units_loop bs (if b AND 0xC0 = 0x80 then units else units + (if b \<ge> 0xF0 then 2 else 1))"

definition tb_utf8_units :: "bytes \<Rightarrow> nat \<Rightarrow> u16" where
  "tb_utf8_units text len =
     (let units = units_loop (take len text) 0 in if units > 65535 then 65535 else ucast units)"

definition templates_record :: "u8 \<Rightarrow> TbCursor \<Rightarrow> 'v TbCompose \<Rightarrow> 'v TbCompose \<times> unit option" where
  "templates_record t body c =
     (if t = TB_RECORD_TEMPLATES then
        (case tb_codec_templates body of
           None \<Rightarrow> (c, None)
         | Some header \<Rightarrow>
             (let c1 = (free_previews c)\<lparr>cm_templates_rev := tmr_revision header,
                    cm_templates_stale := has_flag (tmr_flags header) 1, cm_template_total := tmr_count header\<rparr>;
                  count = (if tmr_count header < ccf_capacity (cm_config c1) then tmr_count header
                           else ccf_capacity (cm_config c1))
              in if count = 0 then (c1, None)
                 else (case malloc (cm_heap c1) (unat count * unat (ccf_preview_limit (cm_config c1))) of
                         (ok, h) \<Rightarrow>
                           (c1\<lparr>cm_heap := h, cm_previews := (if ok then Some (replicate (unat count) []) else None)\<rparr>, None))))
      else if t = TB_RECORD_TEMPLATE then
        (case (cm_previews c, tb_codec_template body) of
           (Some previews, Some item) \<Rightarrow>
             (if ter_index item \<ge> ccf_capacity (cm_config c) \<or> ter_index item \<ge> cm_template_total c then (c, None)
              else
                (let i = unat (ter_index item)
                 in (c\<lparr>cm_previews := Some (previews[i := tb_copy_span (previews ! i)
                           (unat (ccf_preview_limit (cm_config c))) (ter_preview item)]),
                       cm_template_count := (if i + 1 > unat (cm_template_count c) then of_nat (i + 1)
                                             else cm_template_count c)\<rparr>, None)))
         | _ \<Rightarrow> (c, None))
      else (c, None))"

definition templates_done ::
  "u32 \<Rightarrow> TbResponse \<Rightarrow> 'x TbRequestLayer \<times> 'v TbCompose \<Rightarrow> 'x TbRequestLayer \<times> 'v TbCompose" where
  "templates_done q r p =
     (case p of (L, c) \<Rightarrow>
        if q \<noteq> cm_templates_pending c \<or> rs_outcome r = TB_OUTCOME_CANCELLED then (L, c)
        else if rs_outcome r \<noteq> TB_OUTCOME_RESPONSE \<or> rs_result r \<noteq> TB_RESULT_OK then
          ((if \<not> rs_final r then cancel_request L q else L),
           compose_changed (c\<lparr>cm_templates_pending := 0, cm_templates_error := tb_error_from_response r,
             cm_templates := (if cm_template_count c \<noteq> 0 then TB_TEMPLATES_READY else TB_TEMPLATES_FAILED),
             cm_templates_stale := (cm_template_count c > 0)\<rparr>))
        else
          (let c1 = fst (records_loop () () templates_record (tb_cursor_init (rs_payload r) (rs_length r)) c)
           in (L, if rs_final r
                  then compose_changed (c1\<lparr>cm_templates_pending := 0, cm_templates_error := TB_ERROR_NONE,
                         cm_templates := TB_TEMPLATES_READY\<rparr>)
                  else c1)))"

definition tb_compose_load_templates ::
  "'x TbRequestLayer \<times> 'v TbCompose \<Rightarrow> bool \<Rightarrow> 'x TbRequestLayer \<times> 'v TbCompose" where
  "tb_compose_load_templates p refresh =
     (if \<not> cm_open (snd p) then p
      else
        (case cancel_templates p of (L, c) \<Rightarrow>
           (let args = (base_args c TB_REQUEST_TEMPLATES)
                  \<lparr>ra_page_op := (if refresh then TB_PAGE_OP_REFRESH else TB_PAGE_OP_FIRST),
                   ra_text_limit := ucast (ccf_preview_limit (cm_config c)) - 1\<rparr>
            in case tb_requests_submit L (Some args) (ccf_timeout (cm_config c)) 2 False (Some CB_TEMPLATES) of
                 (L1, q) \<Rightarrow>
                   (let c1 = c\<lparr>cm_templates := TB_TEMPLATES_LOADING, cm_templates_pending := q\<rparr>;
                        c2 = (if q = 0
                              then c1\<lparr>cm_templates_error := tb_error_submit_failed L1,
                                cm_templates := (if cm_template_count c1 \<noteq> 0 then TB_TEMPLATES_READY else TB_TEMPLATES_FAILED)\<rparr>
                              else c1)
                    in (L1, compose_changed c2)))))"

text \<open>The size that the text of a draft may have: \<open>min(bytes, text_limit)\<close>.\<close>

definition draft_size :: "'v TbCompose \<Rightarrow> nat" where
  "draft_size c = (if cm_draft_bytes c < ccf_text_limit (cm_config c) then unat (cm_draft_bytes c)
                   else unat (ccf_text_limit (cm_config c)))"

definition draft_record :: "u8 \<Rightarrow> TbCursor \<Rightarrow> 'v TbCompose \<Rightarrow> 'v TbCompose \<times> unit option" where
  "draft_record t body c =
     (if t = TB_RECORD_DRAFT then
        (case tb_codec_draft body of
           None \<Rightarrow> (c, None)
         | Some rec \<Rightarrow>
             (let c1 = c\<lparr>cm_draft_id := drr_id rec, cm_draft_bytes := drr_bytes rec, cm_draft_units := drr_units rec,
                    cm_too_long := has_flag (drr_flags rec) TB_DRAFT_FLAG_TOO_LONG\<rparr>
              in case malloc (cm_heap c1) (draft_size c1 + 4) of
                   (ok, h) \<Rightarrow>
                     (c1\<lparr>cm_heap := h, cm_text := (if ok then Some [] else None), cm_text_length := 0\<rparr>, None)))
      else if t = TB_RECORD_TEXT then
        (case (cm_text c, tb_codec_text body) of
           (Some text, Some part) \<Rightarrow>
             (let room = draft_size c + 3 - unat (cm_text_length c);
                  fit = tb_utf8_fit (span_data part) (unat (span_length part)) room
              in (c\<lparr>cm_text := Some (take (unat (cm_text_length c)) text @ take fit (span_data part)),
                    cm_text_length := of_nat (unat (cm_text_length c) + fit)\<rparr>, None))
         | _ \<Rightarrow> (c, None))
      else (c, None))"

definition draft_done ::
  "u32 \<Rightarrow> TbResponse \<Rightarrow> 'x TbRequestLayer \<times> 'v TbCompose \<Rightarrow> 'x TbRequestLayer \<times> 'v TbCompose" where
  "draft_done q r p =
     (case p of (L, c) \<Rightarrow>
        if q \<noteq> cm_draft_pending c \<or> rs_outcome r = TB_OUTCOME_CANCELLED then (L, c)
        else if rs_outcome r \<noteq> TB_OUTCOME_RESPONSE \<or> rs_result r \<noteq> TB_RESULT_OK then
          (let L1 = (if \<not> rs_final r then cancel_request L q else L);
               c1 = c\<lparr>cm_draft_pending := 0, cm_draft_error := tb_error_from_response r, cm_draft := TB_DRAFT_FAILED,
                      cm_text := None, cm_text_length := 0\<rparr>;
               (L2, c2) = (if cm_draft_error c1 = TB_RESULT_CURSOR_LOST
                           then tb_compose_load_templates (L1, c1) True else (L1, c1))
           in (L2, compose_changed c2))
        else
          (let c1 = fst (records_loop () () draft_record (tb_cursor_init (rs_payload r) (rs_length r)) c)
           in (L, if rs_final r
                  then
                    (let c2 = c1\<lparr>cm_draft_pending := 0, cm_dictated := None, cm_dictated_length := 0\<rparr>
                     in compose_changed
                          (if cm_draft_id c2 = 0 \<or> cm_text c2 = None
                           then c2\<lparr>cm_draft := TB_DRAFT_FAILED, cm_draft_error := TB_ERROR_OUT_OF_MEMORY\<rparr>
                           else c2\<lparr>cm_draft := TB_DRAFT_READY, cm_draft_error := TB_ERROR_NONE\<rparr>))
                  else c1)))"

definition tb_compose_init :: "'v TbViewPorts \<Rightarrow> 'v \<Rightarrow> TbComposeConfig \<Rightarrow> heap \<Rightarrow> 'v TbCompose" where
  "tb_compose_init ports context config h =
     \<lparr>cm_ports = ports, cm_context = context, cm_heap = h, cm_config = config, cm_target = compose_target_zero,
      cm_open = False, cm_templates = TB_TEMPLATES_NONE, cm_templates_stale = False, cm_templates_error = 0,
      cm_templates_rev = 0, cm_template_count = 0, cm_template_total = 0, cm_previews = None,
      cm_templates_pending = 0, cm_draft = TB_DRAFT_NONE, cm_draft_error = 0, cm_draft_id = 0, cm_draft_bytes = 0,
      cm_draft_units = 0, cm_too_long = False, cm_text = None, cm_text_length = 0, cm_dictated = None,
      cm_dictated_length = 0, cm_draft_pending = 0, cm_revision = 0\<rparr>"

definition tb_compose_template :: "'v TbCompose \<Rightarrow> u8 \<Rightarrow> cstring" where
  "tb_compose_template c index =
     (case cm_previews c of
        None \<Rightarrow> []
      | Some previews \<Rightarrow> if index \<ge> cm_template_count c then [] else previews ! unat index)"

text \<open>The request that discards a draft has no callback.\<close>

definition discard_current ::
  "'x TbRequestLayer \<times> 'v TbCompose \<Rightarrow> 'x TbRequestLayer \<times> 'v TbCompose" where
  "discard_current p =
     (case p of (L, c) \<Rightarrow>
        if cm_draft_id c = 0 then (L, c)
        else
          (fst (tb_requests_submit L (Some ((base_args c TB_REQUEST_DRAFT_DISCARD)\<lparr>ra_draft_id := cm_draft_id c\<rparr>))
                  (ccf_timeout (cm_config c)) 1 False None),
           c\<lparr>cm_draft_id := 0\<rparr>))"

definition request_draft ::
  "'x TbRequestLayer \<times> 'v TbCompose \<Rightarrow> TbRequestArgs \<Rightarrow> bool \<times> 'x TbRequestLayer \<times> 'v TbCompose" where
  "request_draft p args =
     (case discard_current (cancel_draft p) of (L, c) \<Rightarrow>
        (let c1 = c\<lparr>cm_text := None, cm_text_length := 0, cm_too_long := False, cm_draft := TB_DRAFT_LOADING\<rparr>
         in case tb_requests_submit L (Some (args\<lparr>ra_text_limit := ccf_text_limit (cm_config c1)\<rparr>))
                  (ccf_timeout (cm_config c1)) 2 True (Some CB_DRAFT) of
              (L1, q) \<Rightarrow>
                (q \<noteq> 0, L1, compose_changed
                   (if q = 0
                    then c1\<lparr>cm_draft_pending := q, cm_draft := TB_DRAFT_FAILED, cm_draft_error := tb_error_submit_failed L1\<rparr>
                    else c1\<lparr>cm_draft_pending := q\<rparr>))))"

definition tb_compose_pick ::
  "'x TbRequestLayer \<times> 'v TbCompose \<Rightarrow> u8 \<Rightarrow> bool \<times> 'x TbRequestLayer \<times> 'v TbCompose" where
  "tb_compose_pick p index =
     (if \<not> cm_open (snd p) \<or> index \<ge> cm_template_count (snd p) then (False, p)
      else request_draft p ((base_args (snd p) TB_REQUEST_DRAFT)
             \<lparr>ra_template_index := index, ra_templates_rev := cm_templates_rev (snd p)\<rparr>))"

definition tb_compose_dictated ::
  "'x TbRequestLayer \<times> 'v TbCompose \<Rightarrow> bytes option \<Rightarrow> nat \<Rightarrow> bool \<times> 'x TbRequestLayer \<times> 'v TbCompose" where
  "tb_compose_dictated p dictation len =
     (if \<not> cm_open (snd p) \<or> dictation = None \<or> len = 0 then (False, p)
      else
        (case (the dictation, cancel_draft p) of (text, L, c) \<Rightarrow>
           (let c1 = c\<lparr>cm_dictated := None, cm_dictated_length := 0\<rparr>
            in if len > TB_COMPOSE_DRAFT_LIMIT then
                 (case discard_current (L, c1) of (L1, c2) \<Rightarrow>
                    (True, L1, compose_changed (c2\<lparr>cm_text := None, cm_text_length := 0,
                       cm_draft_bytes := (if len > 65535 then 65535 else of_nat len),
                       cm_draft_units := tb_utf8_units text len, cm_too_long := True,
                       cm_draft := TB_DRAFT_READY, cm_draft_error := TB_ERROR_NONE\<rparr>)))
               else
                 (case malloc (cm_heap c1) len of
                    (False, h) \<Rightarrow>
                      (False, L, compose_changed (c1\<lparr>cm_heap := h, cm_draft := TB_DRAFT_FAILED,
                         cm_draft_error := TB_ERROR_OUT_OF_MEMORY\<rparr>))
                  | (True, h) \<Rightarrow>
                      (let c2 = c1\<lparr>cm_heap := h, cm_dictated := Some (take len text), cm_dictated_length := of_nat len\<rparr>
                       in request_draft (L, c2) ((base_args c2 TB_REQUEST_DRAFT)
                            \<lparr>ra_payload := cm_dictated c2, ra_payload_length := cm_dictated_length c2\<rparr>))))))"

definition tb_compose_sendable :: "'v TbCompose \<Rightarrow> bool" where
  "tb_compose_sendable c \<longleftrightarrow>
     cm_open c \<and> cm_draft c = TB_DRAFT_READY \<and> cm_draft_id c \<noteq> 0 \<and> \<not> cm_too_long c"

definition tb_compose_drop_draft ::
  "'x TbRequestLayer \<times> 'v TbCompose \<Rightarrow> 'x TbRequestLayer \<times> 'v TbCompose" where
  "tb_compose_drop_draft p =
     (case discard_current (cancel_draft p) of (L, c) \<Rightarrow>
        (L, (free_draft c)\<lparr>cm_too_long := False, cm_draft := TB_DRAFT_NONE, cm_draft_error := TB_ERROR_NONE\<rparr>))"

definition tb_compose_close ::
  "'x TbRequestLayer \<times> 'v TbCompose \<Rightarrow> bool \<Rightarrow> 'x TbRequestLayer \<times> 'v TbCompose" where
  "tb_compose_close p keep_draft =
     (let p1 = cancel_templates p;
          (L, c) = (if keep_draft
                    then (case cancel_draft p1 of (L, c) \<Rightarrow>
                            (L, (free_draft c)\<lparr>cm_draft_id := 0, cm_draft := TB_DRAFT_NONE\<rparr>))
                    else tb_compose_drop_draft p1)
      in (L, (free_previews c)\<lparr>cm_templates := TB_TEMPLATES_NONE, cm_templates_stale := False, cm_open := False,
               cm_target := compose_target_zero\<rparr>))"

definition tb_compose_open ::
  "'x TbRequestLayer \<times> 'v TbCompose \<Rightarrow> TbComposeTarget option \<Rightarrow> bool \<times> 'x TbRequestLayer \<times> 'v TbCompose" where
  "tb_compose_open p target =
     (case target of
        None \<Rightarrow> (False, p)
      | Some tgt \<Rightarrow>
          if tg_account (ct_send tgt) = [] \<or> tg_chat (ct_send tgt) = [] then (False, p)
          else (case tb_compose_close p False of (L, c) \<Rightarrow>
                  (True, tb_compose_load_templates (L, c\<lparr>cm_target := tgt, cm_open := True\<rparr>) False)))"

section \<open>Invariant\<close>

text \<open>
  The blocks: previews for as many templates as the header announced, up to the capacity, each
  terminated within its slot; a draft text that leaves room for its terminator; a dictation that
  is small enough to be sent.
\<close>

definition compose_config_ok :: "TbComposeConfig \<Rightarrow> bool" where
  "compose_config_ok cfg \<longleftrightarrow> ccf_preview_limit cfg \<noteq> 0 \<and> unat (ccf_text_limit cfg) + 2 < 65536"

definition previews_ok :: "TbComposeConfig \<Rightarrow> u8 \<Rightarrow> u8 \<Rightarrow> cstring list option \<Rightarrow> bool" where
  "previews_ok cfg tot cnt previews \<longleftrightarrow>
     (case previews of
        None \<Rightarrow> cnt = 0
      | Some ps \<Rightarrow> length ps = min (unat tot) (unat (ccf_capacity cfg)) \<and> unat cnt \<le> length ps \<and>
          (\<forall>p \<in> set ps. length p < unat (ccf_preview_limit cfg)))"

definition text_fits :: "nat \<Rightarrow> u16 \<Rightarrow> bytes option \<Rightarrow> bool" where
  "text_fits room len text \<longleftrightarrow>
     (case text of None \<Rightarrow> len = 0 | Some t \<Rightarrow> unat len = length t \<and> length t \<le> room)"

definition compose_data_ok :: "'v TbCompose \<Rightarrow> bool" where
  "compose_data_ok c \<longleftrightarrow> compose_config_ok (cm_config c) \<and>
     previews_ok (cm_config c) (cm_template_total c) (cm_template_count c) (cm_previews c) \<and>
     text_fits (draft_size c + 2) (cm_text_length c) (cm_text c) \<and>
     text_fits TB_COMPOSE_DRAFT_LIMIT (cm_dictated_length c) (cm_dictated c)"

text \<open>The templates are loading exactly while their request is pending.\<close>

definition compose_core :: "'v TbCompose \<Rightarrow> bool" where
  "compose_core c \<longleftrightarrow> compose_data_ok c \<and> (cm_templates c = TB_TEMPLATES_LOADING \<longleftrightarrow> cm_templates_pending c \<noteq> 0)"

text \<open>So is the draft; a draft that is ready has its identifier and its text, or is too long.\<close>

definition draft_sync :: "'v TbCompose \<Rightarrow> bool" where
  "draft_sync c \<longleftrightarrow> (cm_draft c = TB_DRAFT_LOADING \<longleftrightarrow> cm_draft_pending c \<noteq> 0) \<and>
     (cm_draft c = TB_DRAFT_READY \<longrightarrow> cm_draft_id c \<noteq> 0 \<and> cm_text c \<noteq> None \<or> cm_draft_id c = 0 \<and> cm_too_long c)"

text \<open>A closed composition owns nothing.\<close>

definition compose_empty :: "'v TbCompose \<Rightarrow> bool" where
  "compose_empty c \<longleftrightarrow> cm_templates_pending c = 0 \<and> cm_draft_pending c = 0 \<and> cm_draft_id c = 0 \<and>
     cm_previews c = None \<and> cm_text c = None \<and> cm_dictated c = None"

definition compose_inv :: "'v TbCompose \<Rightarrow> bool" where
  "compose_inv c \<longleftrightarrow> compose_core c \<and> draft_sync c \<and> (cm_open c \<or> compose_empty c)"

lemma draft_size_min: "draft_size c = min (unat (cm_draft_bytes c)) (unat (ccf_text_limit (cm_config c)))"
  by (simp add: draft_size_def word_less_nat_alt)

lemma text_fits_None [simp]: "text_fits n len None \<longleftrightarrow> len = 0"
  by (simp add: text_fits_def)

lemma previews_ok_None [simp]: "previews_ok cfg tot cnt None \<longleftrightarrow> cnt = 0"
  by (simp add: previews_ok_def)

lemma compose_changed_frame [simp]:
  "compose_data_ok (compose_changed c) = compose_data_ok c" "compose_core (compose_changed c) = compose_core c"
  "draft_sync (compose_changed c) = draft_sync c" "compose_empty (compose_changed c) = compose_empty c"
  "cm_draft (compose_changed c) = cm_draft c" "cm_draft_pending (compose_changed c) = cm_draft_pending c"
  "cm_draft_id (compose_changed c) = cm_draft_id c" "cm_text (compose_changed c) = cm_text c"
  "cm_too_long (compose_changed c) = cm_too_long c" "cm_draft_units (compose_changed c) = cm_draft_units c"
  "cm_open (compose_changed c) = cm_open c" "compose_inv (compose_changed c) = compose_inv c"
  by (simp_all add: compose_changed_def compose_data_ok_def compose_core_def draft_sync_def compose_empty_def
      compose_inv_def draft_size_min)

subsection \<open>Templates\<close>

lemma templates_record_ok:
  assumes ok: "compose_data_ok c" and step: "templates_record t body c = (c', r)"
  shows "compose_data_ok c'"
proof -
  have cfg: "0 < unat (ccf_preview_limit (cm_config c))"
    using ok by (simp add: compose_data_ok_def compose_config_ok_def unat_gt_0)
  have ps: "previews_ok (cm_config c') (cm_template_total c') (cm_template_count c') (cm_previews c')"
  proof (cases "t = TB_RECORD_TEMPLATES")
    case True
    then show ?thesis using step ok cfg
      by (auto simp: templates_record_def free_previews_def Let_def previews_ok_def compose_data_ok_def
          word_less_nat_alt min_def split: option.splits prod.splits if_splits)
  next
    case False
    have nx: "unat (1 + j) = Suc (unat j)" if "unat j < unat (w :: u8)" for j w :: u8
      using that unat_of_nat_u8 [of "Suc (unat j)"] unat_u8_less [of w] by simp
    have grow: "previews_ok (cm_config c) (cm_template_total c) (cm_template_count c) (Some (xs[unat j := s']))"
      "previews_ok (cm_config c) (cm_template_total c) (1 + j) (Some (xs[unat j := s']))"
      if "previews_ok (cm_config c) (cm_template_total c) (cm_template_count c) (Some xs)"
        "unat j < unat (cm_template_total c)" "unat j < unat (ccf_capacity (cm_config c))"
        "length s' < unat (ccf_preview_limit (cm_config c))"
      for xs j s'
      using that nx [of j "cm_template_total c"]
      by (auto simp: previews_ok_def dest!: set_update_subset_insert [THEN subsetD])
    show ?thesis using step False ok grow copy_span_fits [OF cfg]
      by (auto simp: templates_record_def Let_def compose_data_ok_def not_le word_less_nat_alt
          split: option.splits if_splits)
  qed
  have "cm_config c' = cm_config c \<and> draft_size c' = draft_size c \<and> cm_text c' = cm_text c \<and>
      cm_text_length c' = cm_text_length c \<and> cm_dictated c' = cm_dictated c \<and> cm_dictated_length c' = cm_dictated_length c"
    using step by (auto simp: templates_record_def free_previews_def Let_def draft_size_min split: option.splits prod.splits if_splits)
  with ps ok show ?thesis by (simp add: compose_data_ok_def)
qed

text \<open>What the records of templates leave alone.\<close>

definition same_draft :: "'v TbCompose \<Rightarrow> 'v TbCompose \<Rightarrow> bool" where
  "same_draft c c' \<longleftrightarrow> cm_draft c' = cm_draft c \<and> cm_draft_pending c' = cm_draft_pending c \<and>
     cm_draft_id c' = cm_draft_id c \<and> cm_text c' = cm_text c \<and> cm_too_long c' = cm_too_long c \<and>
     cm_dictated c' = cm_dictated c \<and> cm_open c' = cm_open c"

lemma same_draft_sync: "same_draft c c' \<Longrightarrow> draft_sync c' = draft_sync c"
  by (simp add: same_draft_def draft_sync_def)

lemma same_draft_trans: "same_draft a b \<Longrightarrow> same_draft b c \<Longrightarrow> same_draft a c"
  by (simp add: same_draft_def)

lemma templates_record_frame:
  assumes "templates_record t body c = (c', r)"
  shows "same_draft c c'" and "cm_templates_pending c' = cm_templates_pending c" and "cm_templates c' = cm_templates c"
  using assms by (auto simp: same_draft_def templates_record_def free_previews_def Let_def split: option.splits prod.splits if_splits)

interpretation templates_records: record_handler templates_record
  "\<lambda>c. compose_data_ok c \<and> same_draft c0 c \<and> cm_templates_pending c = q \<and> cm_templates c = l" for c0 q l
  by unfold_locales (metis templates_record_ok templates_record_frame same_draft_trans)

lemma same_draft_empty:
  "same_draft c c' \<Longrightarrow> draft_sync c' = draft_sync c" "same_draft c c' \<Longrightarrow> cm_open c' = cm_open c"
  by (simp_all add: same_draft_sync) (simp add: same_draft_def)

lemma templates_done_layer [tb_inv]: "requests_inv L \<Longrightarrow> requests_inv (fst (templates_done q r (L, c)))"
  by (simp add: templates_done_def Let_def tb_inv)

text \<open>An answer finds the composition open, for its request is pending.\<close>

lemma pending_open:
  "compose_inv c \<Longrightarrow> cm_templates_pending c \<noteq> 0 \<Longrightarrow> cm_open c"
  "compose_inv c \<Longrightarrow> cm_draft_pending c \<noteq> 0 \<Longrightarrow> cm_open c"
  by (auto simp: compose_inv_def compose_empty_def)

lemma templates_done_inv:
  assumes inv: "compose_inv c" and q: "q \<noteq> 0" and r: "response_ok r"
  shows "compose_inv (snd (templates_done q r (L, c)))"
proof (cases "q \<noteq> cm_templates_pending c \<or> rs_outcome r = TB_OUTCOME_CANCELLED")
  case True
  then show ?thesis using inv by (simp add: templates_done_def)
next
  case False
  define c1 where "c1 = fst (records_loop () () templates_record (tb_cursor_init (rs_payload r) (rs_length r)) c)"
  have opn: "cm_open c" using False q pending_open(1) [OF inv] by auto
  have d: "compose_data_ok c" "draft_sync c" "cm_templates c = TB_TEMPLATES_LOADING"
    using inv False q by (auto simp: compose_inv_def compose_core_def)
  have "same_draft c c" by (simp add: same_draft_def)
  then have "compose_data_ok c1 \<and> same_draft c c1 \<and> cm_templates_pending c1 = q \<and> cm_templates c1 = TB_TEMPLATES_LOADING"
    using templates_records.loop_inv [OF response_cursor [OF r], of c c q TB_TEMPLATES_LOADING "()" "()"] False d
    by (simp add: c1_def)
  then have c1: "compose_data_ok c1" "draft_sync c1" "cm_open c1" "cm_templates_pending c1 = q"
    "cm_templates c1 = TB_TEMPLATES_LOADING"
    using opn d(2) same_draft_empty [of c c1] by auto
  have upd: "compose_inv (x\<lparr>cm_templates_pending := 0, cm_templates_error := e, cm_templates := t\<rparr>)"
    "compose_inv (x\<lparr>cm_templates_pending := 0, cm_templates_error := e, cm_templates := t, cm_templates_stale := st\<rparr>)"
    if "compose_data_ok x" "draft_sync x" "cm_open x" "t \<noteq> TB_TEMPLATES_LOADING" for x :: "'a TbCompose" and e t st
    using that by (simp_all add: compose_inv_def compose_core_def compose_data_ok_def draft_sync_def draft_size_min)
  have "compose_inv c1" using c1 q by (simp add: compose_inv_def compose_core_def)
  then show ?thesis
    using False c1 d opn upd by (simp add: templates_done_def Let_def flip: c1_def)
qed

lemma cancel_layer [tb_inv]:
  "requests_inv (fst p) \<Longrightarrow> requests_inv (fst (cancel_templates p))"
  "requests_inv (fst p) \<Longrightarrow> requests_inv (fst (cancel_draft p))"
  by (auto simp: cancel_templates_def cancel_draft_def tb_inv split: prod.splits)

lemma load_templates_layer [tb_inv]:
  "requests_inv (fst p) \<Longrightarrow> requests_inv (fst (tb_compose_load_templates p b))"
  by (simp add: tb_compose_load_templates_def case_prod_beta Let_def tb_inv submit_inv)

lemma load_templates_eq:
  assumes "cm_open c"
  obtains q t e where "snd (tb_compose_load_templates (L, c) b) =
      compose_changed (c\<lparr>cm_templates := t, cm_templates_pending := q, cm_templates_error := e\<rparr>)"
    and "t = TB_TEMPLATES_LOADING \<longleftrightarrow> q \<noteq> 0"
proof -
  obtain L0 p0 where k: "cancel_templates (L, c) = (L0, c\<lparr>cm_templates_pending := p0\<rparr>)"
    by (cases "cm_templates_pending c = 0") (simp_all add: cancel_templates_def, metis TbCompose.surjective TbCompose.update_convs(14))
  define c0 where "c0 = c\<lparr>cm_templates_pending := p0\<rparr>"
  obtain L1 q where s: "tb_requests_submit L0 (Some ((base_args c0 TB_REQUEST_TEMPLATES)
        \<lparr>ra_page_op := (if b then TB_PAGE_OP_REFRESH else TB_PAGE_OP_FIRST),
         ra_text_limit := ucast (ccf_preview_limit (cm_config c0)) - 1\<rparr>))
        (ccf_timeout (cm_config c0)) 2 False (Some CB_TEMPLATES) = (L1, q)" by fastforce
  show thesis
    by (rule that [where t = "if q \<noteq> 0 then TB_TEMPLATES_LOADING else if cm_template_count c \<noteq> 0 then TB_TEMPLATES_READY else TB_TEMPLATES_FAILED"
          and q = q and e = "if q \<noteq> 0 then cm_templates_error c else tb_error_submit_failed L1"])
      (simp_all add: tb_compose_load_templates_def assms k s Let_def flip: c0_def, cases c, simp add: c0_def)
qed

lemma load_templates_inv:
  assumes "compose_data_ok c" and "draft_sync c" and "cm_open c"
  shows "compose_inv (snd (tb_compose_load_templates (L, c) b))"
proof -
  have upd: "compose_inv (c\<lparr>cm_templates := t, cm_templates_pending := q, cm_templates_error := e\<rparr>)"
    if "t = TB_TEMPLATES_LOADING \<longleftrightarrow> q \<noteq> 0" for q t e
    using assms that by (simp add: compose_inv_def compose_core_def compose_data_ok_def draft_sync_def draft_size_min)
  show ?thesis by (rule load_templates_eq [OF assms(3), of L b]) (simp add: upd)
qed

interpretation templates: request_client cm_templates_pending templates_done compose_inv
  by unfold_locales (simp_all add: templates_done_inv tb_inv, auto simp: templates_done_def)

subsection \<open>The draft\<close>

lemma draft_record_ok:
  assumes ok: "compose_data_ok c" and body: "wf_cursor body" and step: "draft_record t body c = (c', r)"
  shows "compose_data_ok c'"
proof (cases "t = TB_RECORD_DRAFT")
  case True
  then show ?thesis using step ok
    by (auto simp: draft_record_def Let_def compose_data_ok_def text_fits_def split: option.splits prod.splits if_splits)
next
  case False
  have sz: "draft_size c + 2 < 65536"
    using ok by (simp add: compose_data_ok_def compose_config_ok_def draft_size_min min_less_iff_disj)
  have fit: "text_fits (draft_size c + 2) (of_nat (unat (cm_text_length c) + fit))
      (Some (take (unat (cm_text_length c)) t0 @ take fit (span_data part)))"
    if "cm_text c = Some t0" "wf_span part"
      "fit = tb_utf8_fit (span_data part) (unat (span_length part)) (draft_size c + 3 - unat (cm_text_length c))"
    for t0 part fit
  proof -
    have t: "unat (cm_text_length c) = length t0" "length t0 \<le> draft_size c + 2"
      using ok that(1) by (auto simp: compose_data_ok_def text_fits_def)
    have "fit \<le> draft_size c + 2 - length t0" "fit \<le> length (span_data part)"
      using that(2,3) t tb_utf8_fit_le(1) [of "span_data part" "unat (span_length part)" "draft_size c + 3 - length t0"]
        tb_utf8_fit_le(3) [where d = "span_data part" and len = "unat (span_length part)" and capacity = "draft_size c + 3 - length t0"]
      by (auto simp: wf_span_def)
    then show ?thesis using t sz by (simp add: text_fits_def del: of_nat_add)
  qed
  show ?thesis using False step ok fit text_span [OF body]
    by (auto simp: draft_record_def Let_def compose_data_ok_def draft_size_min split: option.splits if_splits)
qed

text \<open>What the records of a draft leave alone.\<close>

lemma draft_record_frame:
  assumes "draft_record t body c = (c', r)"
  shows "cm_templates_pending c' = cm_templates_pending c" and "cm_templates c' = cm_templates c"
    and "cm_open c' = cm_open c" and "cm_draft c' = cm_draft c" and "cm_draft_pending c' = cm_draft_pending c"
  using assms by (auto simp: draft_record_def Let_def split: option.splits prod.splits if_splits)

interpretation draft_records: record_handler draft_record
  "\<lambda>c. compose_data_ok c \<and> (cm_templates c = TB_TEMPLATES_LOADING \<longleftrightarrow> cm_templates_pending c \<noteq> 0) \<and> cm_open c \<and>
     cm_draft c = TB_DRAFT_LOADING \<and> cm_draft_pending c = q" for q
  by unfold_locales (metis draft_record_ok draft_record_frame)

lemma draft_done_layer [tb_inv]: "requests_inv L \<Longrightarrow> requests_inv (fst (draft_done q r (L, c)))"
  by (simp add: draft_done_def Let_def case_prod_beta tb_inv)

lemma core_draft_update:
  assumes "compose_core c"
  shows "compose_core (c\<lparr>cm_draft_pending := q\<rparr>)" "compose_core (c\<lparr>cm_draft := d\<rparr>)" "compose_core (c\<lparr>cm_draft_error := e\<rparr>)"
    "compose_core (c\<lparr>cm_draft_id := i\<rparr>)" "compose_core (c\<lparr>cm_too_long := b\<rparr>)" "compose_core (c\<lparr>cm_heap := h\<rparr>)"
    "compose_core (c\<lparr>cm_draft_units := u\<rparr>)" "compose_core (c\<lparr>cm_text := None, cm_text_length := 0\<rparr>)"
    "compose_core (c\<lparr>cm_dictated := None, cm_dictated_length := 0\<rparr>)"
    "compose_core (c\<lparr>cm_text := None, cm_text_length := 0, cm_draft_bytes := n\<rparr>)"
    "text_fits TB_COMPOSE_DRAFT_LIMIT m t \<Longrightarrow> compose_core (c\<lparr>cm_dictated := t, cm_dictated_length := m\<rparr>)"
  using assms by (simp_all add: compose_core_def compose_data_ok_def draft_size_min)

lemma draft_done_inv:
  assumes inv: "compose_inv c" and q: "q \<noteq> 0" and r: "response_ok r"
  shows "compose_inv (snd (draft_done q r (L, c)))"
proof (cases "q \<noteq> cm_draft_pending c \<or> rs_outcome r = TB_OUTCOME_CANCELLED")
  case True
  then show ?thesis using inv by (simp add: draft_done_def)
next
  case False
  have opn: "cm_open c" using False q pending_open(2) [OF inv] by auto
  have core: "compose_core c" "cm_draft c = TB_DRAFT_LOADING"
    using inv False q by (auto simp: compose_inv_def draft_sync_def)
  show ?thesis
  proof (cases "rs_outcome r \<noteq> TB_OUTCOME_RESPONSE \<or> rs_result r \<noteq> TB_RESULT_OK")
    case True
    define c1 where "c1 = c\<lparr>cm_draft_pending := 0, cm_draft_error := tb_error_from_response r, cm_draft := TB_DRAFT_FAILED,
                      cm_text := None, cm_text_length := 0\<rparr>"
    have "compose_core c1" unfolding c1_def by (intro core_draft_update core)
    then have c1: "compose_data_ok c1" "draft_sync c1" "cm_open c1" "compose_inv c1"
      using opn by (simp_all add: compose_core_def compose_inv_def draft_sync_def c1_def)
    show ?thesis
      using False True c1(4)
      by (simp add: load_templates_inv [OF c1(1-3)] draft_done_def Let_def case_prod_beta flip: c1_def)
  next
    case ok: False
    define c1 where "c1 = fst (records_loop () () draft_record (tb_cursor_init (rs_payload r) (rs_length r)) c)"
    have "compose_core c1 \<and> cm_open c1 \<and> cm_draft c1 = TB_DRAFT_LOADING \<and> cm_draft_pending c1 = q"
      using draft_records.loop_inv [OF response_cursor [OF r], of c q "()" "()"] core opn False
      by (simp add: c1_def compose_core_def)
    then have c1: "compose_core c1" "cm_open c1" "compose_inv c1"
      using q by (auto simp: compose_inv_def draft_sync_def)
    have core2: "compose_core (c1\<lparr>cm_draft_pending := 0, cm_dictated := None, cm_dictated_length := 0, cm_draft := d, cm_draft_error := e\<rparr>)"
      for d e by (intro core_draft_update c1(1))
    then show ?thesis
      using False ok c1 by (simp add: draft_done_def Let_def compose_inv_def draft_sync_def flip: c1_def)
  qed
qed

interpretation draft: request_client cm_draft_pending draft_done compose_inv
  by unfold_locales (simp_all add: draft_done_inv tb_inv, auto simp: draft_done_def)

text \<open>Cancelling and discarding keep what the templates rely on.\<close>

lemma discard_layer [tb_inv]: "requests_inv (fst p) \<Longrightarrow> requests_inv (fst (discard_current p))"
  by (cases p) (simp add: discard_current_def tb_inv submit_inv)

lemma draft_cancelled:
  "compose_core c \<Longrightarrow> cancel_draft (L, c) = (L', c') \<Longrightarrow> compose_core c' \<and> cm_open c' = cm_open c \<and> cm_draft_pending c' = 0"
  by (auto simp: cancel_draft_def core_draft_update split: if_splits)

lemma draft_discarded:
  "compose_core c \<Longrightarrow> discard_current (L, c) = (L', c') \<Longrightarrow>
   compose_core c' \<and> cm_open c' = cm_open c \<and> cm_draft_pending c' = cm_draft_pending c \<and> cm_draft_id c' = 0"
  by (auto simp: discard_current_def core_draft_update split: if_splits)

lemma draft_reset:
  assumes "compose_core c" and "discard_current (cancel_draft (L, c)) = (L', c')"
  shows "compose_core c'" and "cm_open c' = cm_open c" and "cm_draft_pending c' = 0" and "cm_draft_id c' = 0"
  using draft_cancelled [OF assms(1)] draft_discarded assms(2) by (cases "cancel_draft (L, c)"; fastforce)+

lemma request_draft_layer [tb_inv]: "requests_inv (fst p) \<Longrightarrow> requests_inv (fst (snd (request_draft p args)))"
  by (simp add: request_draft_def case_prod_beta Let_def tb_inv submit_inv)

lemma request_draft_inv:
  assumes "compose_core c" and "cm_open c"
  shows "compose_inv (snd (snd (request_draft (L, c) args)))"
proof -
  obtain L1 c1 where k: "discard_current (cancel_draft (L, c)) = (L1, c1)" by fastforce
  note d = draft_reset [OF assms(1) k]
  have "compose_core (c1\<lparr>cm_text := None, cm_text_length := 0, cm_too_long := b, cm_draft := x, cm_draft_pending := q\<rparr>)"
    "compose_core (c1\<lparr>cm_text := None, cm_text_length := 0, cm_too_long := b, cm_draft_pending := q, cm_draft := x, cm_draft_error := e\<rparr>)"
    for b x q e by (intro core_draft_update d(1))+
  then show ?thesis
    using d assms(2) by (simp add: request_draft_def k Let_def compose_inv_def draft_sync_def split: prod.split)
qed

subsection \<open>Operations\<close>

definition compose_pair_inv :: "'x TbRequestLayer \<times> 'v TbCompose \<Rightarrow> bool" where
  "compose_pair_inv p \<longleftrightarrow> requests_inv (fst p) \<and> compose_inv (snd p)"

lemma compose_pair_request:
  "requests_inv (fst p) \<Longrightarrow> compose_core (snd p) \<Longrightarrow> cm_open (snd p) \<Longrightarrow> compose_pair_inv (snd (request_draft p args))"
  using request_draft_inv [of "snd p" "fst p" args] by (simp add: compose_pair_inv_def tb_inv)

lemma compose_inv_core: "compose_inv c \<Longrightarrow> compose_core c"
  by (simp add: compose_inv_def)

lemma compose_pair_pick: "compose_pair_inv p \<Longrightarrow> compose_pair_inv (snd (tb_compose_pick p index))"
  by (auto simp: tb_compose_pick_def compose_inv_core compose_pair_inv_def [of p] intro!: compose_pair_request)

lemma compose_pair_load: "compose_pair_inv p \<Longrightarrow> compose_pair_inv (tb_compose_load_templates p refresh)"
proof (cases "cm_open (snd p)")
  case True
  then show "compose_pair_inv p \<Longrightarrow> ?thesis"
    using load_templates_inv [of "snd p" "fst p" refresh]
    by (simp add: compose_pair_inv_def compose_inv_def [of "snd p"] compose_core_def tb_inv)
qed (simp add: tb_compose_load_templates_def)

text \<open>A dictation that is too long becomes a draft of its own, without a request.\<close>

lemma compose_pair_dictated:
  assumes "compose_pair_inv p" and "pred_option (\<lambda>t. len \<le> length t) dictation"
  shows "compose_pair_inv (snd (tb_compose_dictated p dictation len))"
proof (cases "\<not> cm_open (snd p) \<or> dictation = None \<or> len = 0")
  case True
  then show ?thesis using assms by (auto simp: tb_compose_dictated_def)
next
  case False
  then obtain t0 where t0: "dictation = Some t0" by auto
  obtain L c where k: "cancel_draft p = (L, c)" by fastforce
  have inv: "requests_inv L" "compose_core c" "cm_open c" "cm_draft_pending c = 0"
    using draft_cancelled [of "snd p" "fst p" L c] cancel_layer(2) [of p] assms(1) False k
    by (auto simp: compose_pair_inv_def compose_inv_def)
  define c1 where "c1 = c\<lparr>cm_dictated := None, cm_dictated_length := 0\<rparr>"
  have core1: "compose_core c1" unfolding c1_def by (intro core_draft_update inv)
  have c1: "cm_open c1" "cm_draft_pending c1 = 0" using inv by (simp_all add: c1_def)
  obtain L2 c2 where d: "discard_current (L, c1) = (L2, c2)" by fastforce
  note c2 = draft_discarded [OF core1 d]
  have L2: "requests_inv L2" using discard_layer [of "(L, c1)"] inv(1) d by simp
  have long: "compose_core (c2\<lparr>cm_text := None, cm_text_length := 0, cm_draft_bytes := n, cm_draft_units := u,
      cm_too_long := b, cm_draft := x, cm_draft_error := e\<rparr>)" for n u b x e
    by (intro core_draft_update conjunct1 [OF c2])
  have oom: "compose_core (c1\<lparr>cm_heap := h, cm_draft := x, cm_draft_error := e\<rparr>)" for h x e
    by (intro core_draft_update core1)
  obtain ok h where m: "malloc (cm_heap c1) len = (ok, h)" by fastforce
  show ?thesis
  proof (cases "len > TB_COMPOSE_DRAFT_LIMIT")
    case True
    then show ?thesis using False k d long c2 c1 L2
      by (simp add: t0 tb_compose_dictated_def Let_def compose_pair_inv_def compose_inv_def draft_sync_def flip: c1_def)
  next
    case short: False
    define t where "t = take len t0"
    define c3 where "c3 = c1\<lparr>cm_heap := h, cm_dictated := Some t, cm_dictated_length := of_nat len\<rparr>"
    have "text_fits TB_COMPOSE_DRAFT_LIMIT (of_nat len) (Some t)"
      using short False assms(2) by (simp add: t0 text_fits_def t_def)
    then have "compose_core c3" unfolding c3_def by (intro core_draft_update core1)
    then have req: "compose_pair_inv (snd (request_draft (L, c3) args))" for args
      using inv(1) c1 by (intro compose_pair_request) (simp_all add: c3_def)
    show ?thesis
      using False short k m oom inv(1) c1 req unfolding c1_def c3_def t_def
      by (cases ok) (simp_all add: t0 tb_compose_dictated_def Let_def compose_pair_inv_def [of "(_, _)"]
          compose_inv_def [of "_\<lparr>cm_draft := _, cm_draft_error := _\<rparr>"] draft_sync_def)
  qed
qed

lemma compose_drop_inv:
  assumes "requests_inv (fst p)" and "compose_core (snd p)"
  shows "requests_inv (fst (tb_compose_drop_draft p))" and "compose_core (snd (tb_compose_drop_draft p))"
    and "draft_sync (snd (tb_compose_drop_draft p))"
    and "cm_draft_pending (snd (tb_compose_drop_draft p)) = 0 \<and> cm_draft_id (snd (tb_compose_drop_draft p)) = 0 \<and>
      cm_text (snd (tb_compose_drop_draft p)) = None \<and> cm_dictated (snd (tb_compose_drop_draft p)) = None \<and>
      cm_open (snd (tb_compose_drop_draft p)) = cm_open (snd p)"
proof -
  obtain L c where k: "discard_current (cancel_draft p) = (L, c)" by fastforce
  note d = draft_reset [of "snd p" "fst p", simplified, OF assms(2) k]
  have "compose_core (c\<lparr>cm_text := None, cm_text_length := 0, cm_dictated := None, cm_dictated_length := 0, cm_too_long := b,
      cm_draft := x, cm_draft_error := e\<rparr>)" for b x e
    by (intro core_draft_update d(1))
  moreover have "requests_inv L" using assms(1) k tb_inv by (metis fst_conv discard_layer cancel_layer(2))
  ultimately show "requests_inv (fst (tb_compose_drop_draft p))" "compose_core (snd (tb_compose_drop_draft p))"
    "draft_sync (snd (tb_compose_drop_draft p))"
    "cm_draft_pending (snd (tb_compose_drop_draft p)) = 0 \<and> cm_draft_id (snd (tb_compose_drop_draft p)) = 0 \<and>
      cm_text (snd (tb_compose_drop_draft p)) = None \<and> cm_dictated (snd (tb_compose_drop_draft p)) = None \<and>
      cm_open (snd (tb_compose_drop_draft p)) = cm_open (snd p)"
    using d by (simp_all add: tb_compose_drop_draft_def k free_draft_def draft_sync_def)
qed

text \<open>
  Closing, with or without the draft, leaves an empty composition: both ways of ending the draft
  only reset its fields.
\<close>

lemma draft_reset_eq:
  "discard_current (cancel_draft (L, c)) = (L', c') \<Longrightarrow> c' = c\<lparr>cm_draft_id := 0, cm_draft_pending := 0\<rparr>"
  by (cases c) (auto simp: cancel_draft_def discard_current_def split: if_splits)

lemma draft_cancel_eq: "cancel_draft (L, c) = (L', c') \<Longrightarrow> c' = c\<lparr>cm_draft_pending := 0\<rparr>"
  by (cases c) (auto simp: cancel_draft_def split: if_splits)

lemma templates_cancel_eq: "cancel_templates (L, c) = (L', c') \<Longrightarrow> c' = c\<lparr>cm_templates_pending := 0\<rparr>"
  by (cases c) (auto simp: cancel_templates_def split: if_splits)

lemma compose_close_layer [tb_inv]:
  "requests_inv (fst p) \<Longrightarrow> requests_inv (fst (tb_compose_close p keep))"
  by (simp add: tb_compose_close_def tb_compose_drop_draft_def case_prod_beta Let_def tb_inv)

lemma compose_close_empty:
  assumes "compose_config_ok (cm_config c)"
  shows "compose_inv (snd (tb_compose_close (L, c) keep))" and "compose_empty (snd (tb_compose_close (L, c) keep))"
    and "\<not> cm_open (snd (tb_compose_close (L, c) keep))" and "cm_templates (snd (tb_compose_close (L, c) keep)) = TB_TEMPLATES_NONE"
    and "cm_draft (snd (tb_compose_close (L, c) keep)) = TB_DRAFT_NONE"
proof -
  obtain L1 c1 where k1: "cancel_templates (L, c) = (L1, c1)" by fastforce
  obtain L2 c2 where k2: "cancel_draft (L1, c1) = (L2, c2)" by fastforce
  obtain L3 c3 where k3: "discard_current (L2, c2) = (L3, c3)" by fastforce
  have eqs: "c1 = c\<lparr>cm_templates_pending := 0\<rparr>" "c2 = c1\<lparr>cm_draft_pending := 0\<rparr>"
    "c3 = c1\<lparr>cm_draft_id := 0, cm_draft_pending := 0\<rparr>"
    using templates_cancel_eq [OF k1] draft_cancel_eq [OF k2] draft_reset_eq [of L1 c1 L3 c3] k2 k3 by simp_all
  have fields: "cm_templates_pending c2 = 0" "cm_draft_pending c2 = 0" "cm_config c2 = cm_config c"
    "cm_templates_pending c3 = 0" "cm_draft_pending c3 = 0" "cm_draft_id c3 = 0" "cm_config c3 = cm_config c"
    by (simp_all add: eqs)
  note ev = tb_compose_close_def tb_compose_drop_draft_def free_previews_def free_draft_def k1 k2 k3 fields Let_def
  show "compose_empty (snd (tb_compose_close (L, c) keep))" "\<not> cm_open (snd (tb_compose_close (L, c) keep))"
    "cm_templates (snd (tb_compose_close (L, c) keep)) = TB_TEMPLATES_NONE"
    "cm_draft (snd (tb_compose_close (L, c) keep)) = TB_DRAFT_NONE"
    by (simp_all add: ev compose_empty_def)
  show "compose_inv (snd (tb_compose_close (L, c) keep))"
    using assms by (simp add: ev compose_inv_def compose_core_def compose_data_ok_def draft_sync_def compose_empty_def)
qed

lemma compose_config [simp]: "compose_pair_inv p \<Longrightarrow> compose_config_ok (cm_config (snd p))"
  by (simp add: compose_pair_inv_def compose_inv_def compose_core_def compose_data_ok_def)

lemma compose_pair_close: "compose_pair_inv p \<Longrightarrow> compose_pair_inv (tb_compose_close p keep)"
  using compose_close_empty(1) [of "snd p" "fst p" keep] compose_close_layer [of p keep] compose_config [of p]
  by (simp add: compose_pair_inv_def)

lemma compose_pair_open:
  assumes "compose_pair_inv p"
  shows "compose_pair_inv (snd (tb_compose_open p target))"
proof (cases target)
  case (Some tgt)
  obtain L c where k: "tb_compose_close p False = (L, c)" by fastforce
  have inv: "compose_pair_inv (L, c)" using compose_pair_close [OF assms, of False] k by simp
  then have "compose_data_ok (c\<lparr>cm_target := tgt, cm_open := True\<rparr>)" "draft_sync (c\<lparr>cm_target := tgt, cm_open := True\<rparr>)"
    by (auto simp: compose_pair_inv_def compose_inv_def compose_core_def compose_data_ok_def draft_size_min draft_sync_def)
  from load_templates_inv [OF this, of L False] show ?thesis
    using assms inv by (simp add: tb_compose_open_def Some k compose_pair_inv_def tb_inv)
qed (use assms in \<open>simp add: tb_compose_open_def\<close>)

lemma compose_pair_drop: "compose_pair_inv p \<Longrightarrow> compose_pair_inv (tb_compose_drop_draft p)"
  using compose_drop_inv [of p] draft_reset_eq [of "fst p" "snd p"]
  by (auto simp: compose_pair_inv_def compose_inv_def compose_empty_def)
    (auto simp: tb_compose_drop_draft_def free_draft_def split: prod.splits)

lemma compose_inv_context [simp]: "compose_inv (c\<lparr>cm_context := v\<rparr>) = compose_inv c"
  by (simp add: compose_inv_def compose_core_def compose_data_ok_def draft_sync_def compose_empty_def draft_size_def)

text \<open>
  The operations and what arrives for them. The last rule is the rest of the program and the platform:
  the layer and the context of the ports, with its clock, may be others.
\<close>

inductive compose_step ::
  "'x TbRequestLayer \<times> 'v TbCompose \<Rightarrow> 'x TbRequestLayer \<times> 'v TbCompose \<Rightarrow> bool" where
  cm_open_step: "compose_step p (snd (tb_compose_open p target))"
| cm_load: "compose_step p (tb_compose_load_templates p refresh)"
| cm_pick: "compose_step p (snd (tb_compose_pick p index))"
| cm_dictate: "pred_option (\<lambda>t. len \<le> length t) dictation \<Longrightarrow> compose_step p (snd (tb_compose_dictated p dictation len))"
| cm_drop: "compose_step p (tb_compose_drop_draft p)"
| cm_close: "compose_step p (tb_compose_close p keep)"
| cm_templates_done: "q \<noteq> 0 \<Longrightarrow> response_ok r \<Longrightarrow> compose_step p (templates_done q r p)"
| cm_draft_done: "q \<noteq> 0 \<Longrightarrow> response_ok r \<Longrightarrow> compose_step p (draft_done q r p)"
| cm_layer: "requests_inv L' \<Longrightarrow> compose_step (L, c) (L', c\<lparr>cm_context := v\<rparr>)"

lemma compose_step_inv: "compose_step p p' \<Longrightarrow> compose_pair_inv p \<Longrightarrow> compose_pair_inv p'"
proof (induction rule: compose_step.induct)
  case (cm_templates_done q r p)
  then show ?case by (cases p) (simp add: compose_pair_inv_def templates_done_inv tb_inv)
next
  case (cm_draft_done q r p)
  then show ?case by (cases p) (simp add: compose_pair_inv_def draft_done_inv tb_inv)
qed (simp_all add: compose_pair_open compose_pair_load compose_pair_pick compose_pair_dictated compose_pair_drop
    compose_pair_close compose_pair_inv_def [of "(_, _)"])

lemma compose_steps_inv: "compose_step\<^sup>*\<^sup>* p p' \<Longrightarrow> compose_pair_inv p \<Longrightarrow> compose_pair_inv p'"
  by (induction rule: rtranclp_induct) (auto dest: compose_step_inv)

lemma compose_init_inv: "compose_config_ok config \<Longrightarrow> compose_inv (tb_compose_init ports v config h)"
  by (simp add: tb_compose_init_def compose_inv_def compose_core_def compose_data_ok_def draft_sync_def compose_empty_def)

section \<open>UTF-16 units\<close>

text \<open>The UTF-8 encoding of a code point, and how many UTF-16 units the code point takes.\<close>

definition utf8_encode :: "nat \<Rightarrow> bytes" where
  "utf8_encode cp = map of_nat
     (if cp < 0x80 then [cp]
      else if cp < 0x800 then [0xC0 + cp div 64, 0x80 + cp mod 64]
      else if cp < 0x10000 then [0xE0 + cp div 4096, 0x80 + cp div 64 mod 64, 0x80 + cp mod 64]
      else [0xF0 + cp div 262144, 0x80 + cp div 4096 mod 64, 0x80 + cp div 64 mod 64, 0x80 + cp mod 64])"

definition utf16_units :: "nat \<Rightarrow> nat" where
  "utf16_units cp = (if cp < 0x10000 then 1 else 2)"

lemma cont_table: "list_all (\<lambda>n. ((of_nat n :: u8) AND 0xC0 = 0x80) = (128 \<le> n \<and> n < 192)) [0..<256]"
  by code_simp

lemma cont_range: "n < 256 \<Longrightarrow> ((of_nat n :: u8) AND 0xC0 = 0x80) = (128 \<le> n \<and> n < 192)"
  using cont_table by (simp add: list_all_iff)

lemma units_loop_byte:
  "n < 256 \<Longrightarrow> units_loop (of_nat n # bs) u =
     units_loop bs (if 128 \<le> n \<and> n < 192 then u else u + (if 240 \<le> n then 2 else 1))"
  by (simp add: cont_range word_le_nat_alt)

lemma units_loop_char:
  assumes "cp < 0x110000"
  shows "units_loop (utf8_encode cp @ bs) u = units_loop bs (u + of_nat (utf16_units cp))"
proof -
  have "cp div 262144 < 5" "cp mod 64 < 64" "cp div 64 mod 64 < 64" "cp div 4096 mod 64 < 64"
    "cp < 0x800 \<Longrightarrow> cp div 64 < 32" "cp < 0x10000 \<Longrightarrow> cp div 4096 < 16"
    using assms by auto
  then show ?thesis
    by (auto simp: utf8_encode_def utf16_units_def units_loop_byte simp del: units_loop.simps of_nat_add)
qed

lemma units_loop_text:
  "\<forall>cp \<in> set cps. cp < 0x110000 \<Longrightarrow>
   units_loop (concat (map utf8_encode cps)) u = u + of_nat (sum_list (map utf16_units cps))"
proof (induction cps arbitrary: u)
  case (Cons cp cps)
  then show ?case using units_loop_char [of cp "concat (map utf8_encode cps)" u] by (simp add: add.assoc)
qed simp

text \<open>A character takes no more units than bytes, so that the counter of a text that fits memory does not wrap.\<close>

lemma utf16_units_le: "utf16_units cp \<le> length (utf8_encode cp)"
  by (simp add: utf16_units_def utf8_encode_def)

lemma units_le_bytes: "sum_list (map utf16_units cps) \<le> length (concat (map utf8_encode cps))"
proof (induction cps)
  case (Cons cp cps)
  then show ?case using utf16_units_le [of cp] by (simp del: length_concat)
qed simp

section \<open>Properties\<close>


definition sample_compose :: "nat TbCompose" where
  "sample_compose = tb_compose_init sample_view_ports 0
     \<lparr>ccf_capacity = 8, ccf_preview_limit = 49, ccf_text_limit = 512, ccf_timeout = 8000\<rparr> sample_heap"


text \<open>
  C37. The length of a dictation is told in UTF-16 units: for the UTF-8 encoding of any sequence of
  code points, \<open>tb_utf8_units\<close> counts one unit for every character of the basic plane and two for
  every other one, and saturates at \<open>UINT16_MAX\<close> instead of wrapping.
\<close>

theorem utf8_units_counts_utf16:
  assumes "\<forall>cp \<in> set cps. cp < 0x110000" and "length (concat (map utf8_encode cps)) < 4294967296"
  shows "unat (tb_utf8_units (concat (map utf8_encode cps) @ rest) (length (concat (map utf8_encode cps)))) =
     min 65535 (sum_list (map utf16_units cps))"
proof -
  let ?n = "sum_list (map utf16_units cps)"
  have n: "?n < 4294967296" using units_le_bytes [of cps] assms(2) by linarith
  have loop: "units_loop (concat (map utf8_encode cps)) 0 = of_nat ?n"
    using units_loop_text [OF assms(1), of 0] by simp
  have u: "unat (of_nat ?n :: u32) = ?n" using n by (rule unat_of_nat_u32)
  have "unat (ucast (of_nat ?n :: u32) :: u16) = ?n" if "?n \<le> 65535"
    using that u by (simp add: unsigned_ucast_eq take_bit_nat_eq_self)
  then show ?thesis
    using u by (simp add: tb_utf8_units_def loop Let_def word_less_nat_alt min_def del: length_concat)
qed

theorem utf8_units_counts_utf16_witness:
  "unat (tb_utf8_units [0x41, 0xE2, 0x82, 0xAC, 0xF0, 0x9F, 0x98, 0x80] 8) = 4"
proof -
  define t :: bytes where "t = [0x41, 0xE2, 0x82, 0xAC, 0xF0, 0x9F, 0x98, 0x80]"
  have t: "concat (map utf8_encode [0x41, 0x20AC, 0x1F600]) = t" "length t = 8"
    by (simp_all add: utf8_encode_def t_def)
  have "unat (tb_utf8_units t 8) = min 65535 (sum_list (map utf16_units [0x41, 0x20AC, 0x1F600]))"
    using utf8_units_counts_utf16 [of "[0x41, 0x20AC, 0x1F600]" "[]"] unfolding t append_Nil2 by simp
  also have "\<dots> = 4" by (simp add: utf16_units_def)
  finally show ?thesis unfolding t_def .
qed

end
