(* ===== verification/Media.thy ===== *)
theory Media
  imports Clients Image_Facts
begin

text \<open>
  The picture of a message (\<^verbatim>\<open>media.h\<close>, \<^verbatim>\<open>media.c\<close>): asking for it with a memory budget,
  polling while the phone prepares it, receiving it in chunks through the picture decoder, resuming
  after a lost connection and starting over once when the data is corrupt.
\<close>

section \<open>Data\<close>

abbreviation (input) TB_MEDIA_RESUMES :: u8 where "TB_MEDIA_RESUMES \<equiv> 2"
abbreviation (input) TB_MEDIA_POLL_MIN :: u32 where "TB_MEDIA_POLL_MIN \<equiv> 1000"

datatype TbMediaPhase =
  TB_MEDIA_NONE | TB_MEDIA_IDLE | TB_MEDIA_LOADING | TB_MEDIA_WAITING | TB_MEDIA_TRANSFER | TB_MEDIA_READY
| TB_MEDIA_SPOILER | TB_MEDIA_RESTRICTED | TB_MEDIA_UNSUPPORTED | TB_MEDIA_UNAVAILABLE | TB_MEDIA_NO_MEMORY
| TB_MEDIA_ERROR

text \<open>\<open>heap_free\<close> is a function pointer that may be null; the number it returns is a state of the platform.\<close>

record 'v TbMediaConfig =
  mcf_width :: u16
  mcf_height :: u16
  mcf_shape :: u8
  mcf_formats :: u8
  mcf_max_budget :: u16
  mcf_reserve :: u16
  mcf_min_budget :: u16
  mcf_timeout :: u32
  mcf_wait_limit :: u32
  mcf_heap_free :: "('v \<Rightarrow> nat) option"

record 'v TbMedia =
  md_ports :: "'v TbViewPorts"
  md_context :: 'v
  md_heap :: heap
  md_config :: "'v TbMediaConfig"
  md_account :: cstring
  md_chat :: cstring
  md_message :: cstring
  md_item :: cstring
  md_index :: u8
  md_count :: u8
  md_flags :: u8
  md_server_state :: u8
  md_reveal :: bool
  md_revealed :: bool
  md_phase :: TbMediaPhase
  md_error :: int
  md_pending :: u32
  md_tag :: u32
  md_total :: u32
  md_received :: u32
  md_budget :: u16
  md_resumes :: u8
  md_crc_retry :: bool
  md_started :: u32
  md_due :: u32
  md_image :: TbImageDecoder
  md_revision :: u32

datatype TbFeed = FEED_OK | FEED_PROTOCOL | FEED_CORRUPT | FEED_MEMORY

section \<open>Operations\<close>

definition media_changed :: "'v TbMedia \<Rightarrow> 'v TbMedia" where
  "media_changed m = m\<lparr>md_revision := md_revision m + 1, md_context := vp_changed (md_ports m) (md_context m)\<rparr>"

definition media_now :: "'v TbMedia \<Rightarrow> u32" where
  "media_now m = vp_now (md_ports m) (md_context m)"

definition drop_pixels :: "'v TbMedia \<Rightarrow> 'v TbMedia" where
  "drop_pixels m = m\<lparr>md_image := tb_image_reset, md_received := 0, md_tag := 0, md_total := 0\<rparr>"

definition cancel_pending ::
  "'x TbRequestLayer \<times> 'v TbMedia \<Rightarrow> 'x TbRequestLayer \<times> 'v TbMedia" where
  "cancel_pending p =
     (case p of (L, m) \<Rightarrow>
        if md_pending m = 0 then (L, m)
        else (fst (tb_requests_submit (cancel_request L (md_pending m)) (Some (request_args TB_REQUEST_MEDIA_CANCEL))
                (mcf_timeout (md_config m)) 1 False None),
              m\<lparr>md_pending := 0\<rparr>))"

text \<open>The eight bytes of \<open>media_spec\<close>.\<close>

definition media_spec :: "'v TbMedia \<Rightarrow> bytes" where
  "media_spec m =
     (let c = md_config m
      in [ucast (mcf_width c AND 0xFF), ucast (drop_bit 8 (mcf_width c)), ucast (mcf_height c AND 0xFF),
          ucast (drop_bit 8 (mcf_height c)), mcf_shape c OR (if md_reveal m then 0x80 else 0), mcf_formats c,
          ucast (md_budget m AND 0xFF), ucast (drop_bit 8 (md_budget m))])"

definition media_submit ::
  "'x TbRequestLayer \<times> 'v TbMedia \<Rightarrow> u32 \<Rightarrow> 'x TbRequestLayer \<times> 'v TbMedia" where
  "media_submit p offset =
     (case p of (L, m) \<Rightarrow>
        (let args = (request_args TB_REQUEST_MEDIA)\<lparr>ra_account := strncpy TB_ACCOUNT_ID_SIZE (md_account m),
               ra_chat := strncpy TB_TELEGRAM_ID_SIZE (md_chat m), ra_message := strncpy TB_TELEGRAM_ID_SIZE (md_message m),
               ra_media_index := md_index m, ra_media_spec := media_spec m, ra_media_offset := offset,
               ra_media_tag := (if offset \<noteq> 0 then md_tag m else 0)\<rparr>
         in case tb_requests_submit L (Some args) (mcf_timeout (md_config m)) 2 False (Some CB_MEDIA) of
              (L1, q) \<Rightarrow>
                (L1, if q = 0 then m\<lparr>md_pending := 0, md_phase := TB_MEDIA_ERROR, md_error := tb_error_submit_failed L1\<rparr>
                     else m\<lparr>md_pending := q, md_error := TB_ERROR_NONE\<rparr>)))"

text \<open>The budget of \<open>start\<close>, before it is rounded down to whole kilobytes.\<close>

definition media_budget :: "'v TbMedia \<Rightarrow> nat" where
  "media_budget m =
     (let c = md_config m;
          available = (case mcf_heap_free c of Some f \<Rightarrow> f (md_context m)
                       | None \<Rightarrow> unat (mcf_max_budget c) + unat (mcf_reserve c));
          budget = (if available > unat (mcf_reserve c) then available - unat (mcf_reserve c) else 0)
      in if budget > unat (mcf_max_budget c) then unat (mcf_max_budget c) else budget)"

definition media_start :: "'x TbRequestLayer \<times> 'v TbMedia \<Rightarrow> 'x TbRequestLayer \<times> 'v TbMedia" where
  "media_start p =
     (case cancel_pending p of (L, m) \<Rightarrow>
        (let m0 = drop_pixels m;
             m1 = m0\<lparr>md_context := vp_cancel (md_ports m0) (md_context m0), md_due := 0, md_resumes := 0\<rparr>;
             budget = media_budget m1
         in if budget < unat (mcf_min_budget (md_config m1))
            then (L, media_changed (m1\<lparr>md_phase := TB_MEDIA_NO_MEMORY\<rparr>))
            else
              (case media_submit (L, m1\<lparr>md_budget := of_nat (budget - budget mod 1024), md_started := media_now m1,
                      md_phase := TB_MEDIA_LOADING\<rparr>) 0 of
                 (L1, m2) \<Rightarrow> (L1, media_changed m2))))"

definition media_fail ::
  "'x TbRequestLayer \<times> 'v TbMedia \<Rightarrow> int \<Rightarrow> TbRequestOutcome \<Rightarrow> 'x TbRequestLayer \<times> 'v TbMedia" where
  "media_fail p error outcome =
     (case p of (L, m) \<Rightarrow>
        (let m1 = m\<lparr>md_pending := 0\<rparr>;
             transport = (outcome = TB_OUTCOME_TIMEOUT \<or> outcome = TB_OUTCOME_UNREACHABLE \<or> outcome = TB_OUTCOME_PROTOCOL)
         in if transport \<and> md_phase m1 = TB_MEDIA_TRANSFER \<and> md_received m1 > 0 \<and> md_resumes m1 < TB_MEDIA_RESUMES
            then (case media_submit (L, m1\<lparr>md_resumes := md_resumes m1 + 1\<rparr>) (md_received m1) of
                    (L1, m2) \<Rightarrow> (L1, media_changed m2))
            else (L, media_changed (m1\<lparr>md_phase := (if error = TB_RESULT_MESSAGE_UNAVAILABLE then TB_MEDIA_UNAVAILABLE
                                                    else TB_MEDIA_ERROR), md_error := error\<rparr>))))"

definition media_corrupt :: "'x TbRequestLayer \<times> 'v TbMedia \<Rightarrow> 'x TbRequestLayer \<times> 'v TbMedia" where
  "media_corrupt p =
     (case p of (L, m) \<Rightarrow>
        (let m1 = m\<lparr>md_pending := 0\<rparr>
         in if \<not> md_crc_retry m1 then media_start (L, m1\<lparr>md_crc_retry := True\<rparr>)
            else (L, media_changed ((drop_pixels m1)\<lparr>md_phase := TB_MEDIA_ERROR, md_error := TB_RESULT_PROTOCOL_ERROR\<rparr>))))"

definition wait_for :: "'v TbMedia \<Rightarrow> u16 \<Rightarrow> 'v TbMedia" where
  "wait_for m retry_after =
     (let current = media_now m
      in if current - md_started m \<ge> mcf_wait_limit (md_config m)
         then m\<lparr>md_phase := TB_MEDIA_ERROR, md_error := TB_ERROR_NO_RESPONSE\<rparr>
         else
           (let delay = (if ucast retry_after * 1000 > TB_MEDIA_POLL_MIN then ucast retry_after * 1000 else TB_MEDIA_POLL_MIN)
            in m\<lparr>md_phase := TB_MEDIA_WAITING, md_due := current + delay,
                 md_context := snd (vp_schedule (md_ports m) (md_context m) delay)\<rparr>))"

definition media_info :: "'v TbMedia \<Rightarrow> TbMediaInfoRecord \<Rightarrow> bool \<times> 'v TbMedia" where
  "media_info m rec =
     (let m1 = m\<lparr>md_count := (if mir_count rec \<noteq> 0 then mir_count rec else 1), md_flags := mir_flags rec,
            md_server_state := mir_state rec,
            md_item := snd (tb_copy_id (md_item m) TB_TELEGRAM_ID_SIZE (mir_item rec) False)\<rparr>
      in if mir_state rec = TB_MEDIA_STATE_READY then
           (let m2 = (if mir_tag rec \<noteq> md_tag m1 then m1\<lparr>md_image := tb_image_reset, md_received := 0\<rparr> else m1)
            in (mir_total rec > 0, m2\<lparr>md_tag := mir_tag rec, md_total := mir_total rec, md_phase := TB_MEDIA_TRANSFER\<rparr>))
         else if mir_state rec = TB_MEDIA_STATE_DOWNLOADING \<or> mir_state rec = TB_MEDIA_STATE_PREPARING
         then (True, wait_for m1 (mir_retry_after rec))
         else (True, m1\<lparr>md_phase :=
           (if mir_state rec = TB_MEDIA_STATE_SPOILER then TB_MEDIA_SPOILER
            else if mir_state rec = TB_MEDIA_STATE_RESTRICTED then TB_MEDIA_RESTRICTED
            else if mir_state rec = TB_MEDIA_STATE_UNSUPPORTED then TB_MEDIA_UNSUPPORTED
            else if mir_state rec = TB_MEDIA_STATE_UNAVAILABLE then TB_MEDIA_UNAVAILABLE
            else TB_MEDIA_NONE)\<rparr>))"

text \<open>
  Every round of the loop of \<open>feed\<close> uses at least one byte unless the picture is bad, so that the
  loop ends.
\<close>

lemma feed_header_used:
  "feed_header d bs off = (st, d', n) \<Longrightarrow> st \<noteq> TB_IMAGE_BAD \<Longrightarrow> off \<le> n \<and> (bs \<noteq> [] \<longrightarrow> off < n)"
  by (induction bs arbitrary: d off) (fastforce simp: Let_def split: if_splits option.splits)+

lemma image_feed_used:
  "tb_image_feed d data = (st, d', used) \<Longrightarrow> st \<noteq> TB_IMAGE_BAD \<Longrightarrow> data \<noteq> [] \<Longrightarrow> 0 < used"
  by (auto simp: tb_image_feed_def dest: feed_header_used split: if_splits option.splits)

text \<open>
  The loop on the bytes not yet used: the value the function returns from inside the loop, if any,
  and the bytes that are left. The bytes of a new pixel buffer are not read before they are written.
\<close>

function feed_loop :: "'v TbMedia \<Rightarrow> bytes \<Rightarrow> 'v TbMedia \<times> TbFeed option \<times> bytes" where
  "feed_loop m data =
     (if data = [] then (m, None, [])
      else
        (case tb_image_feed (md_image m) data of
           (status, d, used) \<Rightarrow>
             (let m1 = m\<lparr>md_image := d\<rparr>; rest = drop used data
              in if status = TB_IMAGE_BAD then (m1, Some FEED_CORRUPT, rest)
                 else if status = TB_IMAGE_HEADER_READY then
                   (if ih_tag (im_header d) \<noteq> md_tag m1 \<or> im_size d > md_budget m1 then (m1, Some FEED_CORRUPT, rest)
                    else
                      (case malloc (md_heap m1) (unat (im_size d)) of
                         (ok, h) \<Rightarrow>
                           (if \<not> ok then (m1\<lparr>md_heap := h\<rparr>, Some FEED_MEMORY, rest)
                            else feed_loop (m1\<lparr>md_heap := h,
                                   md_image := d\<lparr>im_pixels := Some (replicate (unat (im_size d)) 0)\<rparr>\<rparr>) rest)))
                 else if status = TB_IMAGE_DONE then (m1, None, rest)
                 else feed_loop m1 rest)))"
  by pat_completeness auto
termination
  by (relation "measure (\<lambda>(m, data). length data)") (auto dest!: image_feed_used [OF sym])

declare feed_loop.simps [simp del]

definition media_feed :: "'v TbMedia \<Rightarrow> TbMediaDataRecord \<Rightarrow> 'v TbMedia \<times> TbFeed" where
  "media_feed m rec =
     (if md_phase m \<noteq> TB_MEDIA_TRANSFER \<or> mdr_offset rec \<noteq> md_received m then (m, FEED_PROTOCOL)
      else
        (case feed_loop m (take (unat (span_length (mdr_data rec))) (span_data (mdr_data rec))) of
           (m1, Some result, _) \<Rightarrow> (m1, result)
         | (m1, None, rest) \<Rightarrow>
             (if rest \<noteq> [] then (m1, FEED_CORRUPT)
              else (m1\<lparr>md_received := md_received m1 + ucast (span_length (mdr_data rec))\<rparr>, FEED_OK))))"

definition media_record ::
  "u8 \<Rightarrow> TbCursor \<Rightarrow> 'v TbMedia \<times> bool \<Rightarrow> ('v TbMedia \<times> bool) \<times> TbFeed option" where
  "media_record t body p =
     (case p of (m, first) \<Rightarrow>
        if t = TB_RECORD_MEDIA_INFO \<and> first then
          (case tb_codec_media_info body of
             None \<Rightarrow> (p, Some FEED_PROTOCOL)
           | Some rec \<Rightarrow>
               (case media_info m rec of (ok, m1) \<Rightarrow> ((m1, False), if ok then None else Some FEED_PROTOCOL)))
        else if t = TB_RECORD_MEDIA_DATA then
          (case tb_codec_media_data body of
             None \<Rightarrow> (p, Some FEED_PROTOCOL)
           | Some rec \<Rightarrow>
               (case media_feed m rec of (m1, result) \<Rightarrow> ((m1, False), if result = FEED_OK then None else Some result)))
        else (p, Some FEED_PROTOCOL))"

definition media_parse :: "'v TbMedia \<Rightarrow> TbResponse \<Rightarrow> 'v TbMedia \<times> TbFeed" where
  "media_parse m r =
     (case records_loop FEED_PROTOCOL FEED_OK media_record (tb_cursor_init (rs_payload r) (rs_length r))
             (m, rs_index r = 0) of
        ((m1, _), result) \<Rightarrow> (m1, result))"

text \<open>What \<open>completed\<close> does with a payload that was refused, and with a final one that was not.\<close>

definition media_refused ::
  "'x TbRequestLayer \<times> 'v TbMedia \<Rightarrow> TbFeed \<Rightarrow> 'x TbRequestLayer \<times> 'v TbMedia" where
  "media_refused p result =
     (case p of (L, m) \<Rightarrow>
        if result = FEED_CORRUPT then media_corrupt (L, m)
        else if result = FEED_MEMORY
        then (L, media_changed ((drop_pixels (m\<lparr>md_pending := 0\<rparr>))\<lparr>md_phase := TB_MEDIA_NO_MEMORY\<rparr>))
        else media_fail (L, m) TB_RESULT_PROTOCOL_ERROR TB_OUTCOME_PROTOCOL)"

definition media_final :: "'x TbRequestLayer \<times> 'v TbMedia \<Rightarrow> 'x TbRequestLayer \<times> 'v TbMedia" where
  "media_final p =
     (case p of (L, m) \<Rightarrow>
        (let m1 = m\<lparr>md_pending := 0\<rparr>
         in if md_phase m1 = TB_MEDIA_TRANSFER then
              (if im_pixels (md_image m1) \<noteq> None \<and> im_filled (md_image m1) = im_size (md_image m1) \<and>
                  md_received m1 = md_total m1
               then (L, media_changed (m1\<lparr>md_phase := TB_MEDIA_READY\<rparr>))
               else media_fail (L, m1) TB_RESULT_PROTOCOL_ERROR TB_OUTCOME_PROTOCOL)
            else (L, media_changed m1)))"

definition media_completed ::
  "u32 \<Rightarrow> TbResponse \<Rightarrow> 'x TbRequestLayer \<times> 'v TbMedia \<Rightarrow> 'x TbRequestLayer \<times> 'v TbMedia" where
  "media_completed q r p =
     (case p of (L, m) \<Rightarrow>
        if q \<noteq> md_pending m \<or> rs_outcome r = TB_OUTCOME_CANCELLED then (L, m)
        else if rs_outcome r \<noteq> TB_OUTCOME_RESPONSE \<or> rs_result r \<noteq> TB_RESULT_OK then
          media_fail (if \<not> rs_final r then (cancel_request L q, m\<lparr>md_pending := 0\<rparr>) else (L, m))
            (tb_error_from_response r) (rs_outcome r)
        else
          (case media_parse m r of
             (m1, result) \<Rightarrow>
               if result \<noteq> FEED_OK
               then media_refused (if \<not> rs_final r then (cancel_request L q, m1\<lparr>md_pending := 0\<rparr>) else (L, m1)) result
               else if rs_final r then media_final (L, m1)
               else (L, media_changed m1)))"

definition tb_media_init :: "'v TbViewPorts \<Rightarrow> 'v \<Rightarrow> 'v TbMediaConfig \<Rightarrow> heap \<Rightarrow> 'v TbMedia" where
  "tb_media_init ports context config h =
     \<lparr>md_ports = ports, md_context = context, md_heap = h, md_config = config, md_account = [], md_chat = [],
      md_message = [], md_item = [], md_index = 0, md_count = 0, md_flags = 0, md_server_state = 0, md_reveal = False,
      md_revealed = False, md_phase = TB_MEDIA_NONE, md_error = 0, md_pending = 0, md_tag = 0, md_total = 0,
      md_received = 0, md_budget = 0, md_resumes = 0, md_crc_retry = False, md_started = 0, md_due = 0,
      md_image = tb_image_reset, md_revision = 0\<rparr>"

definition tb_media_bound :: "'v TbMedia \<Rightarrow> cstring \<Rightarrow> cstring \<Rightarrow> cstring \<Rightarrow> bool" where
  "tb_media_bound m account chat message \<longleftrightarrow>
     md_account m \<noteq> [] \<and> md_account m = account \<and> md_chat m = chat \<and> md_message m = message"

definition initial_phase :: "u8 \<Rightarrow> TbMediaPhase" where
  "initial_phase flags =
     (if \<not> has_flag flags TB_MEDIA_FLAG_IMAGE
      then (if has_flag flags TB_MEDIA_FLAG_RESTRICTED then TB_MEDIA_RESTRICTED else TB_MEDIA_NONE)
      else if has_flag flags TB_MEDIA_FLAG_RESTRICTED then TB_MEDIA_RESTRICTED
      else if has_flag flags TB_MEDIA_FLAG_SPOILER then TB_MEDIA_SPOILER else TB_MEDIA_IDLE)"

definition tb_media_release :: "'x TbRequestLayer \<times> 'v TbMedia \<Rightarrow> 'x TbRequestLayer \<times> 'v TbMedia" where
  "tb_media_release p =
     (case cancel_pending p of (L, m) \<Rightarrow>
        (let m1 = drop_pixels (m\<lparr>md_context := vp_cancel (md_ports m) (md_context m), md_due := 0\<rparr>)
         in (L, if md_phase m1 \<in> {TB_MEDIA_LOADING, TB_MEDIA_WAITING, TB_MEDIA_TRANSFER, TB_MEDIA_READY}
                then m1\<lparr>md_phase := TB_MEDIA_IDLE\<rparr> else m1)))"

definition tb_media_close :: "'x TbRequestLayer \<times> 'v TbMedia \<Rightarrow> 'x TbRequestLayer \<times> 'v TbMedia" where
  "tb_media_close p =
     (case tb_media_release p of (L, m) \<Rightarrow>
        (L, m\<lparr>md_account := [], md_chat := [], md_message := [], md_item := [], md_index := 0, md_count := 0,
              md_flags := 0, md_reveal := False, md_revealed := False, md_phase := TB_MEDIA_NONE,
              md_error := TB_ERROR_NONE\<rparr>))"

definition tb_media_bind ::
  "'x TbRequestLayer \<times> 'v TbMedia \<Rightarrow> cstring \<Rightarrow> cstring \<Rightarrow> cstring \<Rightarrow> u8 \<Rightarrow> u8 \<Rightarrow> 'x TbRequestLayer \<times> 'v TbMedia" where
  "tb_media_bind p account chat message flags count =
     (if tb_media_bound (snd p) account chat message then p
      else
        (case tb_media_close p of (L, m) \<Rightarrow>
           (L, media_changed (m\<lparr>md_account := strncpy TB_ACCOUNT_ID_SIZE account, md_chat := strncpy TB_TELEGRAM_ID_SIZE chat,
              md_message := strncpy TB_TELEGRAM_ID_SIZE message, md_flags := flags,
              md_count := (if count \<noteq> 0 then count else 1), md_index := 0, md_phase := initial_phase flags\<rparr>))))"

definition tb_media_load :: "'x TbRequestLayer \<times> 'v TbMedia \<Rightarrow> 'x TbRequestLayer \<times> 'v TbMedia" where
  "tb_media_load p =
     (case p of (L, m) \<Rightarrow>
        if md_account m = [] \<or> md_phase m = TB_MEDIA_NONE \<or> md_phase m = TB_MEDIA_RESTRICTED then (L, m)
        else if md_phase m = TB_MEDIA_SPOILER \<and> \<not> md_reveal m then (L, m)
        else if md_pending m \<noteq> 0 \<or> md_phase m = TB_MEDIA_READY \<or> md_phase m = TB_MEDIA_WAITING then (L, m)
        else media_start (L, m\<lparr>md_crc_retry := False\<rparr>))"

definition tb_media_show :: "'x TbRequestLayer \<times> 'v TbMedia \<Rightarrow> u8 \<Rightarrow> 'x TbRequestLayer \<times> 'v TbMedia" where
  "tb_media_show p index =
     (if md_account (snd p) = [] \<or> index \<ge> md_count (snd p) \<or> index = md_index (snd p) then p
      else
        (case tb_media_release p of (L, m) \<Rightarrow>
           (case tb_media_load (L, m\<lparr>md_index := index, md_reveal := False,
                   md_phase := (if has_flag (md_flags m) TB_MEDIA_FLAG_RESTRICTED then TB_MEDIA_RESTRICTED else TB_MEDIA_IDLE)\<rparr>) of
              (L1, m1) \<Rightarrow> (L1, media_changed m1))))"

definition tb_media_reveal :: "'x TbRequestLayer \<times> 'v TbMedia \<Rightarrow> 'x TbRequestLayer \<times> 'v TbMedia" where
  "tb_media_reveal p =
     (case p of (L, m) \<Rightarrow>
        if md_phase m \<noteq> TB_MEDIA_SPOILER then (L, m)
        else media_start (L, m\<lparr>md_reveal := True, md_revealed := True, md_phase := TB_MEDIA_IDLE, md_crc_retry := False\<rparr>))"

definition tb_media_retry :: "'x TbRequestLayer \<times> 'v TbMedia \<Rightarrow> 'x TbRequestLayer \<times> 'v TbMedia" where
  "tb_media_retry p =
     (case p of (L, m) \<Rightarrow>
        if md_phase m \<noteq> TB_MEDIA_ERROR \<and> md_phase m \<noteq> TB_MEDIA_NO_MEMORY \<and> md_phase m \<noteq> TB_MEDIA_UNAVAILABLE then (L, m)
        else media_start (L, m\<lparr>md_crc_retry := False\<rparr>))"

definition tb_media_timer :: "'x TbRequestLayer \<times> 'v TbMedia \<Rightarrow> 'x TbRequestLayer \<times> 'v TbMedia" where
  "tb_media_timer p =
     (case p of (L, m) \<Rightarrow>
        if md_phase m \<noteq> TB_MEDIA_WAITING \<or> md_due m = 0 then (L, m)
        else if \<not> reached (media_now m) (md_due m)
        then (L, m\<lparr>md_context := snd (vp_schedule (md_ports m) (md_context m) (md_due m - media_now m))\<rparr>)
        else
          (case media_submit (L, m\<lparr>md_due := 0, md_phase := TB_MEDIA_LOADING\<rparr>) 0 of
             (L1, m1) \<Rightarrow> (L1, media_changed m1)))"

definition tb_media_percent :: "'v TbMedia \<Rightarrow> u8" where
  "tb_media_percent m =
     (if md_total m = 0 then 0
      else let percent = md_received m * 100 div md_total m in if percent > 100 then 100 else ucast percent)"

definition tb_media_has_image :: "'v TbMedia \<Rightarrow> bool" where
  "tb_media_has_image m \<longleftrightarrow> im_pixels (md_image m) \<noteq> None \<and> im_header_ready (md_image m)"

definition tb_media_busy :: "'v TbMedia \<Rightarrow> bool" where
  "tb_media_busy m \<longleftrightarrow> md_phase m = TB_MEDIA_LOADING \<or> md_phase m = TB_MEDIA_WAITING \<or> md_phase m = TB_MEDIA_TRANSFER"

section \<open>Invariant\<close>

text \<open>
  A decoder between two records: once its header is complete it has a pixel buffer of the announced
  size, and this size is within the budget that was asked for.
\<close>

definition media_image_ok :: "u16 \<Rightarrow> TbImageDecoder \<Rightarrow> bool" where
  "media_image_ok budget d \<longleftrightarrow> image_ok d \<and>
     (if im_header_ready d then im_pixels d \<noteq> None \<and> im_size d \<le> budget else im_pixels d = None \<and> im_filled d = 0)"

lemma media_image_reset [simp]: "media_image_ok b tb_image_reset"
  by (simp add: media_image_ok_def image_ok_def tb_image_reset_def)

lemma parse_header_frame:
  "parse_header d = Some d' \<Longrightarrow> im_pixels d' = im_pixels d \<and> im_filled d' = im_filled d"
  unfolding parse_header_def Let_def by (metis (no_types, lifting) TbImageDecoder.select_convs(4,6) TbImageDecoder.surjective
      TbImageDecoder.update_convs(1,5) option.distinct(1) option.inject)

lemma feed_header_frame:
  "feed_header d bs off = (st, d', n) \<Longrightarrow> st \<noteq> TB_IMAGE_BAD \<Longrightarrow> \<not> im_header_ready d \<Longrightarrow>
   im_pixels d' = im_pixels d \<and> im_filled d' = im_filled d \<and> st \<noteq> TB_IMAGE_DONE \<and>
   (im_header_ready d' \<longleftrightarrow> st = TB_IMAGE_HEADER_READY)"
proof (induction bs arbitrary: d off)
  case (Cons b bs)
  define d1 where "d1 = d\<lparr>im_head := im_head d @ [b]\<rparr>"
  have fr: "im_pixels d1 = im_pixels d" "im_filled d1 = im_filled d" "\<not> im_header_ready d1"
    using Cons.prems(3) by (simp_all add: d1_def)
  have "feed_header d (b # bs) off =
      (if length (im_head d1) = TB_IMAGE_HEADER_SIZE \<and> \<not> header_valid (im_head d1) then (TB_IMAGE_BAD, d1, 0)
       else if length (im_head d1) \<ge> TB_IMAGE_HEADER_SIZE \<and>
               length (im_head d1) = TB_IMAGE_HEADER_SIZE + unat (im_head d1 ! 5)
       then (case parse_header d1 of
               None \<Rightarrow> (TB_IMAGE_BAD, d1, 0)
             | Some d2 \<Rightarrow> (TB_IMAGE_HEADER_READY, d2\<lparr>im_header_ready := True\<rparr>, off + 1))
       else feed_header d1 bs (off + 1))"
    unfolding feed_header.simps(2) Let_def d1_def ..
  then consider d2 where "parse_header d1 = Some d2" "st = TB_IMAGE_HEADER_READY" "d' = d2\<lparr>im_header_ready := True\<rparr>"
    | "feed_header d1 bs (off + 1) = (st, d', n)"
    using Cons.prems(1,2) by (auto split: if_splits option.splits)
  then show ?case
  proof cases
    case 1
    then show ?thesis using parse_header_frame [OF 1(1)] fr by simp
  next
    case 2
    then show ?thesis using Cons.IH [OF 2 Cons.prems(2) fr(3)] fr by simp
  qed
qed simp

lemma image_feed_keeps:
  assumes ok: "media_image_ok b d" and f: "tb_image_feed d data = (st, d', used)" and st: "st \<noteq> TB_IMAGE_BAD"
  shows "st \<noteq> TB_IMAGE_HEADER_READY \<Longrightarrow> media_image_ok b d'"
    and "st = TB_IMAGE_HEADER_READY \<Longrightarrow> im_size d' \<le> b \<Longrightarrow>
      media_image_ok b (d'\<lparr>im_pixels := Some (replicate (unat (im_size d')) 0)\<rparr>)"
proof -
  show "media_image_ok b d'" if "st \<noteq> TB_IMAGE_HEADER_READY"
  proof (cases "im_header_ready d")
    case True
    then have p: "feed_pixels d data = Some d'"
      using f st by (cases "im_pixels d"; cases "feed_pixels d data") (simp_all add: tb_image_feed_def)
    have "image_ok d'" using feed_pixels_ok [OF p] ok True by (simp add: media_image_ok_def)
    then show ?thesis using feed_pixels_frame [OF p] ok True by (simp add: media_image_ok_def image_frame_def)
  next
    case False
    then have h: "feed_header d data 0 = (st, d', used)" using f by (simp add: tb_image_feed_def)
    show ?thesis using feed_header_ok [OF h] feed_header_frame [OF h st] False ok st that
      by (auto simp: media_image_ok_def)
  qed
  show "media_image_ok b (d'\<lparr>im_pixels := Some (replicate (unat (im_size d')) 0)\<rparr>)"
    if hr: "st = TB_IMAGE_HEADER_READY" "im_size d' \<le> b"
  proof -
    have nr: "\<not> im_header_ready d"
      using f hr(1) by (cases "im_pixels d"; cases "feed_pixels d data") (auto simp: tb_image_feed_def split: if_splits)
    then have h: "feed_header d data 0 = (st, d', used)" using f by (simp add: tb_image_feed_def)
    show ?thesis using feed_header_ok [OF h] feed_header_frame [OF h st] nr ok st hr
      by (auto simp: media_image_ok_def image_ok_def)
  qed
qed

text \<open>The loop of \<open>feed\<close> changes the decoder and the heap only, and leaves a decoder in use.\<close>

lemma feed_loop_ok:
  "feed_loop m data = (m', r, rest) \<Longrightarrow> media_image_ok (md_budget m) (md_image m) \<Longrightarrow>
   m' = m\<lparr>md_image := md_image m', md_heap := md_heap m'\<rparr> \<and> r \<noteq> Some FEED_OK \<and> r \<noteq> Some FEED_PROTOCOL \<and>
   (r = None \<longrightarrow> media_image_ok (md_budget m) (md_image m'))"
proof (induction data arbitrary: m m' r rest rule: length_induct)
  case (1 data)
  show ?case
  proof (cases "data = []")
    case True
    then show ?thesis using "1.prems" by (auto simp: feed_loop.simps)
  next
    case False
    obtain st d used where f: "tb_image_feed (md_image m) data = (st, d, used)" by (metis prod_cases3)
    obtain ok h where a: "malloc (md_heap m) (unat (im_size d)) = (ok, h)" by fastforce
    note eq = feed_loop.simps [of m data, unfolded f Let_def, simplified prod.case if_not_P [OF False]]
    show ?thesis
    proof (cases "st = TB_IMAGE_BAD")
      case True
      then show ?thesis using "1.prems"(1) eq by auto
    next
      case good: False
      note k = image_feed_keeps [OF "1.prems"(2) f good]
      have len: "length (drop used data) < length data" using image_feed_used [OF f good False] False by simp
      note IH = "1.IH" [rule_format, OF len]
      show ?thesis
      proof (cases "st = TB_IMAGE_HEADER_READY")
        case True
        define m2 where "m2 = m\<lparr>md_heap := h, md_image := d\<lparr>im_pixels := Some (replicate (unat (im_size d)) 0)\<rparr>\<rparr>"
        have m2: "md_budget m2 = md_budget m" "m2\<lparr>md_image := x, md_heap := y\<rparr> = m\<lparr>md_image := x, md_heap := y\<rparr>" for x y
          by (simp_all add: m2_def)
        show ?thesis
          using "1.prems"(1) eq True a k(2) [OF True] IH [of m2 m' r rest] m2
          by (auto simp: not_less simp flip: m2_def split: if_splits) (auto simp: m2_def)
      next
        case False
        then show ?thesis
          using "1.prems"(1) eq good k(1) IH [of "m\<lparr>md_image := d\<rparr>" m' r rest] by (auto split: if_splits)
      qed
    qed
  qed
qed

text \<open>What the records of an answer leave alone.\<close>

definition same_media :: "'v TbMedia \<Rightarrow> 'v TbMedia \<Rightarrow> bool" where
  "same_media m m' \<longleftrightarrow> md_pending m' = md_pending m \<and> md_resumes m' = md_resumes m \<and>
     md_crc_retry m' = md_crc_retry m \<and> md_budget m' = md_budget m \<and> md_config m' = md_config m \<and>
     (md_phase m \<noteq> TB_MEDIA_READY \<longrightarrow> md_phase m' \<noteq> TB_MEDIA_READY)"

lemma same_media_refl [simp]: "same_media m m"
  by (simp add: same_media_def)

lemma same_media_trans: "same_media a b \<Longrightarrow> same_media b c \<Longrightarrow> same_media a c"
  by (simp add: same_media_def)

lemma media_feed_ok:
  assumes "media_feed m rec = (m', result)" and "media_image_ok (md_budget m) (md_image m)"
  shows "same_media m m'" and "result = FEED_OK \<or> result = FEED_PROTOCOL \<Longrightarrow> media_image_ok (md_budget m) (md_image m')"
proof -
  obtain m1 r rest where l: "feed_loop m (take (unat (span_length (mdr_data rec))) (span_data (mdr_data rec))) = (m1, r, rest)"
    by (metis prod_cases3)
  note k = feed_loop_ok [OF l assms(2)]
  have "same_media m (m\<lparr>md_image := x, md_heap := y\<rparr>)" for x y by (simp add: same_media_def)
  then have fr: "same_media m m1" using k by metis
  then have "same_media m (m1\<lparr>md_received := n\<rparr>)" for n by (simp add: same_media_def)
  with fr show "same_media m m'"
    using assms(1) l by (auto simp: media_feed_def split: if_splits option.splits)
  show "media_image_ok (md_budget m) (md_image m')" if "result = FEED_OK \<or> result = FEED_PROTOCOL"
    using that assms l k by (auto simp: media_feed_def split: if_splits option.splits)
qed

lemma wait_for_frame: "same_media m (wait_for m n)" "md_image (wait_for m n) = md_image m"
  by (simp_all add: wait_for_def same_media_def Let_def)

lemma media_info_ok:
  assumes "media_info m rec = (ok, m')"
  shows "same_media m m'" and "media_image_ok (md_budget m) (md_image m) \<Longrightarrow> media_image_ok (md_budget m) (md_image m')"
proof -
  define m1 where "m1 = m\<lparr>md_count := (if mir_count rec \<noteq> 0 then mir_count rec else 1), md_flags := mir_flags rec,
      md_server_state := mir_state rec, md_item := snd (tb_copy_id (md_item m) TB_TELEGRAM_ID_SIZE (mir_item rec) False)\<rparr>"
  have m1: "same_media m m1" "md_image m1 = md_image m" "md_phase m1 = md_phase m" by (simp_all add: m1_def same_media_def)
  then have "same_media m (m1\<lparr>md_phase := ph\<rparr>)" "same_media m (m1\<lparr>md_tag := t, md_total := n, md_phase := ph\<rparr>)"
    "same_media m (m1\<lparr>md_image := x, md_received := y, md_tag := t, md_total := n, md_phase := ph\<rparr>)"
    "same_media m (m1\<lparr>md_total := n, md_phase := ph\<rparr>)"
    if "ph \<noteq> TB_MEDIA_READY" for ph t n x y
    using that by (simp_all add: same_media_def)
  then show "same_media m m'"
    using assms same_media_trans [OF m1(1) wait_for_frame(1)]
    by (auto simp: media_info_def Let_def simp flip: m1_def split: if_splits)
  show "media_image_ok (md_budget m) (md_image m) \<Longrightarrow> media_image_ok (md_budget m) (md_image m')"
    using assms m1(2) by (auto simp: media_info_def Let_def wait_for_frame simp flip: m1_def split: if_splits)
qed

lemma media_record_ok:
  assumes inv: "same_media m0 m" "media_image_ok (md_budget m0) (md_image m)"
    and step: "media_record t body (m, first) = ((m', first'), r)"
  shows "same_media m0 m' \<and> (r \<noteq> Some FEED_CORRUPT \<and> r \<noteq> Some FEED_MEMORY \<longrightarrow> media_image_ok (md_budget m0) (md_image m'))"
proof -
  have b: "md_budget m = md_budget m0" using inv(1) by (simp add: same_media_def)
  obtain ok mi where i: "media_info m (the (tb_codec_media_info body)) = (ok, mi)" by fastforce
  obtain mf res where f: "media_feed m (the (tb_codec_media_data body)) = (mf, res)" by fastforce
  have oki: "same_media m0 mi" "media_image_ok (md_budget m0) (md_image mi)"
    using media_info_ok [OF i] inv b same_media_trans by auto
  have okf: "same_media m0 mf" "res = FEED_OK \<or> res = FEED_PROTOCOL \<Longrightarrow> media_image_ok (md_budget m0) (md_image mf)"
    using media_feed_ok [OF f] inv b same_media_trans by auto
  show ?thesis
    using step i f inv oki okf
    by (cases "tb_codec_media_info body"; cases "tb_codec_media_data body"; cases res) (auto simp: media_record_def split: if_splits)
qed

interpretation media_parser: record_parser media_record
  "\<lambda>(m, first). same_media m0 m \<and> media_image_ok (md_budget m0) (md_image m)"
  "\<lambda>result (m, first). same_media m0 m \<and>
     (result = FEED_OK \<or> result = FEED_PROTOCOL \<longrightarrow> media_image_ok (md_budget m0) (md_image m))" for m0
proof (unfold_locales, goal_cases)
  case (1 s body t s')
  then show ?case using media_record_ok [of m0 "fst s" t body "snd s" "fst s'" "snd s'" None] by (simp add: case_prod_beta)
next
  case (2 s body t s' r)
  then show ?case using media_record_ok [of m0 "fst s" t body "snd s" "fst s'" "snd s'" "Some r"] by (auto simp: case_prod_beta)
qed

lemma media_parse_ok:
  assumes "media_image_ok (md_budget m) (md_image m)" and "response_ok r" and "media_parse m r = (m', result)"
  shows "same_media m m'" and "result = FEED_OK \<or> result = FEED_PROTOCOL \<Longrightarrow> media_image_ok (md_budget m) (md_image m')"
  using media_parser.loop_post [OF response_cursor [OF assms(2)], of m "(m, rs_index r = 0)" FEED_PROTOCOL FEED_OK] assms(1,3)
  by (auto simp: media_parse_def split: prod.splits)

text \<open>The whole state: what was asked for, and what each phase means.\<close>

definition budget_ok :: "'v TbMedia \<Rightarrow> bool" where
  "budget_ok m \<longleftrightarrow> md_budget m \<le> mcf_max_budget (md_config m) \<and> unat (md_budget m) mod 1024 = 0"

definition media_core :: "'v TbMedia \<Rightarrow> bool" where
  "media_core m \<longleftrightarrow> md_resumes m \<le> TB_MEDIA_RESUMES \<and> budget_ok m \<and> media_image_ok (md_budget m) (md_image m)"

definition media_inv :: "'v TbMedia \<Rightarrow> bool" where
  "media_inv m \<longleftrightarrow> media_core m \<and> (md_phase m = TB_MEDIA_TRANSFER \<longrightarrow> md_pending m \<noteq> 0) \<and>
     (md_phase m = TB_MEDIA_READY \<longrightarrow> md_pending m = 0 \<and> im_pixels (md_image m) \<noteq> None \<and>
        im_filled (md_image m) = im_size (md_image m) \<and> md_received m = md_total m)"

lemma media_changed_frame [simp]:
  "media_inv (media_changed m) = media_inv m" "md_pending (media_changed m) = md_pending m"
  "md_phase (media_changed m) = md_phase m" "md_resumes (media_changed m) = md_resumes m"
  "md_crc_retry (media_changed m) = md_crc_retry m" "md_image (media_changed m) = md_image m"
  "md_received (media_changed m) = md_received m" "md_total (media_changed m) = md_total m"
  "media_core (media_changed m) = media_core m" "md_budget (media_changed m) = md_budget m"
  by (simp_all add: media_changed_def media_inv_def media_core_def budget_ok_def)

lemma media_core_frame [simp]:
  "media_core (m\<lparr>md_pending := q\<rparr>) = media_core m" "media_core (m\<lparr>md_phase := ph\<rparr>) = media_core m"
  "media_core (m\<lparr>md_error := e\<rparr>) = media_core m" "media_core (m\<lparr>md_crc_retry := c\<rparr>) = media_core m"
  "media_core (m\<lparr>md_due := d\<rparr>) = media_core m" "media_core (m\<lparr>md_context := v\<rparr>) = media_core m"
  "media_core (m\<lparr>md_started := t\<rparr>) = media_core m" "media_core (m\<lparr>md_index := i\<rparr>) = media_core m"
  "media_core (m\<lparr>md_reveal := b\<rparr>) = media_core m" "media_core (m\<lparr>md_revealed := b\<rparr>) = media_core m"
  "media_core (m\<lparr>md_flags := f\<rparr>) = media_core m" "media_core (m\<lparr>md_count := n\<rparr>) = media_core m"
  "media_core (m\<lparr>md_account := a\<rparr>) = media_core m" "media_core (m\<lparr>md_chat := a\<rparr>) = media_core m"
  "media_core (m\<lparr>md_message := a\<rparr>) = media_core m" "media_core (m\<lparr>md_item := a\<rparr>) = media_core m"
  by (simp_all add: media_core_def budget_ok_def)

lemma media_submit_inv:
  assumes "media_core m" and "md_phase m \<noteq> TB_MEDIA_READY"
  shows "media_inv (snd (media_submit (L, m) offset))"
  using assms by (simp add: media_submit_def Let_def media_inv_def split: prod.split)

lemma media_submit_layer [tb_inv]: "requests_inv L \<Longrightarrow> requests_inv (fst (media_submit (L, m) offset))"
  by (simp add: media_submit_def Let_def case_prod_beta submit_inv)

lemma media_submit_frame [simp]:
  "md_resumes (snd (media_submit (L, m) offset)) = md_resumes m"
  "md_crc_retry (snd (media_submit (L, m) offset)) = md_crc_retry m"
  by (simp_all add: media_submit_def Let_def split: prod.split)

lemma cancel_pending_eq: "snd (cancel_pending p) = (snd p)\<lparr>md_pending := 0\<rparr>"
  by (cases p, cases "snd p") (simp add: cancel_pending_def)

lemma cancel_pending_layer [tb_inv]: "requests_inv (fst p) \<Longrightarrow> requests_inv (fst (cancel_pending p))"
  by (cases p) (simp add: cancel_pending_def tb_inv submit_inv)

lemma media_budget_le: "media_budget m \<le> unat (mcf_max_budget (md_config m))"
  by (simp add: media_budget_def Let_def)

lemma budget_okI:
  "n \<le> unat (mcf_max_budget (md_config m)) \<Longrightarrow> unat w = n \<Longrightarrow> n mod 1024 = 0 \<Longrightarrow> budget_ok (m\<lparr>md_budget := w\<rparr>)"
  by (simp add: budget_ok_def word_le_nat_alt)

lemma media_start_layer [tb_inv]: "requests_inv (fst p) \<Longrightarrow> requests_inv (fst (media_start p))"
  by (simp add: media_start_def case_prod_beta Let_def tb_inv)

lemma media_start_ok:
  assumes "budget_ok m"
  shows "media_inv (snd (media_start (L, m)))" and "md_resumes (snd (media_start (L, m))) = 0"
    and "md_crc_retry (snd (media_start (L, m))) = md_crc_retry m"
proof -
  obtain L0 m0 where k: "cancel_pending (L, m) = (L0, m0)" by fastforce
  have m0: "m0 = m\<lparr>md_pending := 0\<rparr>" using cancel_pending_eq [of "(L, m)"] k by simp
  define m1 where "m1 = (drop_pixels m0)\<lparr>md_context := vp_cancel (md_ports (drop_pixels m0)) (md_context (drop_pixels m0)),
      md_due := 0, md_resumes := 0\<rparr>"
  have m1: "md_resumes m1 = 0" "md_crc_retry m1 = md_crc_retry m" "md_image m1 = tb_image_reset" "budget_ok m1" "md_pending m1 = 0"
    using assms by (simp_all add: m1_def m0 drop_pixels_def budget_ok_def)
  then have core: "media_core m1" by (simp add: media_core_def)
  define b where "b = media_budget m1"
  have b: "b \<le> unat (mcf_max_budget (md_config m1))" using media_budget_le [of m1] by (simp add: b_def)
  then have "b - b mod 1024 \<le> unat (mcf_max_budget (md_config m1))" by linarith
  moreover have "unat (of_nat (b - b mod 1024) :: u16) = b - b mod 1024"
    using b unat_u16_less [of "mcf_max_budget (md_config m1)"] by (intro unat_of_nat_u16) linarith
  moreover have "(b - b mod 1024) mod 1024 = 0" by (simp add: minus_mod_eq_mult_div)
  ultimately have "budget_ok (m1\<lparr>md_budget := of_nat (b - b mod 1024)\<rparr>)" by (intro budget_okI)
  then have core2: "media_core (m1\<lparr>md_budget := of_nat (b - b mod 1024), md_started := t, md_phase := ph\<rparr>)" for t ph
    using m1 by (simp add: media_core_def budget_ok_def)
  have sub: "media_inv (snd (media_submit (L0, m1\<lparr>md_budget := of_nat (b - b mod 1024), md_started := t, md_phase := TB_MEDIA_LOADING\<rparr>) 0))" for t
    by (rule media_submit_inv [OF core2]) simp
  note ev = media_start_def k prod.case Let_def m1_def [symmetric] b_def [symmetric]
  show "media_inv (snd (media_start (L, m)))"
    unfolding ev using sub [of "media_now m1"] core m1(5) by (simp add: case_prod_beta media_inv_def [of "m1\<lparr>md_phase := TB_MEDIA_NO_MEMORY\<rparr>"])
  show "md_resumes (snd (media_start (L, m))) = 0" "md_crc_retry (snd (media_start (L, m))) = md_crc_retry m"
    unfolding ev by (simp_all add: case_prod_beta m1)
qed

text \<open>
  The automatic requests that are left: two resumptions of the transfer, and one fresh start with
  two resumptions of its own.
\<close>

definition media_fuel :: "'v TbMedia \<Rightarrow> nat" where
  "media_fuel m = (if md_crc_retry m then 0 else 3) + (2 - unat (md_resumes m))"

lemma media_fuel_frame [simp]: "media_fuel (m\<lparr>md_pending := q\<rparr>) = media_fuel m" "media_fuel (media_changed m) = media_fuel m"
  by (simp_all add: media_fuel_def)

text \<open>What every reaction to an answer guarantees: the invariant, and fuel for every new request.\<close>

definition media_reacts :: "'x TbRequestLayer \<Rightarrow> 'v TbMedia \<Rightarrow> 'x TbRequestLayer \<times> 'v TbMedia \<Rightarrow> bool" where
  "media_reacts L m p \<longleftrightarrow> media_inv (snd p) \<and> media_fuel (snd p) \<le> media_fuel m \<and>
     (fst p = L \<and> md_pending (snd p) \<in> {0, md_pending m} \<or> media_fuel (snd p) < media_fuel m)"

lemma media_reacts_frame:
  "media_fuel x = media_fuel m \<Longrightarrow> md_pending x \<in> {0, md_pending m} \<Longrightarrow> media_reacts L x p \<Longrightarrow> media_reacts L m p"
  by (auto simp: media_reacts_def)

lemma media_fail_ok:
  assumes "media_core m"
  shows "media_reacts L m (media_fail (L, m) error outcome)"
proof (cases "(outcome = TB_OUTCOME_TIMEOUT \<or> outcome = TB_OUTCOME_UNREACHABLE \<or> outcome = TB_OUTCOME_PROTOCOL) \<and>
    md_phase m = TB_MEDIA_TRANSFER \<and> md_received m > 0 \<and> md_resumes m < TB_MEDIA_RESUMES")
  case True
  define m1 where "m1 = m\<lparr>md_pending := 0, md_resumes := md_resumes m + 1\<rparr>"
  have n: "unat (md_resumes m + 1) = Suc (unat (md_resumes m))" "unat (md_resumes m) < 2"
    using True unat_plus_no_wrap [of "md_resumes m" 1] by (simp_all add: word_less_nat_alt)
  then have "media_core m1" using assms by (simp add: media_core_def budget_ok_def m1_def word_le_nat_alt)
  then have "media_inv (snd (media_submit (L, m1) (md_received m)))"
    using True by (intro media_submit_inv) (simp_all add: m1_def)
  moreover have "media_fail (L, m) error outcome =
      (fst (media_submit (L, m1) (md_received m)), media_changed (snd (media_submit (L, m1) (md_received m))))"
    using True by (simp add: media_fail_def Let_def case_prod_beta m1_def)
  moreover have "media_fuel (snd (media_submit (L, m1) (md_received m))) < media_fuel m"
    using n by (simp add: media_fuel_def m1_def)
  ultimately show ?thesis by (simp add: media_reacts_def)
next
  case False
  then have "media_fail (L, m) error outcome = (L, media_changed (m\<lparr>md_pending := 0,
      md_phase := (if error = TB_RESULT_MESSAGE_UNAVAILABLE then TB_MEDIA_UNAVAILABLE else TB_MEDIA_ERROR), md_error := error\<rparr>))"
    by (auto simp: media_fail_def Let_def)
  then show ?thesis using assms by (simp add: media_reacts_def media_inv_def media_fuel_def)
qed

lemma media_fail_layer [tb_inv]: "requests_inv (fst p) \<Longrightarrow> requests_inv (fst (media_fail p error outcome))"
  by (cases p) (simp add: media_fail_def Let_def case_prod_beta tb_inv)

lemma media_corrupt_ok:
  assumes "budget_ok m" and "md_resumes m \<le> TB_MEDIA_RESUMES"
  shows "media_reacts L m (media_corrupt (L, m))"
proof (cases "md_crc_retry m")
  case True
  have "media_core ((drop_pixels (m\<lparr>md_pending := 0\<rparr>))\<lparr>md_phase := ph, md_error := e\<rparr>)" for ph e
    using assms by (simp add: media_core_def drop_pixels_def budget_ok_def)
  then show ?thesis using True
    by (simp add: media_corrupt_def Let_def media_reacts_def media_inv_def) (simp add: media_fuel_def drop_pixels_def)
next
  case False
  have "budget_ok (m\<lparr>md_pending := 0, md_crc_retry := True\<rparr>)" using assms by (simp add: budget_ok_def)
  from media_start_ok [OF this, of L] show ?thesis using False
    by (simp add: media_corrupt_def Let_def media_reacts_def media_fuel_def)
qed

lemma media_corrupt_layer [tb_inv]: "requests_inv (fst p) \<Longrightarrow> requests_inv (fst (media_corrupt p))"
  by (cases p) (simp add: media_corrupt_def Let_def tb_inv)

lemma media_refused_ok:
  assumes "budget_ok m" and "md_resumes m \<le> TB_MEDIA_RESUMES" and "result = FEED_PROTOCOL \<Longrightarrow> media_core m"
    and "result \<noteq> FEED_OK"
  shows "media_reacts L m (media_refused (L, m) result)"
proof (cases result)
  case FEED_MEMORY
  have "media_core ((drop_pixels (m\<lparr>md_pending := 0\<rparr>))\<lparr>md_phase := ph\<rparr>)" for ph
    using assms(1,2) by (simp add: media_core_def drop_pixels_def budget_ok_def)
  then show ?thesis
    by (simp add: FEED_MEMORY media_refused_def media_reacts_def media_inv_def) (simp add: media_fuel_def drop_pixels_def)
qed (use assms media_corrupt_ok [OF assms(1,2), of L] media_fail_ok [of m L] in \<open>simp_all add: media_refused_def\<close>)

lemma media_refused_layer [tb_inv]: "requests_inv (fst p) \<Longrightarrow> requests_inv (fst (media_refused p result))"
  by (cases p) (simp add: media_refused_def tb_inv)

lemma media_final_ok:
  assumes "media_core m" and "md_phase m \<noteq> TB_MEDIA_READY"
  shows "media_reacts L m (media_final (L, m))"
proof -
  define m1 where "m1 = m\<lparr>md_pending := 0\<rparr>"
  have m1: "media_core m1" "md_pending m1 = 0" "media_fuel m1 = media_fuel m" "md_phase m1 \<noteq> TB_MEDIA_READY"
    using assms by (simp_all add: m1_def)
  have "media_reacts L m1 (media_fail (L, m1) e u)" for e u using media_fail_ok [OF m1(1)] .
  then have bad: "media_reacts L m (media_fail (L, m1) e u)" for e u
    using m1(2,3) by (intro media_reacts_frame [of m1 m L]) simp_all
  have good: "media_reacts L m (L, media_changed (m1\<lparr>md_phase := TB_MEDIA_READY\<rparr>))"
    if "im_pixels (md_image m1) \<noteq> None" "im_filled (md_image m1) = im_size (md_image m1)" "md_received m1 = md_total m1"
    using that m1 by (simp add: media_reacts_def media_inv_def) (simp add: media_fuel_def)
  have other: "media_reacts L m (L, media_changed m1)" if "md_phase m1 \<noteq> TB_MEDIA_TRANSFER"
    using that m1 by (simp add: media_reacts_def media_inv_def)
  show ?thesis
    unfolding media_final_def prod.case Let_def m1_def [symmetric]
    using bad good other by (cases "md_phase m1 = TB_MEDIA_TRANSFER") simp_all
qed

lemma media_final_layer [tb_inv]: "requests_inv (fst p) \<Longrightarrow> requests_inv (fst (media_final p))"
  by (cases p) (simp add: media_final_def Let_def tb_inv)

lemma media_completed_layer [tb_inv]: "requests_inv L \<Longrightarrow> requests_inv (fst (media_completed q r (L, m)))"
  by (simp add: media_completed_def case_prod_beta tb_inv)

lemma media_completed_reacts:
  assumes inv: "media_inv m" and q: "q \<noteq> 0" and r: "response_ok r"
  shows "\<exists>L0 \<in> {L, cancel_request L q}. media_reacts L0 m (media_completed q r (L, m))"
proof (cases "q \<noteq> md_pending m \<or> rs_outcome r = TB_OUTCOME_CANCELLED")
  case True
  then show ?thesis using inv by (simp add: media_completed_def media_reacts_def)
next
  case False
  have core: "media_core m" "md_phase m \<noteq> TB_MEDIA_READY" using inv False q by (auto simp: media_inv_def)
  have clear: "media_reacts L' m p"
    if "x = m1\<lparr>md_pending := 0\<rparr> \<or> x = m1" "same_media m m1" "media_reacts L' x p"
    for x m1 :: "'a TbMedia" and L' :: "'b TbRequestLayer" and p
    by (rule media_reacts_frame [OF _ _ that(3)]) (use that(1,2) in \<open>auto simp: same_media_def media_fuel_def\<close>)
  show ?thesis
  proof (cases "rs_outcome r \<noteq> TB_OUTCOME_RESPONSE \<or> rs_result r \<noteq> TB_RESULT_OK")
    case True
    have "media_reacts L' m (media_fail (L', x) e u)" if "x = m\<lparr>md_pending := 0\<rparr> \<or> x = m"
      for L' :: "'b TbRequestLayer" and x e u
      by (rule clear [OF that same_media_refl], rule media_fail_ok) (use that core in auto)
    then show ?thesis using False True by (simp add: media_completed_def)
  next
    case ok: False
    obtain m1 res where p: "media_parse m r = (m1, res)" by fastforce
    have img: "media_image_ok (md_budget m) (md_image m)" using core by (simp add: media_core_def)
    note pk = media_parse_ok [OF img r p]
    have b1: "budget_ok m1" "md_resumes m1 \<le> TB_MEDIA_RESUMES" "md_phase m1 \<noteq> TB_MEDIA_READY" "md_pending m1 = md_pending m"
      using pk(1) core by (auto simp: same_media_def media_core_def budget_ok_def)
    have c1: "media_core m1" if "res = FEED_OK \<or> res = FEED_PROTOCOL"
      using pk(2) [OF that] b1 pk(1) by (simp add: media_core_def same_media_def)
    have ref: "media_reacts L' m (media_refused (L', x) res)"
      if "res \<noteq> FEED_OK" "x = m1\<lparr>md_pending := 0\<rparr> \<or> x = m1" for L' :: "'b TbRequestLayer" and x
      by (rule clear [OF that(2) pk(1)], rule media_refused_ok) (use that b1 c1 in \<open>auto simp: budget_ok_def\<close>)
    have fin: "media_reacts L m (media_final (L, m1))" if "res = FEED_OK"
      by (rule clear [OF disjI2 [OF refl] pk(1)], rule media_final_ok) (use that b1 c1 in auto)
    have more: "media_reacts L m (L, media_changed m1)" if "res = FEED_OK"
      using that b1 c1 pk(1) False q by (simp add: media_reacts_def media_inv_def media_fuel_def same_media_def)
    show ?thesis using False ok p ref fin more by (auto simp: media_completed_def)
  qed
qed

lemma media_completed_inv:
  "media_inv m \<Longrightarrow> q \<noteq> 0 \<Longrightarrow> response_ok r \<Longrightarrow> media_inv (snd (media_completed q r (L, m)))"
  using media_completed_reacts [of m q r L] by (auto simp: media_reacts_def)

interpretation media: request_client md_pending media_completed media_inv
  by unfold_locales (simp_all add: media_completed_inv tb_inv, auto simp: media_completed_def)

lemma media_release_ok:
  assumes "media_core m"
  shows "media_inv (snd (tb_media_release (L, m)))" and "md_pending (snd (tb_media_release (L, m))) = 0"
    and "md_image (snd (tb_media_release (L, m))) = tb_image_reset"
proof -
  obtain L0 m0 where k: "cancel_pending (L, m) = (L0, m0)" by fastforce
  define m1 where "m1 = drop_pixels (m0\<lparr>md_context := vp_cancel (md_ports m0) (md_context m0), md_due := 0\<rparr>)"
  have m1: "media_core m1" "md_pending m1 = 0" "md_image m1 = tb_image_reset"
    using cancel_pending_eq [of "(L, m)"] k assms by (simp_all add: m1_def drop_pixels_def media_core_def budget_ok_def)
  show "media_inv (snd (tb_media_release (L, m)))" "md_pending (snd (tb_media_release (L, m))) = 0"
    "md_image (snd (tb_media_release (L, m))) = tb_image_reset"
    unfolding tb_media_release_def k prod.case Let_def m1_def [symmetric]
    using m1 by (auto simp: media_inv_def)
qed

lemma media_release_layer [tb_inv]: "requests_inv (fst p) \<Longrightarrow> requests_inv (fst (tb_media_release p))"
  by (simp add: tb_media_release_def case_prod_beta Let_def tb_inv)

definition media_pair_inv :: "'x TbRequestLayer \<times> 'v TbMedia \<Rightarrow> bool" where
  "media_pair_inv p \<longleftrightarrow> requests_inv (fst p) \<and> media_inv (snd p)"

lemma media_inv_core: "media_inv m \<Longrightarrow> media_core m"
  by (simp add: media_inv_def)

lemma media_core_budget: "media_core m \<Longrightarrow> budget_ok m"
  by (simp add: media_core_def)

lemma media_pair_start: "requests_inv L \<Longrightarrow> media_core m \<Longrightarrow> media_pair_inv (media_start (L, m))"
  by (simp add: media_pair_inv_def tb_inv media_start_ok media_core_budget)

text \<open>Releasing, closing and binding to another message.\<close>

lemma media_pair_release: "media_pair_inv p \<Longrightarrow> media_pair_inv (tb_media_release p)"
  using media_release_ok(1) [of "snd p" "fst p"] by (simp add: media_pair_inv_def tb_inv media_inv_core)

lemma media_pair_close:
  assumes "media_pair_inv p"
  shows "media_pair_inv (tb_media_close p)" and "md_pending (snd (tb_media_close p)) = 0"
    and "md_image (snd (tb_media_close p)) = tb_image_reset"
proof -
  obtain L m where k: "tb_media_release p = (L, m)" by fastforce
  have "media_pair_inv (L, m)" "md_pending m = 0" "md_image m = tb_image_reset"
    using media_pair_release [OF assms] media_release_ok(2,3) [of "snd p" "fst p"] assms k
    by (auto simp: media_pair_inv_def media_inv_core)
  then show "media_pair_inv (tb_media_close p)" "md_pending (snd (tb_media_close p)) = 0"
    "md_image (snd (tb_media_close p)) = tb_image_reset"
    by (simp_all add: tb_media_close_def k media_pair_inv_def media_inv_def)
qed

lemma initial_phase_resting: "initial_phase flags \<noteq> TB_MEDIA_TRANSFER" "initial_phase flags \<noteq> TB_MEDIA_READY"
  by (simp_all add: initial_phase_def)

lemma media_pair_bind:
  assumes "media_pair_inv p"
  shows "media_pair_inv (tb_media_bind p account chat msg flags count)"
proof -
  obtain L m where k: "tb_media_close p = (L, m)" by fastforce
  have "media_pair_inv (L, m)" using media_pair_close(1) [OF assms] k by simp
  then show ?thesis using assms
    by (simp add: tb_media_bind_def k media_pair_inv_def media_inv_def [of "m\<lparr>md_account := _\<rparr>"])
      (simp add: media_inv_def initial_phase_resting)
qed

lemma media_pair_load: "media_pair_inv p \<Longrightarrow> media_pair_inv (tb_media_load p)"
  by (cases p) (simp add: tb_media_load_def media_pair_start media_pair_inv_def [of "(_, _)"] media_inv_core)

lemma media_pair_show:
  assumes "media_pair_inv p"
  shows "media_pair_inv (tb_media_show p index)"
proof -
  obtain L m where k: "tb_media_release p = (L, m)" by fastforce
  define m1 where "m1 = m\<lparr>md_index := index, md_reveal := False,
      md_phase := (if has_flag (md_flags m) TB_MEDIA_FLAG_RESTRICTED then TB_MEDIA_RESTRICTED else TB_MEDIA_IDLE)\<rparr>"
  have "media_pair_inv (L, m)" using media_pair_release [OF assms] k by simp
  then have "media_pair_inv (L, m1)" by (simp add: media_pair_inv_def media_inv_def m1_def)
  then have "media_pair_inv (tb_media_load (L, m1))" by (rule media_pair_load)
  then show ?thesis using assms
    by (simp add: tb_media_show_def k case_prod_beta flip: m1_def) (simp add: media_pair_inv_def)
qed

lemma media_pair_user:
  assumes "media_pair_inv p"
  shows "media_pair_inv (tb_media_reveal p)" and "media_pair_inv (tb_media_retry p)"
proof -
  obtain L m where p: "p = (L, m)" by (cases p)
  have "requests_inv L" "media_core m" using assms by (simp_all add: p media_pair_inv_def media_inv_core)
  then show "media_pair_inv (tb_media_reveal p)" "media_pair_inv (tb_media_retry p)"
    using assms by (simp_all add: p tb_media_reveal_def tb_media_retry_def media_pair_start)
qed

lemma media_pair_timer:
  assumes "media_pair_inv p"
  shows "media_pair_inv (tb_media_timer p)"
proof -
  obtain L m where p: "p = (L, m)" by (cases p)
  have inv: "requests_inv L" "media_core m" "media_inv m" using assms by (simp_all add: p media_pair_inv_def media_inv_core)
  have "media_inv (snd (media_submit (L, m\<lparr>md_due := 0, md_phase := TB_MEDIA_LOADING\<rparr>) 0))"
    by (rule media_submit_inv) (simp_all add: inv)
  moreover have "media_inv (m\<lparr>md_context := v\<rparr>)" for v using inv(3) by (simp add: media_inv_def)
  ultimately show ?thesis
    using inv by (simp add: p tb_media_timer_def media_pair_inv_def case_prod_beta tb_inv)
qed

lemma media_inv_context [simp]: "media_inv (m\<lparr>md_context := v\<rparr>) = media_inv m"
  by (simp add: media_inv_def)

text \<open>
  The operations and what arrives for them. The last rule is the rest of the program and the platform:
  the layer and the context of the ports, with its clock, may be others.
\<close>

inductive media_step :: "'x TbRequestLayer \<times> 'v TbMedia \<Rightarrow> 'x TbRequestLayer \<times> 'v TbMedia \<Rightarrow> bool" where
  md_bind: "media_step p (tb_media_bind p account chat msg flags count)"
| md_load: "media_step p (tb_media_load p)"
| md_show: "media_step p (tb_media_show p index)"
| md_reveal_step: "media_step p (tb_media_reveal p)"
| md_retry: "media_step p (tb_media_retry p)"
| md_timer: "media_step p (tb_media_timer p)"
| md_release: "media_step p (tb_media_release p)"
| md_close: "media_step p (tb_media_close p)"
| md_completed: "q \<noteq> 0 \<Longrightarrow> response_ok r \<Longrightarrow> media_step p (media_completed q r p)"
| md_layer: "requests_inv L' \<Longrightarrow> media_step (L, m) (L', m\<lparr>md_context := v\<rparr>)"

lemma media_step_inv: "media_step p p' \<Longrightarrow> media_pair_inv p \<Longrightarrow> media_pair_inv p'"
proof (induction rule: media_step.induct)
  case (md_completed q r p)
  then show ?case
    by (cases p) (simp add: media_pair_inv_def tb_inv media_completed_inv)
qed (simp_all add: media_pair_bind media_pair_load media_pair_show media_pair_user media_pair_timer media_pair_release
    media_pair_close media_pair_inv_def [of "(_, _)"])

lemma media_steps_inv: "media_step\<^sup>*\<^sup>* p p' \<Longrightarrow> media_pair_inv p \<Longrightarrow> media_pair_inv p'"
  by (induction rule: rtranclp_induct) (auto dest: media_step_inv)

lemma media_init_inv: "media_inv (tb_media_init ports v config h)"
  by (simp add: tb_media_init_def media_inv_def media_core_def budget_ok_def)

section \<open>Properties\<close>

text \<open>
  The requests that a run of answers starts by itself: an answer starts none when it leaves the
  request layer as it was or with the answered request cancelled. Answers come for a request only.
\<close>

fun media_requests :: "'x TbRequestLayer \<times> 'v TbMedia \<Rightarrow> TbResponse list \<Rightarrow> nat" where
  "media_requests p [] = 0"
| "media_requests p (r # rs) =
     (if md_pending (snd p) = 0 then 0
      else
        (let p' = media_completed (md_pending (snd p)) r p
         in (if fst p' = fst p \<or> fst p' = cancel_request (fst p) (md_pending (snd p)) then 0 else 1) + media_requests p' rs))"

lemma media_requests_fuel:
  "media_inv (snd p) \<Longrightarrow> list_all response_ok rs \<Longrightarrow> media_requests p rs \<le> media_fuel (snd p)"
proof (induction rs arbitrary: p)
  case (Cons r rs)
  show ?case
  proof (cases "md_pending (snd p) = 0")
    case False
    define p' where "p' = media_completed (md_pending (snd p)) r p"
    obtain L0 where L0: "L0 = fst p \<or> L0 = cancel_request (fst p) (md_pending (snd p))" "media_reacts L0 (snd p) p'"
      using media_completed_reacts [OF Cons.prems(1) False, of r "fst p"] Cons.prems(2) by (auto simp: p'_def)
    then have "media_inv (snd p')" by (simp add: media_reacts_def)
    then have "media_requests p' rs \<le> media_fuel (snd p')" using Cons.IH Cons.prems(2) by simp
    then show ?thesis
      using False L0 by (auto simp: media_reacts_def Let_def simp flip: p'_def)
  qed simp
qed simp

lemma media_fuel_le: "media_fuel m \<le> 5"
  by (cases "md_crc_retry m") (simp_all add: media_fuel_def le_diff_conv)

text \<open>
  Two corners of the protocol that the code does not catch. A successful answer without any record
  ends the request but leaves the phase at loading, where neither the timer nor a retry starts
  again; and a picture whose last literal run is cut off by the end of the transfer becomes ready
  although its checksum was never compared.
\<close>

lemma media_empty_answer_stalls:
  assumes "md_phase m = TB_MEDIA_LOADING" and "md_pending m = q" and "q \<noteq> 0"
    and "rs_outcome r = TB_OUTCOME_RESPONSE" and "rs_result r = TB_RESULT_OK" and "rs_final r" and "rs_payload r = None"
  shows "case media_completed q r (L, m) of (L', m') \<Rightarrow>
    L' = L \<and> md_phase m' = TB_MEDIA_LOADING \<and> md_pending m' = 0 \<and>
    tb_media_timer (L, m') = (L, m') \<and> tb_media_retry (L, m') = (L, m')"
proof -
  have "media_parse m r = (m, FEED_OK)"
    using assms(7) by (simp add: media_parse_def tb_cursor_init_def records_loop_end)
  then show ?thesis
    using assms by (simp add: media_completed_def media_final_def Let_def tb_media_timer_def tb_media_retry_def)
qed

lemma media_ready_unchecked:
  assumes "md_image m = tb_image_reset\<lparr>im_header_ready := True, im_size := 1, im_pixels := Some [0], im_op := OP_LITERAL,
      im_remaining := 2\<rparr>" and "md_phase m = TB_MEDIA_TRANSFER" and "md_received m + 1 = md_total m"
  shows "\<exists>d. tb_image_feed (md_image m) [b] = (TB_IMAGE_MORE, d, 1) \<and>
     md_phase (snd (media_final (L, m\<lparr>md_image := d, md_received := md_received m + 1\<rparr>))) = TB_MEDIA_READY"
  using assms by (simp add: tb_image_feed_def image_step_def emit_def tb_image_reset_def media_final_def Let_def)

text \<open>
  C38. However pictures are bound, shown, revealed, retried, polled, answered and closed, a pixel
  buffer exists exactly once the header has been read, has the size the header announces, which is
  within the whole kilobytes that were asked for and the configured maximum, and is never filled
  beyond its end; a transfer always has a request outstanding; a picture that is ready has no
  request outstanding, is filled completely and was received completely.
\<close>

theorem media_reachable_inv:
  assumes "requests_inv L" and "media_step\<^sup>*\<^sup>* (L, tb_media_init ports v config h) (L', m)"
  shows "(case im_pixels (md_image m) of
       None \<Rightarrow> \<not> im_header_ready (md_image m)
     | Some px \<Rightarrow> im_header_ready (md_image m) \<and> length px = unat (im_size (md_image m)) \<and>
         im_filled (md_image m) \<le> im_size (md_image m) \<and> im_size (md_image m) \<le> md_budget m) \<and>
     md_budget m \<le> mcf_max_budget (md_config m) \<and> unat (md_budget m) mod 1024 = 0 \<and>
     (md_phase m = TB_MEDIA_TRANSFER \<longrightarrow> md_pending m \<noteq> 0) \<and>
     (md_phase m = TB_MEDIA_READY \<longrightarrow> md_pending m = 0 \<and> im_pixels (md_image m) \<noteq> None \<and>
        im_filled (md_image m) = im_size (md_image m) \<and> md_received m = md_total m)"
proof -
  have inv: "media_inv m"
    using media_steps_inv [OF assms(2)] media_init_inv [of ports v config h] assms(1) by (simp add: media_pair_inv_def)
  then have "budget_ok m" "media_image_ok (md_budget m) (md_image m)" by (simp_all add: media_inv_def media_core_def)
  moreover have "case im_pixels (md_image m) of
       None \<Rightarrow> \<not> im_header_ready (md_image m)
     | Some px \<Rightarrow> im_header_ready (md_image m) \<and> length px = unat (im_size (md_image m)) \<and>
         im_filled (md_image m) \<le> im_size (md_image m) \<and> im_size (md_image m) \<le> md_budget m"
    using calculation(2) by (auto simp: media_image_ok_def image_ok_def split: option.split if_splits)
  ultimately show ?thesis using inv unfolding media_inv_def budget_ok_def by blast
qed

definition sample_media :: "nat TbMedia" where
  "sample_media = tb_media_init sample_view_ports 0
     \<lparr>mcf_width = 144, mcf_height = 168, mcf_shape = 0, mcf_formats = 7, mcf_max_budget = 12288, mcf_reserve = 4096,
      mcf_min_budget = 2048, mcf_timeout = 8000, mcf_wait_limit = 60000, mcf_heap_free = None\<rparr> sample_heap"

theorem media_reachable_inv_witness:
  "unat (md_budget (snd (tb_media_bind (sample_layer, sample_media) [97] [49] [50] 1 1))) mod 1024 = 0"
proof -
  let ?o = "tb_media_bind (sample_layer, sample_media) [97] [49] [50] 1 1"
  have "media_step (sample_layer, sample_media) ?o" by (rule md_bind)
  then have "media_step\<^sup>*\<^sup>* (sample_layer, sample_media) (fst ?o, snd ?o)" by simp
  from media_reachable_inv [OF sample_inv(1) this [unfolded sample_media_def]] show ?thesis
    unfolding sample_media_def by blast
qed

text \<open>
  C39. Loading a picture never turns into an endless exchange: whatever the phone answers -- errors,
  lost connections, malformed or corrupt data, in any order and number -- the answers themselves
  start at most two resumptions and one fresh start with two more, so five requests at most,
  before a user or the poll timer has to act again.
\<close>

theorem media_requests_bounded:
  assumes "media_inv m" and "list_all response_ok rs"
  shows "media_requests (L, m) rs \<le> media_fuel m \<and> media_fuel m \<le> 5"
  using media_requests_fuel [of "(L, m)" rs] assms media_fuel_le by simp

theorem media_requests_bounded_witness:
  "media_requests (sample_layer, sample_media\<lparr>md_pending := 9, md_phase := TB_MEDIA_LOADING\<rparr>)
     (replicate 100 \<lparr>rs_outcome = TB_OUTCOME_TIMEOUT, rs_result = 0, rs_flags = 0, rs_retry_after = 0, rs_payload = None,
       rs_length = 0, rs_index = 0, rs_total = 0, rs_final = True\<rparr>) \<le> 5"
proof -
  let ?m = "sample_media\<lparr>md_pending := 9, md_phase := TB_MEDIA_LOADING\<rparr>"
  let ?r = "\<lparr>rs_outcome = TB_OUTCOME_TIMEOUT, rs_result = 0, rs_flags = 0, rs_retry_after = 0, rs_payload = None,
       rs_length = 0, rs_index = 0, rs_total = 0, rs_final = True\<rparr>"
  have "media_inv sample_media" unfolding sample_media_def by (rule media_init_inv)
  then have inv: "media_inv ?m" by (simp add: media_inv_def)
  have "list_all response_ok (replicate 100 ?r)" by (simp only: list_all_iff set_replicate_conv_if) (simp add: response_ok_def)
  from media_requests_bounded [OF inv this, of sample_layer] show ?thesis by linarith
qed

end
