(* ===== verification/Messages.thy ===== *)
theory Messages
  imports Clients
begin

text \<open>
  The messages between the watch and the phone (\<^verbatim>\<open>main.c\<close>): the tuples of a message, how an integer is read
  from one, what a data message says, and how a request is written into the outbox. The message
  service of the platform is a parameter.
\<close>

section \<open>Tuples\<close>

datatype tuple_type = TUPLE_BYTE_ARRAY | TUPLE_CSTRING | TUPLE_UINT | TUPLE_INT

record Tuple =
  tu_type :: tuple_type
  tu_length :: u16
  tu_value :: bytes

datatype message_key =
  KEY_RESPONSE_KIND | KEY_REQUEST_SEQ | KEY_RESULT_CODE | KEY_CHUNK_INDEX | KEY_CHUNK_TOTAL | KEY_PAGE_FLAGS
| KEY_RETRY_AFTER | KEY_PAYLOAD | KEY_REQUEST_KIND | KEY_INBOX_SIZE | KEY_ACCOUNT_ID | KEY_ENTITY_ID | KEY_MESSAGE_ID
| KEY_PAGE_OP | KEY_LIST | KEY_PAGE_LIMIT | KEY_TEXT_LIMIT | KEY_DRAFT_ID | KEY_ATTEMPT | KEY_MEDIA_INDEX
| KEY_MEDIA_SPEC | KEY_MEDIA_OFFSET | KEY_MEDIA_TAG | KEY_TEMPLATE_INDEX | KEY_TEMPLATES_REV

text \<open>A message is the list of its tuples; \<open>dict_find\<close> gives the first one with a key.\<close>

type_synonym message = "(message_key \<times> Tuple) list"
type_synonym dictionary = "message_key \<Rightarrow> Tuple option"

text \<open>The members of the union \<open>value\<close>, read from the bytes of the tuple.\<close>

definition tuple_nat :: "Tuple \<Rightarrow> nat \<Rightarrow> nat" where
  "tuple_nat t n = le_nat (take n (tu_value t))"

definition integer :: "Tuple option \<Rightarrow> int option" where
  "integer tuple =
     (case tuple of
        None \<Rightarrow> None
      | Some t \<Rightarrow>
          if tu_type t = TUPLE_INT then
            (if tu_length t = 1 then Some (sint (of_nat (tuple_nat t 1) :: 8 word))
             else if tu_length t = 2 then Some (sint (of_nat (tuple_nat t 2) :: 16 word))
             else if tu_length t = 4 then Some (sint (of_nat (tuple_nat t 4) :: 32 word))
             else None)
          else if tu_type t = TUPLE_UINT then
            (if tu_length t = 1 then Some (int (tuple_nat t 1))
             else if tu_length t = 2 then Some (int (tuple_nat t 2))
             else if tu_length t = 4 \<and> tuple_nat t 4 \<le> 2147483647 then Some (int (tuple_nat t 4))
             else None)
          else None)"

definition response_zero :: TbResponse where
  "response_zero = \<lparr>rs_outcome = TB_OUTCOME_RESPONSE, rs_result = 0, rs_flags = 0, rs_retry_after = 0, rs_payload = None,
     rs_length = 0, rs_index = 0, rs_total = 0, rs_final = False\<rparr>"

text \<open>The response that \<open>inbox_received\<close> makes of a data message, zero when a field is missing or out of range.\<close>

definition inbox_response :: "dictionary \<Rightarrow> TbResponse" where
  "inbox_response dict =
     (case (integer (dict KEY_RESULT_CODE), integer (dict KEY_CHUNK_INDEX), integer (dict KEY_CHUNK_TOTAL)) of
        (Some result, Some index, Some tot) \<Rightarrow>
          (if index < 0 \<or> tot \<le> 0 \<or> tot > 65535 then response_zero
           else
             (let flags = (case integer (dict KEY_PAGE_FLAGS) of None \<Rightarrow> 0 | Some f \<Rightarrow> f);
                  retry = (case integer (dict KEY_RETRY_AFTER) of None \<Rightarrow> 0 | Some f \<Rightarrow> f);
                  r = response_zero\<lparr>rs_result := result, rs_flags := word_of_int flags,
                    rs_retry_after := (if retry > 0 then word_of_int retry else 0), rs_index := word_of_int index,
                    rs_total := word_of_int tot\<rparr>
              in case dict KEY_PAYLOAD of
                   None \<Rightarrow> r
                 | Some t \<Rightarrow> if tu_type t = TUPLE_BYTE_ARRAY then r\<lparr>rs_payload := Some (tu_value t), rs_length := tu_length t\<rparr>
                             else r))
      | _ \<Rightarrow> response_zero)"

section \<open>Requests\<close>

definition uint_tuple :: "nat \<Rightarrow> nat \<Rightarrow> Tuple" where
  "uint_tuple n v = \<lparr>tu_type = TUPLE_UINT, tu_length = of_nat n, tu_value = le_bytes n v\<rparr>"

definition cstring_tuple :: "cstring \<Rightarrow> Tuple" where
  "cstring_tuple s = \<lparr>tu_type = TUPLE_CSTRING, tu_length = of_nat (length s + 1), tu_value = s @ [0]\<rparr>"

definition data_tuple :: "bytes \<Rightarrow> u16 \<Rightarrow> Tuple" where
  "data_tuple d n = \<lparr>tu_type = TUPLE_BYTE_ARRAY, tu_length = n, tu_value = take (unat n) d\<rparr>"

text \<open>What \<open>dict_write_uint8\<close>, \<open>write_uint\<close> and \<open>write_string\<close> are asked to write.\<close>

definition write_uint8 :: "message_key \<Rightarrow> u8 \<Rightarrow> message" where
  "write_uint8 key v = [(key, uint_tuple 1 (unat v))]"

definition write_uint :: "message_key \<Rightarrow> u32 \<Rightarrow> message" where
  "write_uint key v = [(key, uint_tuple 4 (unat v))]"

definition write_string :: "message_key \<Rightarrow> cstring \<Rightarrow> message" where
  "write_string key s = (if s = [] then [] else [(key, cstring_tuple s)])"

text \<open>The writes of \<open>send_request\<close> in their order; the first that fails ends the request.\<close>

definition request_writes :: "u32 \<Rightarrow> u32 \<Rightarrow> TbRequestArgs \<Rightarrow> message" where
  "request_writes inbox_size sequence args =
     write_uint8 KEY_REQUEST_KIND (ra_kind args) @ write_uint KEY_REQUEST_SEQ sequence @
     (if ra_kind args = TB_REQUEST_HELLO then write_uint KEY_INBOX_SIZE inbox_size
      else
        write_string KEY_ACCOUNT_ID (ra_account args) @ write_string KEY_ENTITY_ID (ra_chat args) @
        write_string KEY_MESSAGE_ID (ra_message args) @ write_uint8 KEY_PAGE_OP (ra_page_op args) @
        write_uint8 KEY_LIST (ra_list args) @ write_uint8 KEY_PAGE_LIMIT (ra_page_limit args) @
        write_uint KEY_TEXT_LIMIT (ucast (ra_text_limit args)) @
        (if ra_draft_id args \<noteq> 0 then write_uint KEY_DRAFT_ID (ra_draft_id args) else []) @
        (if ra_kind args = TB_REQUEST_SEND then write_uint8 KEY_ATTEMPT (ra_attempt args) else []) @
        (if ra_kind args = TB_REQUEST_MEDIA
         then write_uint8 KEY_MEDIA_INDEX (ra_media_index args) @ [(KEY_MEDIA_SPEC, data_tuple (ra_media_spec args) 8)] @
           write_uint KEY_MEDIA_OFFSET (ra_media_offset args) @ write_uint KEY_MEDIA_TAG (ra_media_tag args)
         else []) @
        (if ra_kind args = TB_REQUEST_DRAFT
         then
           (if ra_payload args \<noteq> None \<and> ra_payload_length args \<noteq> 0
            then [(KEY_PAYLOAD, data_tuple (the (ra_payload args)) (ra_payload_length args))]
            else write_uint8 KEY_TEMPLATE_INDEX (ra_template_index args) @ write_uint KEY_TEMPLATES_REV (ra_templates_rev args))
         else []))"

text \<open>
  The message service: whether the phone is there, the result of \<open>app_message_outbox_begin\<close> (and whether it
  gives an iterator), whether a tuple can be written after what was written, and the result of
  \<open>app_message_outbox_send\<close>.
\<close>

datatype AppMessageResult = APP_MSG_OK | APP_MSG_BUSY | APP_MSG_NOT_CONNECTED | APP_MSG_OTHER

record 'x message_service =
  ms_connected :: "'x \<Rightarrow> bool"
  ms_begin :: "'x \<Rightarrow> AppMessageResult \<times> bool \<times> 'x"
  ms_write :: "'x \<Rightarrow> message \<Rightarrow> message_key \<times> Tuple \<Rightarrow> bool"
  ms_send :: "'x \<Rightarrow> message \<Rightarrow> AppMessageResult \<times> 'x"

fun write_all :: "(message \<Rightarrow> message_key \<times> Tuple \<Rightarrow> bool) \<Rightarrow> message \<Rightarrow> message \<Rightarrow> bool" where
  "write_all write out [] = True"
| "write_all write out (t # ts) = (write out t \<and> write_all write (out @ [t]) ts)"

definition send_request ::
  "'x message_service \<Rightarrow> u32 \<Rightarrow> 'x \<Rightarrow> u32 \<Rightarrow> TbRequestArgs \<Rightarrow> TbSendResult \<times> 'x" where
  "send_request service inbox_size x sequence args =
     (if \<not> ms_connected service x then (TB_SEND_UNREACHABLE, x)
      else
        (case ms_begin service x of
           (begun, out, x1) \<Rightarrow>
             if begun = APP_MSG_BUSY then (TB_SEND_BUSY, x1)
             else if begun = APP_MSG_NOT_CONNECTED then (TB_SEND_UNREACHABLE, x1)
             else if begun \<noteq> APP_MSG_OK \<or> \<not> out then (TB_SEND_FAILED, x1)
             else if \<not> write_all (ms_write service x1) [] (request_writes inbox_size sequence args)
             then (TB_SEND_FAILED, x1)
             else
               (case ms_send service x1 (request_writes inbox_size sequence args) of
                  (sent, x2) \<Rightarrow>
                    (if sent = APP_MSG_BUSY then TB_SEND_BUSY
                     else if sent = APP_MSG_OK then TB_SEND_OK
                     else if sent = APP_MSG_NOT_CONNECTED then TB_SEND_UNREACHABLE else TB_SEND_FAILED, x2))))"

section \<open>Every request fits\<close>

text \<open>
  The size of a message as the platform documents it: one byte, and for every tuple its header of seven
  bytes and its value.
\<close>

definition dict_size :: "message \<Rightarrow> nat" where
  "dict_size out = 1 + (\<Sum>(k, t)\<leftarrow>out. 7 + unat (tu_length t))"

definition outbox_room :: "'x message_service \<Rightarrow> nat \<Rightarrow> bool" where
  "outbox_room service n \<longleftrightarrow> (\<forall>x out t. dict_size (out @ [t]) \<le> n \<longrightarrow> ms_write service x out t)"

abbreviation (input) TB_OUTBOX_SIZE :: nat where "TB_OUTBOX_SIZE \<equiv> 1280"

text \<open>The arguments the components build: the strings fit their arrays, and a payload is at most a draft.\<close>

definition args_fit :: "TbRequestArgs \<Rightarrow> bool" where
  "args_fit args \<longleftrightarrow> length (ra_account args) < TB_ACCOUNT_ID_SIZE \<and> length (ra_chat args) < TB_TELEGRAM_ID_SIZE \<and>
     length (ra_message args) < TB_TELEGRAM_ID_SIZE \<and> length (ra_media_spec args) = 8 \<and>
     (case ra_payload args of None \<Rightarrow> True
      | Some d \<Rightarrow> length d = unat (ra_payload_length args) \<and> length d \<le> 1024)"

lemma dict_size_append: "dict_size (xs @ ys) = dict_size xs + dict_size ys - 1"
  by (simp add: dict_size_def)

lemma dict_size_data: "dict_size ((k, data_tuple d n) # ts) = 7 + unat n + dict_size ts"
  by (simp add: dict_size_def data_tuple_def)

lemma dict_size_pos: "0 < dict_size xs"
  by (simp add: dict_size_def)

lemma dict_size_writes:
  "dict_size (write_uint8 k a) = 9" "dict_size (write_uint k b) = 12"
  "length s < 65535 \<Longrightarrow> dict_size (write_string k s) = (if s = [] then 1 else 9 + length s)"
  "dict_size [(k, data_tuple d n)] = 8 + unat n" "dict_size [] = 1"
  by (simp_all add: dict_size_def write_uint8_def write_uint_def write_string_def uint_tuple_def cstring_tuple_def
      data_tuple_def del: of_nat_add of_nat_Suc)

lemma request_writes_size:
  assumes "args_fit args"
  shows "dict_size (request_writes inbox_size sequence args) \<le> TB_OUTBOX_SIZE"
proof -
  have strings: "length (ra_account args) < 37" "length (ra_chat args) < 21" "length (ra_message args) < 21"
    using assms by (simp_all add: args_fit_def)
  have payload: "unat (ra_payload_length args) \<le> 1024" if "ra_payload args \<noteq> None"
    using assms that by (auto simp: args_fit_def)
  define str where "str = write_string KEY_ACCOUNT_ID (ra_account args) @ write_string KEY_ENTITY_ID (ra_chat args) @
    write_string KEY_MESSAGE_ID (ra_message args)"
  define media where "media = (if ra_kind args = TB_REQUEST_MEDIA
    then write_uint8 KEY_MEDIA_INDEX (ra_media_index args) @ [(KEY_MEDIA_SPEC, data_tuple (ra_media_spec args) 8)] @
      write_uint KEY_MEDIA_OFFSET (ra_media_offset args) @ write_uint KEY_MEDIA_TAG (ra_media_tag args) else [])"
  define draft where "draft = (if ra_kind args = TB_REQUEST_DRAFT
    then (if ra_payload args \<noteq> None \<and> ra_payload_length args \<noteq> 0
          then [(KEY_PAYLOAD, data_tuple (the (ra_payload args)) (ra_payload_length args))]
          else write_uint8 KEY_TEMPLATE_INDEX (ra_template_index args) @ write_uint KEY_TEMPLATES_REV (ra_templates_rev args))
    else [])"
  define options where "options = (if ra_draft_id args \<noteq> 0 then write_uint KEY_DRAFT_ID (ra_draft_id args) else []) @
    (if ra_kind args = TB_REQUEST_SEND then write_uint8 KEY_ATTEMPT (ra_attempt args) else [])"
  have "dict_size str \<le> 101" using strings by (simp add: str_def dict_size_append dict_size_writes)
  moreover have "dict_size media \<le> 46" by (simp add: media_def dict_size_append dict_size_writes dict_size_data)
  moreover have "dict_size draft \<le> 1032" using payload by (simp add: draft_def dict_size_append dict_size_writes)
  moreover have "dict_size options \<le> 20" by (simp add: options_def dict_size_append dict_size_writes)
  moreover have "request_writes inbox_size sequence args =
      write_uint8 KEY_REQUEST_KIND (ra_kind args) @ write_uint KEY_REQUEST_SEQ sequence @
      (if ra_kind args = TB_REQUEST_HELLO then write_uint KEY_INBOX_SIZE inbox_size
       else str @ write_uint8 KEY_PAGE_OP (ra_page_op args) @ write_uint8 KEY_LIST (ra_list args) @
         write_uint8 KEY_PAGE_LIMIT (ra_page_limit args) @ write_uint KEY_TEXT_LIMIT (ucast (ra_text_limit args)) @
         options @ media @ draft)"
    by (simp add: request_writes_def str_def media_def draft_def options_def)
  ultimately show ?thesis by (auto simp: dict_size_append dict_size_writes)
qed

lemma write_all_room:
  assumes "outbox_room service n" and "dict_size (out @ ts) \<le> n"
  shows "write_all (ms_write service x) out ts"
  using assms(2)
proof (induction ts arbitrary: out)
  case (Cons t ts)
  have "dict_size (out @ [t]) \<le> dict_size ((out @ [t]) @ ts)" by (simp add: dict_size_def)
  then have "ms_write service x out t" using assms(1) Cons.prems by (cases t) (simp add: outbox_room_def)
  then show ?case using Cons.IH [of "out @ [t]"] Cons.prems by simp
qed simp

text \<open>The sequence written into a request is the one that \<open>integer\<close> reads when the message comes back.\<close>

lemma request_sequence:
  assumes "sequence \<le> INT32_MAX"
  shows "integer (map_of (request_writes inbox_size sequence args) KEY_REQUEST_SEQ) = Some (uint sequence)"
proof -
  have "le_nat (take 4 (le_bytes 4 (unat sequence))) = unat sequence"
    using le_nat_le_bytes [of "unat sequence" 4] by simp
  then show ?thesis
    using assms
    by (simp add: request_writes_def write_uint8_def write_uint_def uint_tuple_def integer_def tuple_nat_def word_le_nat_alt)
qed

end
