(* ===== verification/App.thy ===== *)
theory App
  imports Session Connection Chats History_Facts Message_Text Send_Tracker Compose Media Messages
begin

text \<open>
  The program around the components (\<^verbatim>\<open>main.c\<close>): the components that share the request layer, the
  routing of its callbacks to their owners, what arrives from the phone, and the default account.
  Windows, timers and strings are platform; what the default account does to them is a list of
  effects.
\<close>

section \<open>Data\<close>

datatype app_effect = ACCOUNTS_RELOAD int | VIBES_SHORT | VIBES_DOUBLE

record 'v TbApp =
  ap_session :: "'v TbSession"
  ap_chats :: "'v TbChats"
  ap_connection :: "'v TbConnection"
  ap_history :: "'v TbHistory"
  ap_text :: "'v TbMessageText"
  ap_quote :: "'v TbMessageText"
  ap_media :: "'v TbMedia"
  ap_tracker :: "'v TbSendTracker"
  ap_compose :: "'v TbCompose"
  ap_default_request :: u32
  ap_default_index :: int
  ap_effects :: "app_effect list"

section \<open>Callbacks\<close>

definition default_saved :: "u32 \<Rightarrow> TbResponse \<Rightarrow> 'v TbApp \<Rightarrow> 'v TbApp" where
  "default_saved q r a =
     (if q \<noteq> ap_default_request a \<or> rs_outcome r = TB_OUTCOME_CANCELLED then a
      else
        (let a1 = a\<lparr>ap_default_request := 0\<rparr>; accounts = se_accounts (ap_session a1); i = ap_default_index a1
         in if rs_outcome r = TB_OUTCOME_RESPONSE \<and> rs_result r = TB_RESULT_OK \<and> i \<ge> 0 \<and> i < int (length accounts) then
              (let cleared = map (\<lambda>x. x\<lparr>ac_flags := ac_flags x AND NOT TB_ACCOUNT_FLAG_DEFAULT\<rparr>) accounts;
                   x = cleared ! nat i
               in a1\<lparr>ap_session := (ap_session a1)
                     \<lparr>se_accounts := cleared[nat i := x\<lparr>ac_flags := ac_flags x OR TB_ACCOUNT_FLAG_DEFAULT\<rparr>],
                      se_default_account := strncpy TB_ACCOUNT_ID_SIZE (ac_id x)\<rparr>,
                     ap_effects := ap_effects a1 @ [ACCOUNTS_RELOAD i, VIBES_SHORT]\<rparr>)
            else a1\<lparr>ap_effects := ap_effects a1 @ [VIBES_DOUBLE]\<rparr>))"

abbreviation (input) TB_DATA_TIMEOUT :: u32 where "TB_DATA_TIMEOUT \<equiv> 25000"

definition make_default ::
  "'x TbRequestLayer \<times> 'v TbApp \<Rightarrow> int \<Rightarrow> 'x TbRequestLayer \<times> 'v TbApp" where
  "make_default p index =
     (case p of (L, a) \<Rightarrow>
        if index < 0 \<or> index \<ge> int (length (se_accounts (ap_session a))) \<or> ap_default_request a \<noteq> 0 then (L, a)
        else
          (case tb_requests_submit L (Some ((request_args TB_REQUEST_SET_DEFAULT)
                  \<lparr>ra_account := strncpy TB_ACCOUNT_ID_SIZE (ac_id (se_accounts (ap_session a) ! nat index))\<rparr>))
                  TB_DATA_TIMEOUT 2 False (Some CB_DEFAULT) of
             (L1, q) \<Rightarrow>
               (let a1 = a\<lparr>ap_default_index := index, ap_default_request := q\<rparr>
                in (L1, if q = 0 then a1\<lparr>ap_effects := ap_effects a1 @ [VIBES_DOUBLE]\<rparr> else a1))))"

text \<open>
  The owner that every request is registered with: the callback of a slot runs on the component
  whose address was passed to \<open>tb_requests_submit\<close>.
\<close>

definition app_callback :: "delivery \<Rightarrow> 'x TbRequestLayer \<times> 'v TbApp \<Rightarrow> 'x TbRequestLayer \<times> 'v TbApp" where
  "app_callback d p =
     (case d of (cb, q, r) \<Rightarrow> case p of (L, a) \<Rightarrow>
        (case cb of
           CB_SESSION \<Rightarrow> map_prod id (\<lambda>c. a\<lparr>ap_session := c\<rparr>) (session_completed q r (L, ap_session a))
         | CB_CHATS \<Rightarrow> map_prod id (\<lambda>c. a\<lparr>ap_chats := c\<rparr>) (chats_completed q r (L, ap_chats a))
         | CB_HISTORY \<Rightarrow> map_prod id (\<lambda>c. a\<lparr>ap_history := c\<rparr>) (history_completed q r (L, ap_history a))
         | CB_TEXT \<Rightarrow> map_prod id (\<lambda>c. a\<lparr>ap_text := c\<rparr>) (text_completed q r (L, ap_text a))
         | CB_QUOTE \<Rightarrow> map_prod id (\<lambda>c. a\<lparr>ap_quote := c\<rparr>) (text_completed q r (L, ap_quote a))
         | CB_TEMPLATES \<Rightarrow> map_prod id (\<lambda>c. a\<lparr>ap_compose := c\<rparr>) (templates_done q r (L, ap_compose a))
         | CB_DRAFT \<Rightarrow> map_prod id (\<lambda>c. a\<lparr>ap_compose := c\<rparr>) (draft_done q r (L, ap_compose a))
         | CB_SEND \<Rightarrow> map_prod id (\<lambda>c. a\<lparr>ap_tracker := c\<rparr>) (send_completed q r (L, ap_tracker a))
         | CB_CONNECTION \<Rightarrow> map_prod id (\<lambda>c. a\<lparr>ap_connection := c\<rparr>) (connection_completed q r (L, ap_connection a))
         | CB_MEDIA \<Rightarrow> map_prod id (\<lambda>c. a\<lparr>ap_media := c\<rparr>) (media_completed q r (L, ap_media a))
         | CB_DEFAULT \<Rightarrow> (L, default_saved q r a)))"

text \<open>
  The branch of \<open>inbox_received\<close> for data; the session's answer to \<open>TB_RESPONSE_READY\<close> is
  \<open>tb_session_ready\<close>.
\<close>

definition inbox_data ::
  "dictionary \<Rightarrow> 'x TbRequestLayer \<times> 'v TbApp \<Rightarrow> 'x TbRequestLayer \<times> 'v TbApp" where
  "inbox_data dict p =
     (case (integer (dict KEY_RESPONSE_KIND), integer (dict KEY_REQUEST_SEQ)) of
        (Some kind, Some sequence) \<Rightarrow>
          (if kind \<noteq> TB_RESPONSE_DATA \<or> sequence \<le> 0 then p
           else (case tb_requests_chunk (fst p) (word_of_int sequence) (inbox_response dict) of
                   (L1, _, d) \<Rightarrow> run_delivery app_callback (L1, d) (snd p)))
      | _ \<Rightarrow> p)"

definition outbox_sent :: "'x TbRequestLayer \<times> 'v TbApp \<Rightarrow> 'x TbRequestLayer \<times> 'v TbApp" where
  "outbox_sent p = run_delivery app_callback (tb_requests_outbox_ready (fst p)) (snd p)"

definition outbox_failed ::
  "dictionary \<Rightarrow> bool \<Rightarrow> 'x TbRequestLayer \<times> 'v TbApp \<Rightarrow> 'x TbRequestLayer \<times> 'v TbApp" where
  "outbox_failed dict not_connected p =
     (case integer (dict KEY_REQUEST_SEQ) of
        None \<Rightarrow> outbox_sent p
      | Some sequence \<Rightarrow>
          outbox_sent (if sequence > 0
            then run_delivery app_callback (tb_requests_send_failed (fst p) (word_of_int sequence) not_connected) (snd p)
            else p))"

section \<open>Start\<close>

text \<open>The ports of the components; \<open>init\<close> gives every one its configuration.\<close>

record 'v app_ports =
  apo_session :: "'v TbSessionPorts"
  apo_send :: "'v TbSendPorts"
  apo_connection :: "'v TbConnectionPorts"
  apo_view :: "'v TbViewPorts"

definition app_init :: "'v app_ports \<Rightarrow> 'v \<Rightarrow> heap \<Rightarrow> nat \<Rightarrow> nat \<Rightarrow> 'v TbMediaConfig \<Rightarrow> 'v TbApp" where
  "app_init ports v h chat_size message_size media_config =
     \<lparr>ap_session = tb_session_init (apo_session ports) v,
      ap_chats = snd (tb_chats_init (apo_view ports) v
        \<lparr>cc_capacity = 80, cc_page_limit = 20, cc_text_limit = 100, cc_text_budget = 8192, cc_timeout = TB_DATA_TIMEOUT,
         cc_refresh_interval = 0, cc_stale_after = 0\<rparr> h chat_size),
      ap_connection = tb_connection_init (apo_connection ports) v 10000,
      ap_history = snd (tb_history_init (apo_view ports) v
        \<lparr>hc_capacity = 60, hc_page_limit = 20, hc_text_limit = 360, hc_text_budget = 12288, hc_timeout = TB_DATA_TIMEOUT,
         hc_refresh_interval = 60000, hc_followup_delays = (3000, 8000)\<rparr> h message_size),
      ap_text = tb_message_text_init CB_TEXT (apo_view ports) v h 8192 TB_DATA_TIMEOUT,
      ap_quote = tb_message_text_init CB_QUOTE (apo_view ports) v h 4096 TB_DATA_TIMEOUT,
      ap_media = tb_media_init (apo_view ports) v media_config h,
      ap_tracker = tb_send_init (apo_send ports) v,
      ap_compose = tb_compose_init (apo_view ports) v
        \<lparr>ccf_capacity = 50, ccf_preview_limit = 64, ccf_text_limit = 1100, ccf_timeout = TB_DATA_TIMEOUT\<rparr> h,
      ap_default_request = 0, ap_default_index = -1, ap_effects = []\<rparr>"

section \<open>Invariant\<close>

text \<open>Every component keeps its own invariant.\<close>

definition app_inv :: "('v \<Rightarrow> bool) \<Rightarrow> 'v TbApp \<Rightarrow> bool" where
  "app_inv armed a \<longleftrightarrow> session_inv (ap_session a) \<and> chats_inv (ap_chats a) \<and> connection_ok armed (ap_connection a) \<and>
     history_inv (ap_history a) \<and> text_inv (ap_text a) \<and> text_inv (ap_quote a) \<and> media_inv (ap_media a) \<and>
     send_inv (ap_tracker a) \<and> compose_inv (ap_compose a)"

lemma app_inv_update:
  assumes "app_inv armed a"
  shows "session_inv s \<Longrightarrow> app_inv armed (a\<lparr>ap_session := s\<rparr>)" "chats_inv c \<Longrightarrow> app_inv armed (a\<lparr>ap_chats := c\<rparr>)"
    "connection_ok armed n \<Longrightarrow> app_inv armed (a\<lparr>ap_connection := n\<rparr>)" "history_inv h \<Longrightarrow> app_inv armed (a\<lparr>ap_history := h\<rparr>)"
    "text_inv t \<Longrightarrow> app_inv armed (a\<lparr>ap_text := t\<rparr>)" "text_inv t \<Longrightarrow> app_inv armed (a\<lparr>ap_quote := t\<rparr>)"
    "media_inv m \<Longrightarrow> app_inv armed (a\<lparr>ap_media := m\<rparr>)" "send_inv d \<Longrightarrow> app_inv armed (a\<lparr>ap_tracker := d\<rparr>)"
    "compose_inv k \<Longrightarrow> app_inv armed (a\<lparr>ap_compose := k\<rparr>)"
    "app_inv armed (a\<lparr>ap_default_request := q\<rparr>)" "app_inv armed (a\<lparr>ap_default_index := i\<rparr>)" "app_inv armed (a\<lparr>ap_effects := es\<rparr>)"
  using assms by (simp_all add: app_inv_def)

lemma session_mark_default:
  assumes "session_inv s" and "i < length (se_accounts s)"
    and "\<And>x. ac_id (f x) = ac_id x \<and> ac_name (f x) = ac_name x" and "\<And>x. ac_id (g x) = ac_id x \<and> ac_name (g x) = ac_name x"
  shows "session_inv (s\<lparr>se_accounts := (map f (se_accounts s))[i := g (map f (se_accounts s) ! i)],
      se_default_account := strncpy TB_ACCOUNT_ID_SIZE (ac_id (map f (se_accounts s) ! i))\<rparr>)"
proof -
  let ?x = "se_accounts s ! i" and ?ys = "(map f (se_accounts s))[i := g (map f (se_accounts s) ! i)]"
  have x: "length (ac_id ?x) = 36" "0 \<notin> set (ac_id ?x)"
    using session_inv_data [OF assms(1)] assms(2) by (simp_all add: session_data_ok_def)
  have id: "strncpy TB_ACCOUNT_ID_SIZE (ac_id (map f (se_accounts s) ! i)) = ac_id ?x"
    using x assms(2,3) by (simp add: strncpy_fits)
  have "session_inv (s\<lparr>se_accounts := ?ys\<rparr>)"
    by (rule session_inv_accounts [OF assms(1)]; rule nth_equalityI) (auto simp: nth_list_update assms)
  then show ?thesis using x(1) unfolding id by (simp add: session_inv_def session_data_ok_def)
qed

lemma default_saved_inv:
  assumes "app_inv armed a"
  shows "app_inv armed (default_saved q r a)"
proof -
  have s: "session_inv (ap_session a)" using assms by (simp add: app_inv_def)
  show ?thesis
    unfolding default_saved_def Let_def
    using s by (auto intro!: app_inv_update assms session_mark_default)
qed

lemma make_default_inv:
  assumes "requests_inv L" and "app_inv armed a"
  shows "requests_inv (fst (make_default (L, a) i)) \<and> app_inv armed (snd (make_default (L, a) i))"
  using assms submit_inv [OF assms(1)]
  by (auto simp: make_default_def Let_def case_prod_beta intro!: app_inv_update)

text \<open>The callbacks of the program satisfy the contract of the layer's clients.\<close>

lemma app_callback_layer:
  "requests_inv L \<Longrightarrow> requests_inv (fst (app_callback d (L, a)))"
  by (cases d) (simp add: app_callback_def tb_inv split: TbRequestCallback.split)

lemma app_callback_inv:
  assumes "requests_inv L" and "app_inv armed a" and "q \<noteq> 0" and "response_ok r"
  shows "app_inv armed (snd (app_callback (cb, q, r) (L, a)))"
proof -
  have "session_inv (ap_session a)" "chats_inv (ap_chats a)" "connection_ok armed (ap_connection a)"
    "history_inv (ap_history a)" "text_inv (ap_text a)" "text_inv (ap_quote a)" "media_inv (ap_media a)"
    "send_inv (ap_tracker a)" "compose_inv (ap_compose a)"
    using assms(2) by (simp_all add: app_inv_def)
  then show ?thesis
    by (cases cb) (simp_all add: app_callback_def app_inv_update [OF assms(2)] default_saved_inv [OF assms(2)] assms(3,4)
        session_completed_inv chats_completed_inv connection_completed_ok history_completed_inv text_completed_inv
        media_completed_inv send_completed_inv templates_done_inv draft_done_inv)
qed

interpretation app: request_clients app_callback "app_inv armed" for armed
  by unfold_locales (simp_all add: app_callback_layer app_callback_inv)

section \<open>The program as a whole\<close>

text \<open>The payload of a message is as long as the platform says.\<close>

definition payload_fits :: "dictionary \<Rightarrow> bool" where
  "payload_fits dict \<longleftrightarrow> pred_option (\<lambda>t. unat (tu_length t) \<le> length (tu_value t)) (dict KEY_PAYLOAD)"

lemma inbox_response_ok: "payload_fits dict \<Longrightarrow> response_ok (inbox_response dict)"
  by (auto simp: inbox_response_def payload_fits_def response_ok_def response_zero_def Let_def split: option.splits)

lemma inbox_data_keeps:
  assumes "requests_inv (fst p)" and "app_inv armed (snd p)" and "payload_fits dict"
  shows "requests_inv (fst (inbox_data dict p)) \<and> app_inv armed (snd (inbox_data dict p))"
proof -
  have "requests_inv (fst (run_delivery app_callback (L1, d) (snd p))) \<and> app_inv armed (snd (run_delivery app_callback (L1, d) (snd p)))"
    if "tb_requests_chunk (fst p) q (inbox_response dict) = (L1, b, d)" for q L1 b d
    using that chunk_inv [OF assms(1), of q "inbox_response dict"]
      chunk_delivery_ok [OF assms(1) inbox_response_ok [OF assms(3)], of q] assms(2)
    by (intro app.run_delivery_keeps) simp_all
  then show ?thesis using assms(1,2) by (simp add: inbox_data_def split: option.split prod.split)
qed

lemma outbox_keeps:
  assumes "requests_inv (fst p)" and "app_inv armed (snd p)"
  shows "requests_inv (fst (outbox_sent p)) \<and> app_inv armed (snd (outbox_sent p))"
    and "requests_inv (fst (outbox_failed dict b p)) \<and> app_inv armed (snd (outbox_failed dict b p))"
proof -
  have sent: "requests_inv (fst (outbox_sent p)) \<and> app_inv armed (snd (outbox_sent p))"
    if "requests_inv (fst p)" "app_inv armed (snd p)" for p :: "'a TbRequestLayer \<times> 'b TbApp"
    unfolding outbox_sent_def using that by (intro app.run_delivery_keeps) (simp_all add: tb_inv outbox_delivery_ok)
  have "requests_inv (fst (run_delivery app_callback (tb_requests_send_failed (fst p) q b) (snd p))) \<and>
      app_inv armed (snd (run_delivery app_callback (tb_requests_send_failed (fst p) q b) (snd p)))" for q
    using assms by (intro app.run_delivery_keeps) (simp_all add: tb_inv outbox_delivery_ok)
  then show "requests_inv (fst (outbox_sent p)) \<and> app_inv armed (snd (outbox_sent p))"
    "requests_inv (fst (outbox_failed dict b p)) \<and> app_inv armed (snd (outbox_failed dict b p))"
    using sent assms by (simp_all add: outbox_failed_def split: option.split)
qed

text \<open>
  One event of the program: something arrives from the phone, the request timer fires, the default
  account is chosen, or a component takes a step of its own -- an operation a window asked for, or
  one of its timers. \<open>armed\<close> reads the timer of the connection component.
\<close>

inductive app_step ::
  "('v \<Rightarrow> bool) \<Rightarrow> 'x TbRequestLayer \<times> 'v TbApp \<Rightarrow> 'x TbRequestLayer \<times> 'v TbApp \<Rightarrow> bool" for armed where
  ap_inbox: "payload_fits dict \<Longrightarrow> app_step armed p (inbox_data dict p)"
| ap_sent: "app_step armed p (outbox_sent p)"
| ap_failed: "app_step armed p (outbox_failed dict not_connected p)"
| ap_tick: "app_step armed p (tb_requests_tick app_callback p)"
| ap_default: "app_step armed p (make_default p index)"
| ap_session_step: "session_step (L, ap_session a) (L', c) \<Longrightarrow> app_step armed (L, a) (L', a\<lparr>ap_session := c\<rparr>)"
| ap_chats_step: "chats_step (L, ap_chats a) (L', c) \<Longrightarrow> app_step armed (L, a) (L', a\<lparr>ap_chats := c\<rparr>)"
| ap_connection_step: "connection_step armed (L, ap_connection a) (L', c) \<Longrightarrow> requests_inv L' \<Longrightarrow>
    app_step armed (L, a) (L', a\<lparr>ap_connection := c\<rparr>)"
| ap_history_step: "history_step (L, ap_history a) (L', c) \<Longrightarrow> app_step armed (L, a) (L', a\<lparr>ap_history := c\<rparr>)"
| ap_text_step: "text_step (L, ap_text a) (L', c) \<Longrightarrow> app_step armed (L, a) (L', a\<lparr>ap_text := c\<rparr>)"
| ap_quote_step: "text_step (L, ap_quote a) (L', c) \<Longrightarrow> app_step armed (L, a) (L', a\<lparr>ap_quote := c\<rparr>)"
| ap_media_step: "media_step (L, ap_media a) (L', c) \<Longrightarrow> app_step armed (L, a) (L', a\<lparr>ap_media := c\<rparr>)"
| ap_send_step: "send_step (L, ap_tracker a) (L', c) \<Longrightarrow> app_step armed (L, a) (L', a\<lparr>ap_tracker := c\<rparr>)"
| ap_compose_step: "compose_step (L, ap_compose a) (L', c) \<Longrightarrow> app_step armed (L, a) (L', a\<lparr>ap_compose := c\<rparr>)"

definition app_pair_inv :: "('v \<Rightarrow> bool) \<Rightarrow> 'x TbRequestLayer \<times> 'v TbApp \<Rightarrow> bool" where
  "app_pair_inv armed p \<longleftrightarrow> requests_inv (fst p) \<and> app_inv armed (snd p)"

lemma app_step_inv: "app_step armed p p' \<Longrightarrow> app_pair_inv armed p \<Longrightarrow> app_pair_inv armed p'"
proof (induction rule: app_step.induct)
  case (ap_default p index)
  then show ?case using make_default_inv [of "fst p" armed "snd p" index] by (simp add: app_pair_inv_def)
next
  case (ap_session_step L a L' c)
  then show ?case using session_step_inv [OF ap_session_step(1)] by (simp add: app_pair_inv_def app_inv_def)
next
  case (ap_chats_step L a L' c)
  then show ?case using chats_step_inv [OF ap_chats_step(1)] by (simp add: app_pair_inv_def app_inv_def chats_pair_inv_def)
next
  case (ap_connection_step L a L' c)
  then show ?case using connection_step_ok [OF ap_connection_step(1)] by (simp add: app_pair_inv_def app_inv_def)
next
  case (ap_history_step L a L' c)
  then show ?case using history_step_inv [OF ap_history_step(1)] by (simp add: app_pair_inv_def app_inv_def history_pair_inv_def)
next
  case (ap_text_step L a L' c)
  then show ?case using text_step_inv [OF ap_text_step(1)] by (simp add: app_pair_inv_def app_inv_def)
next
  case (ap_quote_step L a L' c)
  then show ?case using text_step_inv [OF ap_quote_step(1)] by (simp add: app_pair_inv_def app_inv_def)
next
  case (ap_media_step L a L' c)
  then show ?case using media_step_inv [OF ap_media_step(1)] by (simp add: app_pair_inv_def app_inv_def media_pair_inv_def)
next
  case (ap_send_step L a L' c)
  then show ?case using send_step_inv [OF ap_send_step(1)] by (simp add: app_pair_inv_def app_inv_def)
next
  case (ap_compose_step L a L' c)
  then show ?case using compose_step_inv [OF ap_compose_step(1)] by (simp add: app_pair_inv_def app_inv_def compose_pair_inv_def)
next
  case (ap_inbox dict p)
  then show ?case using inbox_data_keeps [of p armed dict] by (simp add: app_pair_inv_def)
next
  case (ap_sent p)
  then show ?case using outbox_keeps(1) [of p armed] by (simp add: app_pair_inv_def)
next
  case (ap_failed p dict not_connected)
  then show ?case using outbox_keeps(2) [of p armed dict not_connected] by (simp add: app_pair_inv_def)
next
  case (ap_tick p)
  then show ?case using app.tick_keeps [of p armed] by (simp add: app_pair_inv_def)
qed

lemma app_steps_inv: "(app_step armed)\<^sup>*\<^sup>* p p' \<Longrightarrow> app_pair_inv armed p \<Longrightarrow> app_pair_inv armed p'"
  by (induction rule: rtranclp_induct) (auto dest: app_step_inv)

lemma app_init_inv:
  assumes "timer_laws (apo_connection ports) armed" and "\<not> armed v"
  shows "app_inv armed (app_init ports v h n k config)"
  unfolding app_init_def app_inv_def TbApp.simps
  by (intro conjI session_init_inv chats_init_inv [OF prod.collapse [symmetric]] connection_init_ok assms
      history_init_inv [OF prod.collapse [symmetric]] text_init_inv media_init_inv send_init_inv compose_init_inv)
    (simp add: compose_config_ok_def)

text \<open>The request that each callback waits for; every callback ignores the answer to another one.\<close>

fun app_pending :: "'v TbApp \<Rightarrow> TbRequestCallback \<Rightarrow> u32" where
  "app_pending a CB_SESSION = se_pending (ap_session a)"
| "app_pending a CB_CHATS = cs_pending (ap_chats a)"
| "app_pending a CB_HISTORY = hi_pending (ap_history a)"
| "app_pending a CB_TEXT = mt_pending (ap_text a)"
| "app_pending a CB_QUOTE = mt_pending (ap_quote a)"
| "app_pending a CB_TEMPLATES = cm_templates_pending (ap_compose a)"
| "app_pending a CB_DRAFT = cm_draft_pending (ap_compose a)"
| "app_pending a CB_SEND = sd_pending (ap_tracker a)"
| "app_pending a CB_CONNECTION = co_pending (ap_connection a)"
| "app_pending a CB_MEDIA = md_pending (ap_media a)"
| "app_pending a CB_DEFAULT = ap_default_request a"

lemma app_callback_stale: "q \<noteq> app_pending a cb \<Longrightarrow> app_callback (cb, q, r) (L, a) = (L, a)"
  by (cases cb) (simp_all add: app_callback_def session.stale chats.stale history.stale message_text.stale templates.stale
      draft.stale send.stale connection.stale media.stale default_saved_def)

section \<open>Properties\<close>


definition sample_app_ports :: "bool app_ports" where
  "sample_app_ports = \<lparr>apo_session = \<lparr>sp_changed = (\<lambda>v. v), sp_extra = None\<rparr>, apo_send = \<lparr>sdp_changed = \<lambda>v st. v\<rparr>,
     apo_connection = sample_connection_ports,
     apo_view = \<lparr>vp_changed = (\<lambda>v. v), vp_schedule = (\<lambda>v _. (True, v)), vp_cancel = (\<lambda>v. v), vp_now = (\<lambda>_. 0)\<rparr>\<rparr>"

definition sample_app_media :: "bool TbMediaConfig" where
  "sample_app_media = \<lparr>mcf_width = 144, mcf_height = 168, mcf_shape = 0, mcf_formats = 6, mcf_max_budget = 24576,
     mcf_reserve = 18432, mcf_min_budget = 4096, mcf_timeout = 25000, mcf_wait_limit = 30000, mcf_heap_free = None\<rparr>"


end
