(* ===== verification/Layer_Slots.thy ===== *)
theory Layer_Slots
  imports Messages
begin

text \<open>
  What the requests in flight have in common. \<open>layer_all\<close> says something of every active slot's number,
  callback and arguments; the layer itself never changes these three, so only a submission has to
  establish it. \<open>request_owners\<close> is the contract of clients that own what their requests point to,
  \<open>plain_requests\<close> that of predicates which requests without payload satisfy by themselves.
\<close>

section \<open>Slots in flight\<close>

definition layer_all :: "(u32 \<Rightarrow> TbRequestCallback option \<Rightarrow> TbRequestArgs \<Rightarrow> bool) \<Rightarrow> 'x TbRequestLayer \<Rightarrow> bool" where
  "layer_all Q L \<longleftrightarrow> (\<forall>i<TB_REQUEST_SLOTS. sl_active (rl_slots L ! i) \<longrightarrow>
     Q (sl_sequence (rl_slots L ! i)) (sl_callback (rl_slots L ! i)) (sl_args (rl_slots L ! i)))"

lemma layer_all_frame [simp]:
  "layer_all Q (arm L) = layer_all Q L" "layer_all Q (L\<lparr>rl_context := x\<rparr>) = layer_all Q L"
  "layer_all Q (L\<lparr>rl_immediate := out\<rparr>) = layer_all Q L" "layer_all Q (L\<lparr>rl_submitting := b\<rparr>) = layer_all Q L"
  by (simp_all add: layer_all_def)

lemma layer_all_mono: "layer_all Q L \<Longrightarrow> (\<And>q cb args. Q q cb args \<Longrightarrow> Q' q cb args) \<Longrightarrow> layer_all Q' L"
  by (simp add: layer_all_def)

lemma layer_all_update:
  assumes "layer_all Q L" and "length (rl_slots L) = TB_REQUEST_SLOTS" and "rl_slots L' = (rl_slots L)[i := s]"
    and "sl_active s \<Longrightarrow> Q (sl_sequence s) (sl_callback s) (sl_args s)"
  shows "layer_all Q L'"
  using assms by (cases "i < TB_REQUEST_SLOTS") (auto simp: layer_all_def nth_list_update split: if_splits)

lemma layer_all_slot:
  "layer_all Q L \<Longrightarrow> i < TB_REQUEST_SLOTS \<Longrightarrow> sl_active (rl_slots L ! i) \<Longrightarrow>
   Q (sl_sequence (rl_slots L ! i)) (sl_callback (rl_slots L ! i)) (sl_args (rl_slots L ! i))"
  by (simp add: layer_all_def)

lemma layer_all_complete:
  "layer_all Q L \<Longrightarrow> length (rl_slots L) = TB_REQUEST_SLOTS \<Longrightarrow> layer_all Q (fst (complete L i out res))"
  by (rule layer_all_update [OF _ _ complete_frame(1)]) simp_all

lemma layer_all_attempt:
  assumes "layer_all Q L" and "length (rl_slots L) = TB_REQUEST_SLOTS" and "i < TB_REQUEST_SLOTS"
  shows "layer_all Q (fst (attempt L i))"
proof -
  obtain slot waits where r: "attempt_result L i = (slot, waits)" by fastforce
  have len: "i < length (rl_slots L)" using assms by simp
  note frame = attempt_result_frame(1) [OF r]
  show ?thesis
    by (rule layer_all_update [OF assms(1,2) attempt_slots(1) [OF r len]])
      (use frame layer_all_slot [OF assms(1,3)] in \<open>auto simp: slot_frame_def split: if_splits\<close>)
qed

lemma layer_all_attempt_update:
  assumes "layer_all Q L" and "length (rl_slots L) = TB_REQUEST_SLOTS" and "i < TB_REQUEST_SLOTS"
  shows "layer_all Q (fst (attempt (set_slot L i ((rl_slots L ! i)\<lparr>sl_unreachable := b\<rparr>)) i))"
proof (rule layer_all_attempt)
  show "layer_all Q (set_slot L i ((rl_slots L ! i)\<lparr>sl_unreachable := b\<rparr>))"
    by (rule layer_all_update [OF assms(1,2) set_slot_frame(1)]) (simp add: layer_all_slot [OF assms(1,3)])
qed (use assms in simp_all)

lemma slots_length: "requests_inv L \<Longrightarrow> length (rl_slots L) = TB_REQUEST_SLOTS"
  by (simp add: requests_inv_def)

text \<open>Everything that the transport reports keeps what is said of the slots.\<close>

lemma layer_all_chunk:
  assumes "layer_all Q L" and "requests_inv L"
  shows "layer_all Q (fst (tb_requests_chunk L q chunk))"
proof (cases "slots_find (rl_slots L) q")
  case None
  then show ?thesis using assms(1) by (simp add: chunk_unknown)
next
  case (Some i)
  note i = slots_find_Some [OF Some]
  show ?thesis
  proof (cases "chunk_due (rl_slots L ! i) chunk")
    case True
    show ?thesis unfolding chunk_right [OF Some True] fst_conv layer_all_frame
      by (rule layer_all_update [OF assms(1) slots_length [OF assms(2)] set_slot_frame(1)])
        (use layer_all_slot [OF assms(1) i(1)] in \<open>auto simp: chunk_slot_def split: if_splits\<close>)
  next
    case False
    then show ?thesis using layer_all_complete [OF assms(1) slots_length [OF assms(2)]] by (simp add: chunk_wrong [OF Some])
  qed
qed

lemma layer_all_outbox:
  assumes "layer_all Q L" and "requests_inv L"
  shows "layer_all Q (fst (tb_requests_outbox_ready L))" and "layer_all Q (fst (tb_requests_send_failed L q b))"
    and "layer_all Q (cancel_request L q)"
  using assms slots_length [OF assms(2)] slots_find_Some(1) find_upt_SomeD(1)
  by (auto simp: tb_requests_outbox_ready_def tb_requests_send_failed_def cancel_request_def tb_requests_cancel_def
      intro!: layer_all_attempt layer_all_attempt_update layer_all_complete split: option.split)

text \<open>A submission adds at most one slot, with the number it returns and the arguments it was given.\<close>

lemma layer_all_submit:
  assumes "layer_all Q L" and "requests_inv L" and "\<And>q. snd (tb_requests_submit L (Some args) t m b cb) = q \<Longrightarrow> q \<noteq> 0 \<Longrightarrow> Q q cb args"
  shows "layer_all Q (fst (tb_requests_submit L (Some args) t m b cb))"
  using assms(2)
proof (cases rule: submit_cases [where args = "Some args" and max_attempts = m and timeout = t and resend = b and cb = cb])
  case refused
  then show ?thesis using assms(1) by simp
next
  case (tried a i slot L1)
  obtain s' waits where r: "attempt_result L1 i = (s', waits)" by fastforce
  note t = submit_tried [OF assms(2) tried(3,4,5,6) r]
  have q: "snd (tb_requests_submit L (Some args) t m b cb) = advance_sequence (rl_slots L) (rl_next_sequence L)" if waits
    using tried(3,8) t(1-3) that slots_length [OF assms(2)] by simp
  show ?thesis unfolding tried(7)
  proof (rule layer_all_update [OF assms(1) slots_length [OF assms(2)]])
    show "rl_slots ((fst (attempt L1 i))\<lparr>rl_submitting := False\<rparr>) =
        (rl_slots L)[i := if waits then s' else s'\<lparr>sl_active := False\<rparr>]" using t(1) by simp
    show "Q (sl_sequence (if waits then s' else s'\<lparr>sl_active := False\<rparr>))
        (sl_callback (if waits then s' else s'\<lparr>sl_active := False\<rparr>)) (sl_args (if waits then s' else s'\<lparr>sl_active := False\<rparr>))"
      if "sl_active (if waits then s' else s'\<lparr>sl_active := False\<rparr>)"
      using that t(3,5,6) tried(1) assms(3) [OF q] advance_sequence_free [of "rl_slots L" "rl_next_sequence L"]
      by (auto split: if_splits)
  qed
qed

lemma layer_all_cancelled:
  assumes "layer_all Q L" and "requests_inv L"
  shows "layer_all (\<lambda>q' cb args. q' \<noteq> q \<and> Q q' cb args) (cancel_request L q)"
proof -
  have "layer_all Q (cancel_request L q)" by (rule layer_all_outbox(3) [OF assms])
  moreover have "\<not> tb_requests_pending (cancel_request L q) q"
  proof (cases "slots_find (rl_slots L) q")
    case None
    then show ?thesis using pending_iff [OF assms(2), of q] by (simp add: cancel_request_def tb_requests_cancel_def)
  next
    case (Some i)
    note i = slots_find_Some [OF Some]
    have "rl_slots (cancel_request L q) = (rl_slots L)[i := (rl_slots L ! i)\<lparr>sl_active := False\<rparr>]"
      by (simp add: cancel_request_def tb_requests_cancel_def Some)
    then show ?thesis using i assms(2)
      by (auto simp: tb_requests_pending_def nth_list_update requests_inv_def)
  qed
  ultimately show ?thesis by (auto simp: layer_all_def tb_requests_pending_def)
qed

section \<open>Deliveries\<close>

text \<open>When a delivery is the last of its request, the request is no longer in flight.\<close>

definition delivery_over :: "'x TbRequestLayer \<times> delivery option \<Rightarrow> bool" where
  "delivery_over r \<longleftrightarrow> pred_option (\<lambda>(cb, q, resp). rs_final resp \<longrightarrow> \<not> tb_requests_pending (fst r) q) (snd r)"

lemma slot_off:
  assumes "requests_inv L" and "i < TB_REQUEST_SLOTS" and "sl_active (rl_slots L ! i)"
    and "rl_slots L' = (rl_slots L)[i := s]" and "\<not> sl_active s"
  shows "\<not> tb_requests_pending L' (sl_sequence (rl_slots L ! i))"
  using assms by (auto simp: tb_requests_pending_def nth_list_update requests_inv_def)

lemma complete_over:
  assumes "requests_inv L" and "i < TB_REQUEST_SLOTS" and "sl_active (rl_slots L ! i)"
  shows "delivery_over (complete L i out res)"
proof -
  have "\<not> tb_requests_pending (fst (complete L i out res)) (sl_sequence (rl_slots L ! i))"
    by (rule slot_off [OF assms complete_frame(1)]) simp
  then show ?thesis using assms(1)
    by (cases "sl_callback (rl_slots L ! i)") (auto simp: delivery_over_def complete_delivery requests_inv_def)
qed

lemma attempt_over:
  assumes "requests_inv L" and "i < TB_REQUEST_SLOTS" and "sl_active (rl_slots L ! i)"
  shows "delivery_over (attempt L i)"
proof -
  obtain slot waits where r: "attempt_result L i = (slot, waits)" by fastforce
  have len: "i < length (rl_slots L)" "\<not> rl_submitting L" using assms by (simp_all add: requests_inv_def)
  show ?thesis
  proof (cases waits)
    case True
    then show ?thesis using attempt_slots(5) [OF r len(1)] by (simp add: delivery_over_def)
  next
    case False
    have "\<not> tb_requests_pending (fst (attempt L i)) (sl_sequence (rl_slots L ! i))"
      by (rule slot_off [OF assms attempt_slots(1) [OF r len(1)]]) (simp add: False)
    then show ?thesis using attempt_gives_up(2) [of L i slot] r False len
      by (cases "sl_callback (rl_slots L ! i)") (auto simp: delivery_over_def)
  qed
qed

lemma attempt_update_over:
  assumes "requests_inv L" and "i < TB_REQUEST_SLOTS" and "sl_active (rl_slots L ! i)"
  shows "delivery_over (attempt (set_slot L i ((rl_slots L ! i)\<lparr>sl_unreachable := b\<rparr>)) i)"
proof (rule attempt_over)
  show "requests_inv (set_slot L i ((rl_slots L ! i)\<lparr>sl_unreachable := b\<rparr>))"
    by (rule requests_invI [OF assms(1)]) (use assms in \<open>auto simp: requests_inv_def slot_ok_def slot_waits_def\<close>)
qed (use assms in \<open>simp_all add: requests_inv_def\<close>)

lemma chunk_over:
  assumes "requests_inv L" and "tb_requests_chunk L q chunk = (L', b, d)"
  shows "delivery_over (L', d)"
proof (cases "slots_find (rl_slots L) q")
  case None
  then show ?thesis using assms(2) by (auto simp: chunk_unknown delivery_over_def)
next
  case (Some i)
  note i = slots_find_Some [OF Some]
  show ?thesis
  proof (cases "chunk_due (rl_slots L ! i) chunk")
    case True
    let ?s = "chunk_slot (rp_now (rl_ports L) (rl_context L)) chunk (rl_slots L ! i)"
    have "\<not> tb_requests_pending (arm (set_slot L i ?s)) (sl_sequence (rl_slots L ! i))" if "chunk_final chunk"
      by (rule slot_off [OF assms(1) i(1,2), where s = ?s]) (use that in simp_all)
    then show ?thesis using assms(2) i(3)
      by (cases "sl_callback (rl_slots L ! i)") (auto simp: chunk_right [OF Some True] delivery_over_def)
  next
    case False
    then show ?thesis using assms(2) complete_over [OF assms(1) i(1,2), of TB_OUTCOME_PROTOCOL 0]
      by (auto simp: chunk_wrong [OF Some])
  qed
qed

lemma outbox_over:
  assumes "requests_inv L"
  shows "delivery_over (tb_requests_outbox_ready L)" and "delivery_over (tb_requests_send_failed L q b)"
proof -
  have none: "delivery_over (L, None)" by (simp add: delivery_over_def)
  show "delivery_over (tb_requests_outbox_ready L)"
  proof (cases "List.find (\<lambda>i. sl_active (rl_slots L ! i) \<and> sl_queued (rl_slots L ! i)) [0..<TB_REQUEST_SLOTS]")
    case (Some i)
    then show ?thesis using attempt_over [OF assms] find_upt_SomeD(1,2) [OF Some] by (simp add: tb_requests_outbox_ready_def)
  qed (simp add: tb_requests_outbox_ready_def none)
  show "delivery_over (tb_requests_send_failed L q b)"
    using none attempt_update_over [OF assms] slots_find_Some(1,2)
    by (auto simp: tb_requests_send_failed_def split: option.split)
qed

text \<open>
  Clients that own what their requests point to: \<open>owned s\<close> says what a request in flight may hold when the
  clients are in state \<open>s\<close>. If the callbacks keep it, the loops of the layer do.
\<close>

definition owners_ok ::
  "('s \<Rightarrow> bool) \<Rightarrow> ('s \<Rightarrow> u32 \<Rightarrow> TbRequestCallback option \<Rightarrow> TbRequestArgs \<Rightarrow> bool) \<Rightarrow> 'x TbRequestLayer \<times> 's \<Rightarrow> bool" where
  "owners_ok ok owned p \<longleftrightarrow> requests_inv (fst p) \<and> ok (snd p) \<and> layer_all (owned (snd p)) (fst p)"

locale request_owners = request_clients dispatch clients_inv
  for dispatch :: "delivery \<Rightarrow> 'x TbRequestLayer \<times> 's \<Rightarrow> 'x TbRequestLayer \<times> 's" and clients_inv :: "'s \<Rightarrow> bool" +
  fixes owned :: "'s \<Rightarrow> u32 \<Rightarrow> TbRequestCallback option \<Rightarrow> TbRequestArgs \<Rightarrow> bool"
  assumes dispatch_owned: "requests_inv L \<Longrightarrow> clients_inv s \<Longrightarrow> q \<noteq> 0 \<Longrightarrow> response_ok r \<Longrightarrow> layer_all (owned s) L \<Longrightarrow>
    (rs_final r \<Longrightarrow> \<not> tb_requests_pending L q) \<Longrightarrow>
    layer_all (owned (snd (dispatch (cb, q, r) (L, s)))) (fst (dispatch (cb, q, r) (L, s)))"
begin

abbreviation (input) "owners \<equiv> owners_ok clients_inv owned"

lemma run_delivery_owned:
  assumes "requests_inv (fst d)" and "delivery_ok (snd d)" and "delivery_over d" and "clients_inv s"
    and "layer_all (owned s) (fst d)"
  shows "owners (run_delivery dispatch d s)"
proof -
  have "layer_all (owned (snd (run_delivery dispatch d s))) (fst (run_delivery dispatch d s))"
  proof (cases "snd d")
    case None
    then show ?thesis using assms by (cases d) (simp add: run_delivery_def)
  next
    case (Some e)
    obtain cb q r where "e = (cb, q, r)" by (metis prod_cases3)
    then show ?thesis using Some assms dispatch_owned [of "fst d" s q r cb]
      by (cases d) (simp add: run_delivery_def delivery_over_def)
  qed
  then show ?thesis using run_delivery_keeps [OF assms(1,2,4)] by (simp add: owners_ok_def)
qed

lemma tick_slot_owned:
  assumes "owners p" and "i < TB_REQUEST_SLOTS"
  shows "owners (tick_slot dispatch now i p)"
proof -
  obtain L s where p: "p = (L, s)" by (cases p)
  have inv: "requests_inv L" "clients_inv s" "layer_all (owned s) L" using assms(1) by (simp_all add: p owners_ok_def)
  note len = slots_length [OF inv(1)]
  show ?thesis
  proof (cases "sl_active (rl_slots L ! i)")
    case True
    note due = run_delivery_owned [OF attempt_inv_update [OF inv(1) assms(2) True] attempt_update_delivery_ok [OF inv(1) assms(2) True]
        attempt_update_over [OF inv(1) assms(2) True] inv(2) layer_all_attempt_update [OF inv(3) len assms(2)], of False]
    note over = run_delivery_owned [OF complete_inv [OF inv(1) assms(2)] complete_delivery_ok [OF inv(1) assms(2) True]
        complete_over [OF inv(1) assms(2) True] inv(2) layer_all_complete [OF inv(3) len], of TB_OUTCOME_TIMEOUT 0]
    show ?thesis using assms(1) due over by (simp add: p tick_slot_def Let_def)
  next
    case False
    then show ?thesis using assms(1) by (simp add: p tick_slot_def)
  qed
qed

lemma tick_owned:
  assumes "owners p"
  shows "owners (tb_requests_tick dispatch p)"
proof -
  have "owners (fold (tick_slot dispatch now) is p)" if "set is \<subseteq> {0..<TB_REQUEST_SLOTS}" for now "is"
    using assms that by (induction "is" arbitrary: p) (simp_all add: tick_slot_owned)
  from this [of "[0..<TB_REQUEST_SLOTS]"] show ?thesis
    by (simp add: tb_requests_tick_def Let_def split_beta owners_ok_def)
qed

lemma chunk_owned:
  assumes "owners p" and "response_ok chunk" and "tb_requests_chunk (fst p) q chunk = (L1, b, d)"
  shows "owners (run_delivery dispatch (L1, d) (snd p))"
  using assms chunk_inv [of "fst p" q chunk] chunk_delivery_ok [of "fst p" chunk q] layer_all_chunk [of "owned (snd p)" "fst p" q chunk]
    chunk_over [of "fst p"]
  by (intro run_delivery_owned) (simp_all add: owners_ok_def)

lemma outbox_owned:
  assumes "owners p"
  shows "owners (run_delivery dispatch (tb_requests_outbox_ready (fst p)) (snd p))"
    and "owners (run_delivery dispatch (tb_requests_send_failed (fst p) q b) (snd p))"
  using assms
  by (auto simp: owners_ok_def [of clients_inv owned p] tb_inv outbox_delivery_ok outbox_over layer_all_outbox intro!: run_delivery_owned)

end

section \<open>Plain submissions\<close>

text \<open>
  A predicate on requests that every request without payload satisfies, if only its arguments fit
  their arrays. Operations whose submissions are of this kind keep it.
\<close>

definition layer_ok :: "(u32 \<Rightarrow> TbRequestCallback option \<Rightarrow> TbRequestArgs \<Rightarrow> bool) \<Rightarrow> 'x TbRequestLayer \<Rightarrow> bool" where
  "layer_ok Q L \<longleftrightarrow> requests_inv L \<and> layer_all Q L"

lemma args_fit_base [simp]: "args_fit (request_args kind)"
  by (simp add: args_fit_def request_args_def)

lemma args_fit_updates [simp]:
  "args_fit (args\<lparr>ra_page_op := a\<rparr>) = args_fit args" "args_fit (args\<lparr>ra_list := b\<rparr>) = args_fit args"
  "args_fit (args\<lparr>ra_page_limit := c\<rparr>) = args_fit args" "args_fit (args\<lparr>ra_text_limit := d\<rparr>) = args_fit args"
  "args_fit (args\<lparr>ra_draft_id := e\<rparr>) = args_fit args" "args_fit (args\<lparr>ra_attempt := f\<rparr>) = args_fit args"
  "args_fit (args\<lparr>ra_media_index := g\<rparr>) = args_fit args" "args_fit (args\<lparr>ra_media_offset := h\<rparr>) = args_fit args"
  "args_fit (args\<lparr>ra_media_tag := i\<rparr>) = args_fit args" "args_fit (args\<lparr>ra_template_index := j\<rparr>) = args_fit args"
  "args_fit (args\<lparr>ra_templates_rev := k\<rparr>) = args_fit args"
  "args_fit args \<Longrightarrow> args_fit (args\<lparr>ra_account := strncpy TB_ACCOUNT_ID_SIZE s\<rparr>)"
  "args_fit args \<Longrightarrow> args_fit (args\<lparr>ra_chat := strncpy TB_TELEGRAM_ID_SIZE s\<rparr>)"
  "args_fit args \<Longrightarrow> args_fit (args\<lparr>ra_message := strncpy TB_TELEGRAM_ID_SIZE s\<rparr>)"
  "args_fit args \<Longrightarrow> length spec = 8 \<Longrightarrow> args_fit (args\<lparr>ra_media_spec := spec\<rparr>)"
  by (simp_all add: args_fit_def split: option.splits)

lemma request_args_payload [simp]: "ra_payload (request_args kind) = None"
  by (simp add: request_args_def)

locale plain_requests =
  fixes Q :: "u32 \<Rightarrow> TbRequestCallback option \<Rightarrow> TbRequestArgs \<Rightarrow> bool"
  assumes plain: "args_fit args \<Longrightarrow> ra_payload args = None \<Longrightarrow> Q q cb args"
begin

lemma submit_plain:
  "layer_ok Q L \<Longrightarrow> args_fit args \<Longrightarrow> ra_payload args = None \<Longrightarrow> layer_ok Q (fst (tb_requests_submit L (Some args) t m b cb))"
  by (auto simp: layer_ok_def tb_inv intro!: layer_all_submit plain)

lemma cancel_plain: "layer_ok Q L \<Longrightarrow> layer_ok Q (cancel_request L q)"
  by (simp add: layer_ok_def tb_inv layer_all_outbox)

end

end
