(* ===== verification/Owners.thy ===== *)
theory Owners
  imports App Layer_Slots
begin

text \<open>
  Who owns what a request points to. The only pointer among the arguments of a request is the payload
  of a draft, which belongs to the compose component: it frees it only when the request is over.
  The theory follows every operation of the program and shows that no request in flight ever
  holds another pointer, and that every request fits into the outbox.
\<close>

section \<open>The clients that send no payload\<close>

context plain_requests
begin

lemma session_ops:
  "layer_ok Q (fst p) \<Longrightarrow> layer_ok Q (fst (session_submit p kind t m b))"
  "layer_ok Q (fst p) \<Longrightarrow> layer_ok Q (fst (session_bootstrap p))"
  "layer_ok Q (fst p) \<Longrightarrow> layer_ok Q (fst (session_completed q r p))"
  "layer_ok Q (fst p) \<Longrightarrow> layer_ok Q (fst (tb_session_start p ready))"
  "layer_ok Q (fst p) \<Longrightarrow> layer_ok Q (fst (tb_session_retry p))"
  "layer_ok Q (fst p) \<Longrightarrow> layer_ok Q (fst (tb_session_refresh p))"
  "layer_ok Q (fst p) \<Longrightarrow> layer_ok Q (fst (tb_session_stop p))"
proof -
  show submit: "layer_ok Q (fst (session_submit p kind t m b))" if "layer_ok Q (fst p)"
    for kind t m b and p :: "'a TbRequestLayer \<times> 'b TbSession"
    using that submit_plain [of "fst p"] by (auto simp: session_submit_def Let_def split_beta)
  show boot: "layer_ok Q (fst (session_bootstrap p))" if "layer_ok Q (fst p)" for p :: "'a TbRequestLayer \<times> 'b TbSession"
    unfolding session_bootstrap_def Let_def split_beta
    by (rule submit) (use that cancel_plain [of "fst p"] in simp)
  show "layer_ok Q (fst p) \<Longrightarrow> layer_ok Q (fst (session_completed q r p))"
    using cancel_plain [of "fst p"] boot by (auto simp: session_completed_def Let_def split: prod.split bool.split)
  show start: "layer_ok Q (fst (tb_session_start p ready))" if "layer_ok Q (fst p)" for ready
    and p :: "'a TbRequestLayer \<times> 'b TbSession"
    using that cancel_plain [of "fst p"] by (auto simp: tb_session_start_def Let_def split_beta intro!: submit)
  show "layer_ok Q (fst p) \<Longrightarrow> layer_ok Q (fst (tb_session_retry p))" using start by (simp add: tb_session_retry_def)
  show "layer_ok Q (fst p) \<Longrightarrow> layer_ok Q (fst (tb_session_refresh p))"
    using boot by (auto simp: tb_session_refresh_def split: prod.split)
  show "layer_ok Q (fst p) \<Longrightarrow> layer_ok Q (fst (tb_session_stop p))"
    using cancel_plain by (auto simp: tb_session_stop_def split: prod.split)
qed

lemma chats_request_plain: "layer_ok Q (fst p) \<Longrightarrow> layer_ok Q (fst (chats_request p load op))"
  using cancel_plain [of "fst p"] by (auto simp: chats_request_def Let_def split_beta intro!: submit_plain)

lemma chats_completed_plain: "layer_ok Q (fst p) \<Longrightarrow> layer_ok Q (fst (chats_completed q r p))"
  using cancel_plain [of "fst p"]
  by (auto simp: chats_completed_def chats_fail_def Let_def intro!: chats_request_plain split: prod.split bool.split)

lemma chats_close_plain: "layer_ok Q (fst p) \<Longrightarrow> layer_ok Q (fst (tb_chats_close p))"
  using cancel_plain by (auto simp: tb_chats_close_def split: prod.split)

lemma chats_ops:
  "layer_ok Q (fst p) \<Longrightarrow> layer_ok Q (fst (tb_chats_open p account lst))"
  "layer_ok Q (fst p) \<Longrightarrow> layer_ok Q (fst (tb_chats_set_list p lst))"
  "layer_ok Q (fst p) \<Longrightarrow> layer_ok Q (fst (tb_chats_load_more p))"
  "layer_ok Q (fst p) \<Longrightarrow> layer_ok Q (fst (tb_chats_refresh p))"
  "layer_ok Q (fst p) \<Longrightarrow> layer_ok Q (fst (tb_chats_retry p))"
  "layer_ok Q (fst p) \<Longrightarrow> layer_ok Q (fst (tb_chats_set_active p active))"
  "layer_ok Q (fst p) \<Longrightarrow> layer_ok Q (fst (tb_chats_timer p))"
  using chats_close_plain [of p]
  by (auto simp: tb_chats_open_def tb_chats_set_list_def tb_chats_load_more_def tb_chats_refresh_def tb_chats_retry_def
      tb_chats_set_active_def tb_chats_timer_def Let_def intro!: chats_request_plain split: prod.splits)

lemma connection_ops:
  "layer_ok Q (fst p) \<Longrightarrow> layer_ok Q (fst (connection_completed q r p))"
  "layer_ok Q (fst p) \<Longrightarrow> layer_ok Q (fst (tb_connection_close p))"
  "layer_ok Q (fst p) \<Longrightarrow> layer_ok Q (fst (tb_connection_open p account))"
  "layer_ok Q (fst p) \<Longrightarrow> layer_ok Q (fst (tb_connection_refresh p))"
  "layer_ok Q (fst p) \<Longrightarrow> layer_ok Q (fst (tb_connection_timer p))"
  using cancel_plain [of "fst p"]
  by (auto simp: connection_completed_def tb_connection_close_def tb_connection_open_def tb_connection_refresh_def
      tb_connection_timer_def Let_def split_beta intro!: submit_plain split: option.splits)

lemma history_submit_plain: "layer_ok Q (fst p) \<Longrightarrow> layer_ok Q (fst (history_submit p op page silent))"
  using cancel_plain [of "fst p"] by (auto simp: history_submit_def Let_def split_beta intro!: submit_plain)

lemma history_fail_plain: "layer_ok Q (fst p) \<Longrightarrow> layer_ok Q (fst (history_fail p error retry_after))"
  unfolding history_fail_def split_beta Let_def
  by (cases "error = TB_RESULT_CURSOR_LOST \<and> \<not> hi_resynced (snd p)") (simp_all add: history_submit_plain)

lemma history_completed_plain: "layer_ok Q (fst p) \<Longrightarrow> layer_ok Q (fst (history_completed q r p))"
  using cancel_plain [of "fst p"]
  by (simp add: history_completed_def Let_def split_beta history_fail_plain split: bool.split)

lemma history_close_plain: "layer_ok Q (fst p) \<Longrightarrow> layer_ok Q (fst (tb_history_close p))"
  using cancel_plain by (auto simp: tb_history_close_def split: prod.split)

lemma history_open_plain: "layer_ok Q (fst p) \<Longrightarrow> layer_ok Q (fst (tb_history_open p account chat chat_type saved))"
  using history_close_plain [of p] by (auto simp: tb_history_open_def Let_def split_beta intro!: history_submit_plain)

lemma history_refresh_plain:
  "layer_ok Q (fst p) \<Longrightarrow> layer_ok Q (fst (tb_history_load_older p))"
  "layer_ok Q (fst p) \<Longrightarrow> layer_ok Q (fst (tb_history_refresh p))"
  by (auto simp: tb_history_load_older_def tb_history_refresh_def Let_def split_beta intro!: history_submit_plain)

lemma history_ops:
  "layer_ok Q (fst p) \<Longrightarrow> layer_ok Q (fst (tb_history_retry p))"
  "layer_ok Q (fst p) \<Longrightarrow> layer_ok Q (fst (tb_history_set_active p active))"
  "layer_ok Q (fst p) \<Longrightarrow> layer_ok Q (fst (tb_history_timer p))"
  by (auto simp: tb_history_retry_def tb_history_set_active_def tb_history_timer_def Let_def split_beta
      intro!: history_submit_plain history_refresh_plain)

lemma text_submit_plain: "layer_ok Q (fst p) \<Longrightarrow> layer_ok Q (fst (text_submit p))"
  by (auto simp: text_submit_def Let_def split_beta intro!: submit_plain)

lemma text_ops:
  "layer_ok Q (fst p) \<Longrightarrow> layer_ok Q (fst (text_completed q r p))"
  "layer_ok Q (fst p) \<Longrightarrow> layer_ok Q (fst (tb_message_text_close p))"
  "layer_ok Q (fst p) \<Longrightarrow> layer_ok Q (fst (snd (tb_message_text_open p account chat message)))"
  "layer_ok Q (fst p) \<Longrightarrow> layer_ok Q (fst (tb_message_text_retry p))"
  using cancel_plain [of "fst p"]
  by (auto simp: text_completed_def tb_message_text_close_def tb_message_text_open_def tb_message_text_retry_def Let_def
      split_beta intro!: text_submit_plain split: bool.split)

lemma send_submit_plain: "layer_ok Q (fst p) \<Longrightarrow> layer_ok Q (fst (snd (send_submit p kind)))"
  by (auto simp: send_submit_def Let_def split_beta intro!: submit_plain)

lemma send_ops:
  "layer_ok Q (fst p) \<Longrightarrow> layer_ok Q (fst (send_completed q r p))"
  "layer_ok Q (fst p) \<Longrightarrow> layer_ok Q (fst (snd (tb_send_start p target draft again title preview)))"
  "layer_ok Q (fst p) \<Longrightarrow> layer_ok Q (fst (snd (tb_send_check p)))"
  using cancel_plain [of "fst p"]
  by (auto simp: send_completed_def tb_send_start_def send_begin_def tb_send_check_def Let_def split_beta
      intro!: send_submit_plain split: option.split)

lemma media_spec_length [simp]: "length (media_spec m) = 8"
  by (simp add: media_spec_def Let_def)

lemma media_submit_plain: "layer_ok Q (fst p) \<Longrightarrow> layer_ok Q (fst (media_submit p offset))"
  by (auto simp: media_submit_def Let_def split_beta intro!: submit_plain)

lemma media_start_plain:
  "layer_ok Q (fst p) \<Longrightarrow> layer_ok Q (fst (cancel_pending p))"
  "layer_ok Q (fst p) \<Longrightarrow> layer_ok Q (fst (media_start p))"
proof -
  show cancel: "layer_ok Q (fst p) \<Longrightarrow> layer_ok Q (fst (cancel_pending p))"
    by (auto simp: cancel_pending_def split_beta intro!: submit_plain cancel_plain)
  show "layer_ok Q (fst p) \<Longrightarrow> layer_ok Q (fst (media_start p))"
    using cancel by (auto simp: media_start_def Let_def split_beta intro!: media_submit_plain)
qed

lemma media_fail_plain: "layer_ok Q (fst p) \<Longrightarrow> layer_ok Q (fst (media_fail p error out))"
  by (auto simp: media_fail_def Let_def split_beta intro!: media_submit_plain)

lemma media_completed_plain: "layer_ok Q (fst p) \<Longrightarrow> layer_ok Q (fst (media_completed q r p))"
  using cancel_plain [of "fst p"]
  by (auto simp: media_completed_def media_refused_def media_corrupt_def media_final_def Let_def split_beta
      intro!: media_fail_plain media_start_plain(2))

lemma media_release_plain: "layer_ok Q (fst p) \<Longrightarrow> layer_ok Q (fst (tb_media_release p))"
  using media_start_plain(1) [of p] by (auto simp: tb_media_release_def Let_def split_beta)

lemma media_load_plain: "layer_ok Q (fst p) \<Longrightarrow> layer_ok Q (fst (tb_media_load p))"
  by (auto simp: tb_media_load_def split_beta intro!: media_start_plain(2))

lemma media_ops:
  "layer_ok Q (fst p) \<Longrightarrow> layer_ok Q (fst (tb_media_close p))"
  "layer_ok Q (fst p) \<Longrightarrow> layer_ok Q (fst (tb_media_bind p account chat msg flags cnt))"
  "layer_ok Q (fst p) \<Longrightarrow> layer_ok Q (fst (tb_media_show p index))"
  "layer_ok Q (fst p) \<Longrightarrow> layer_ok Q (fst (tb_media_reveal p))"
  "layer_ok Q (fst p) \<Longrightarrow> layer_ok Q (fst (tb_media_retry p))"
  "layer_ok Q (fst p) \<Longrightarrow> layer_ok Q (fst (tb_media_timer p))"
  using media_release_plain [of p]
  by (auto simp: tb_media_close_def tb_media_bind_def tb_media_show_def tb_media_reveal_def tb_media_retry_def
      tb_media_timer_def Let_def split_beta intro!: media_start_plain(2) media_submit_plain media_load_plain)

lemma default_op: "layer_ok Q (fst p) \<Longrightarrow> layer_ok Q (fst (make_default p index))"
  by (auto simp: make_default_def Let_def split_beta intro!: submit_plain)

end

section \<open>The payload of a draft\<close>

text \<open>
  A request in flight fits its arrays; if it points to a payload, it is the request the compose component
  waits for and the payload is the buffer the component still holds.
\<close>

definition payload_owned :: "'v TbCompose \<Rightarrow> u32 \<Rightarrow> TbRequestCallback option \<Rightarrow> TbRequestArgs \<Rightarrow> bool" where
  "payload_owned c q cb args \<longleftrightarrow> args_fit args \<and>
     (ra_payload args \<noteq> None \<longrightarrow> cb = Some CB_DRAFT \<and> q = cm_draft_pending c \<and> ra_payload args = cm_dictated c)"

definition no_payload :: "u32 \<Rightarrow> TbRequestCallback option \<Rightarrow> TbRequestArgs \<Rightarrow> bool" where
  "no_payload q cb args \<longleftrightarrow> args_fit args \<and> ra_payload args = None"

interpretation owned: plain_requests "payload_owned c" for c
  by unfold_locales (simp add: payload_owned_def)

interpretation bare: plain_requests no_payload
  by unfold_locales (simp add: no_payload_def)

lemma no_payload_owned: "layer_ok no_payload L \<Longrightarrow> layer_ok (payload_owned c) L"
  by (auto simp: layer_ok_def no_payload_def payload_owned_def elim: layer_all_mono)

lemma payload_owned_cong:
  "cm_draft_pending c' = cm_draft_pending c \<Longrightarrow> cm_dictated c' = cm_dictated c \<Longrightarrow> payload_owned c' = payload_owned c"
  by (simp add: payload_owned_def fun_eq_iff)

lemma payload_owned_updates [simp]:
  "payload_owned (compose_changed c) = payload_owned c" "payload_owned (c\<lparr>cm_templates_pending := q\<rparr>) = payload_owned c"
  "payload_owned (c\<lparr>cm_templates := l\<rparr>) = payload_owned c" "payload_owned (c\<lparr>cm_templates_error := e\<rparr>) = payload_owned c"
  "payload_owned (c\<lparr>cm_templates_stale := b\<rparr>) = payload_owned c"
  by (rule payload_owned_cong; simp add: compose_changed_def)+

text \<open>Nobody holds a payload once the draft's request is no longer in flight.\<close>

lemma owned_over:
  assumes "layer_ok (payload_owned c) L" and "\<not> tb_requests_pending L (cm_draft_pending c)"
  shows "layer_ok no_payload L"
  using assms by (auto simp: layer_ok_def layer_all_def payload_owned_def no_payload_def tb_requests_pending_def)

lemma cancelled_not_pending: "requests_inv L \<Longrightarrow> \<not> tb_requests_pending (cancel_request L q) q"
  using layer_all_cancelled [of "\<lambda>_ _ _. True" L q] by (auto simp: layer_all_def tb_requests_pending_def)

lemma owned_cancelled:
  assumes "layer_ok (payload_owned c) L"
  shows "layer_ok no_payload (cancel_request L (cm_draft_pending c))"
  using owned_over [OF owned.cancel_plain [OF assms] cancelled_not_pending] assms by (simp add: layer_ok_def)

lemma owned_cancel_draft:
  assumes "layer_ok (payload_owned (snd p)) (fst p)"
  shows "layer_ok no_payload (fst (cancel_draft p))"
proof (cases "cm_draft_pending (snd p) = 0")
  case True
  then have "layer_ok no_payload (fst p)" using owned_over [OF assms] pending_nonzero [of "fst p"] assms
    by (simp add: layer_ok_def)
  then show ?thesis using True by (simp add: cancel_draft_def split_beta)
next
  case False
  then show ?thesis using owned_cancelled [OF assms] by (simp add: cancel_draft_def split_beta)
qed

lemma base_args_fit [simp]: "args_fit (base_args c kind)" "ra_payload (base_args c kind) = None"
  by (simp_all add: base_args_def)

lemma discard_bare: "layer_ok no_payload (fst p) \<Longrightarrow> layer_ok no_payload (fst (discard_current p))"
  by (auto simp: discard_current_def split_beta intro!: bare.submit_plain)

lemma discard_dictated [simp]:
  "cm_dictated (snd (discard_current p)) = cm_dictated (snd p)" "cm_dictated (snd (cancel_draft p)) = cm_dictated (snd p)"
  by (simp_all add: discard_current_def cancel_draft_def split_beta)

lemma request_draft_owned:
  assumes "layer_ok (payload_owned (snd p)) (fst p)" and "args_fit args"
    and "ra_payload args = None \<or> ra_payload args = cm_dictated (snd p)"
  shows "layer_ok (payload_owned (snd (snd (request_draft p args)))) (fst (snd (request_draft p args)))"
proof -
  obtain L c where d: "discard_current (cancel_draft p) = (L, c)" by fastforce
  have bare: "layer_ok no_payload L" using discard_bare [OF owned_cancel_draft [OF assms(1)]] d by simp
  have dictated: "cm_dictated c = cm_dictated (snd p)" using arg_cong [OF d, of "\<lambda>p. cm_dictated (snd p)"] by simp
  let ?args = "args\<lparr>ra_text_limit := ccf_text_limit (cm_config c)\<rparr>"
  let ?s = "tb_requests_submit L (Some ?args) (ccf_timeout (cm_config c)) 2 True (Some CB_DRAFT)"
  let ?c' = "snd (snd (request_draft p args))"
  have c': "cm_draft_pending ?c' = snd ?s" "cm_dictated ?c' = cm_dictated c"
    by (simp_all add: request_draft_def d Let_def split_beta compose_changed_def)
  have "layer_all (payload_owned ?c') (fst ?s)"
  proof (rule layer_all_submit)
    show "layer_all (payload_owned ?c') L" "requests_inv L" using no_payload_owned [OF bare, of ?c'] by (simp_all add: layer_ok_def)
    show "payload_owned ?c' q (Some CB_DRAFT) ?args" if "snd ?s = q" for q
      using that assms(2,3) c' dictated by (auto simp: payload_owned_def)
  qed
  moreover have "requests_inv (fst ?s)" using bare by (simp add: layer_ok_def tb_inv)
  moreover have "fst (snd (request_draft p args)) = fst ?s" by (simp add: request_draft_def d Let_def split_beta)
  ultimately show ?thesis by (simp add: layer_ok_def)
qed

lemma load_templates_owned:
  assumes "layer_ok (payload_owned (snd p)) (fst p)"
  shows "layer_ok (payload_owned (snd (tb_compose_load_templates p refresh))) (fst (tb_compose_load_templates p refresh))"
proof (cases "cm_open (snd p)")
  case True
  obtain L c where t: "cancel_templates p = (L, c)" by fastforce
  have L: "layer_ok (payload_owned c) L"
    using t assms owned.cancel_plain [of "snd p" "fst p"] by (auto simp: cancel_templates_def split_beta split: if_splits)
  show ?thesis using True
    by (auto simp: tb_compose_load_templates_def t Let_def split_beta intro!: owned.submit_plain L)
qed (simp add: tb_compose_load_templates_def assms)

lemma drop_draft_bare:
  "layer_ok (payload_owned (snd p)) (fst p) \<Longrightarrow> layer_ok no_payload (fst (tb_compose_drop_draft p))"
  using discard_bare [OF owned_cancel_draft] by (simp add: tb_compose_drop_draft_def split_beta)

lemma cancel_templates_owned:
  "layer_ok (payload_owned (snd p)) (fst p) \<Longrightarrow> layer_ok (payload_owned (snd (cancel_templates p))) (fst (cancel_templates p))"
  using owned.cancel_plain [of "snd p" "fst p"] by (simp add: cancel_templates_def split_beta)

lemma close_bare:
  assumes "layer_ok (payload_owned (snd p)) (fst p)"
  shows "layer_ok no_payload (fst (tb_compose_close p keep))"
  using drop_draft_bare [OF cancel_templates_owned [OF assms]] owned_cancel_draft [OF cancel_templates_owned [OF assms]]
  by (simp add: tb_compose_close_def Let_def split_beta)

lemma dictated_owned:
  assumes "layer_ok (payload_owned (snd p)) (fst p)" and "pred_option (\<lambda>t. len \<le> length t) dictation"
  shows "layer_ok (payload_owned (snd (snd (tb_compose_dictated p dictation len)))) (fst (snd (tb_compose_dictated p dictation len)))"
proof (cases "\<not> cm_open (snd p) \<or> dictation = None \<or> len = 0")
  case True
  then show ?thesis using assms(1) by (auto simp: tb_compose_dictated_def)
next
  case False
  then obtain words where words: "dictation = Some words" "len \<le> length words" using assms(2) by auto
  obtain L c where t: "cancel_draft p = (L, c)" by fastforce
  have bare: "layer_ok no_payload L" using owned_cancel_draft [OF assms(1)] t by simp
  define c1 where "c1 = c\<lparr>cm_dictated := None, cm_dictated_length := 0\<rparr>"
  show ?thesis
  proof (cases "len > TB_COMPOSE_DRAFT_LIMIT")
    case True
    have "layer_ok no_payload (fst (discard_current (L, c1)))" using discard_bare [of "(L, c1)"] bare by simp
    then show ?thesis using False True words
      by (simp add: tb_compose_dictated_def t Let_def split_beta no_payload_owned flip: c1_def)
  next
    case small: False
    obtain ok h where m: "malloc (cm_heap c1) len = (ok, h)" by fastforce
    define c2 where "c2 = c1\<lparr>cm_heap := h, cm_dictated := Some (take len words), cm_dictated_length := of_nat len\<rparr>"
    have fit: "args_fit ((base_args c2 TB_REQUEST_DRAFT)\<lparr>ra_payload := cm_dictated c2, ra_payload_length := cm_dictated_length c2\<rparr>)"
      using small words(2) base_args_fit(1) [of c2 TB_REQUEST_DRAFT] by (simp add: args_fit_def c2_def base_args_fit(2))
    have "layer_ok (payload_owned (snd (L, c2))) (fst (L, c2))" using no_payload_owned [OF bare] by simp
    note req = request_draft_owned [OF this fit]
    show ?thesis using False small words m no_payload_owned [OF bare] req
      by (cases ok) (simp_all add: tb_compose_dictated_def t Let_def c1_def c2_def)
  qed
qed

lemma compose_ops:
  assumes "layer_ok (payload_owned (snd p)) (fst p)"
  shows "layer_ok (payload_owned (snd (snd (tb_compose_open p target)))) (fst (snd (tb_compose_open p target)))"
    and "layer_ok (payload_owned (snd (snd (tb_compose_pick p index)))) (fst (snd (tb_compose_pick p index)))"
    and "layer_ok (payload_owned (snd (tb_compose_drop_draft p))) (fst (tb_compose_drop_draft p))"
    and "layer_ok (payload_owned (snd (tb_compose_close p keep))) (fst (tb_compose_close p keep))"
proof -
  note closed = no_payload_owned [OF close_bare [OF assms, of False]]
  show "layer_ok (payload_owned (snd (snd (tb_compose_open p target)))) (fst (snd (tb_compose_open p target)))"
    using assms closed by (auto simp: tb_compose_open_def split_beta intro!: load_templates_owned split: option.split)
  show "layer_ok (payload_owned (snd (snd (tb_compose_pick p index)))) (fst (snd (tb_compose_pick p index)))"
    using assms by (auto simp: tb_compose_pick_def intro!: request_draft_owned)
qed (simp_all add: no_payload_owned drop_draft_bare close_bare assms)

text \<open>The records of an answer leave the request and the dictation alone.\<close>

interpretation draft_frame: record_handler draft_record "\<lambda>c. cm_draft_pending c = q \<and> cm_dictated c = d" for q d
  by unfold_locales (auto simp: draft_record_def Let_def split: option.splits prod.splits if_splits)

interpretation templates_frame: record_handler templates_record "\<lambda>c. cm_draft_pending c = q \<and> cm_dictated c = d" for q d
  by unfold_locales (auto simp: templates_record_def free_previews_def Let_def split: option.splits prod.splits if_splits)

lemma templates_done_owned:
  assumes "layer_ok (payload_owned c) L" and "response_ok r"
  shows "layer_ok (payload_owned (snd (templates_done q r (L, c)))) (fst (templates_done q r (L, c)))"
proof -
  define c1 where "c1 = fst (records_loop () () templates_record (tb_cursor_init (rs_payload r) (rs_length r)) c)"
  have "payload_owned c1 = payload_owned c"
    using templates_frame.loop_inv [OF response_cursor [OF assms(2)], of c "cm_draft_pending c" "cm_dictated c" "()" "()"]
    by (intro payload_owned_cong) (simp_all add: c1_def)
  then show ?thesis using assms(1) owned.cancel_plain [of c L]
    by (simp add: templates_done_def Let_def flip: c1_def)
qed

lemma draft_done_owned:
  assumes "layer_ok (payload_owned c) L" and "response_ok r" and "rs_final r \<Longrightarrow> \<not> tb_requests_pending L q"
  shows "layer_ok (payload_owned (snd (draft_done q r (L, c)))) (fst (draft_done q r (L, c)))"
proof (cases "q \<noteq> cm_draft_pending c \<or> rs_outcome r = TB_OUTCOME_CANCELLED")
  case True
  then show ?thesis using assms(1) by (auto simp: draft_done_def)
next
  case False
  then have q: "q = cm_draft_pending c" by simp
  have over: "layer_ok no_payload (if \<not> rs_final r then cancel_request L q else L)"
    using owned_cancelled [OF assms(1)] owned_over [OF assms(1)] assms(3) q by simp
  define c1 where "c1 = fst (records_loop () () draft_record (tb_cursor_init (rs_payload r) (rs_length r)) c)"
  have c1: "payload_owned c1 = payload_owned c"
    using draft_frame.loop_inv [OF response_cursor [OF assms(2)], of c "cm_draft_pending c" "cm_dictated c" "()" "()"]
    by (intro payload_owned_cong) (simp_all add: c1_def)
  show ?thesis
  proof (cases "rs_outcome r \<noteq> TB_OUTCOME_RESPONSE \<or> rs_result r \<noteq> TB_RESULT_OK")
    case True
    define L1 where "L1 = (if \<not> rs_final r then cancel_request L q else L)"
    define c2 where "c2 = c\<lparr>cm_draft_pending := 0, cm_draft_error := tb_error_from_response r, cm_draft := TB_DRAFT_FAILED,
      cm_text := None, cm_text_length := 0\<rparr>"
    have "layer_ok (payload_owned c2) L1" unfolding L1_def by (rule no_payload_owned [OF over])
    moreover from load_templates_owned [of "(L1, c2)"] this
    have "layer_ok (payload_owned (snd (tb_compose_load_templates (L1, c2) True))) (fst (tb_compose_load_templates (L1, c2) True))"
      by simp
    ultimately show ?thesis using False True
      by (cases "rs_final r") (simp_all add: draft_done_def Let_def split_beta L1_def flip: c2_def)
  next
    case ok: False
    then show ?thesis
      using False assms(1) c1 over
      by (cases "rs_final r") (simp_all add: draft_done_def Let_def no_payload_owned flip: c1_def)
  qed
qed

section \<open>The target of a draft\<close>

text \<open>The strings of the target fit their arrays; only opening and closing change the target.\<close>

definition compose_target_ok :: "'v TbCompose \<Rightarrow> bool" where
  "compose_target_ok c \<longleftrightarrow> target_ok (ct_send (cm_target c))"

lemma target_zero_ok [simp]: "target_ok (ct_send compose_target_zero)"
  by (simp add: compose_target_zero_def target_ok_def)

lemma cm_target_changed [simp]: "cm_target (compose_changed c) = cm_target c"
  by (simp add: compose_changed_def)

lemma cm_target_cancel [simp]:
  "cm_target (snd (cancel_templates p)) = cm_target (snd p)" "cm_target (snd (cancel_draft p)) = cm_target (snd p)"
  "cm_target (snd (discard_current p)) = cm_target (snd p)"
  by (simp_all add: cancel_templates_def cancel_draft_def discard_current_def split_beta)

lemma cm_target_request [simp]:
  "cm_target (snd (tb_compose_drop_draft p)) = cm_target (snd p)"
  "cm_target (snd (snd (request_draft p args))) = cm_target (snd p)"
  "cm_target (snd (tb_compose_load_templates p refresh)) = cm_target (snd p)"
  by (simp_all add: tb_compose_drop_draft_def free_draft_def request_draft_def tb_compose_load_templates_def Let_def split_beta)

lemma cm_target_pick [simp]: "cm_target (snd (snd (tb_compose_pick p index))) = cm_target (snd p)"
  by (simp add: tb_compose_pick_def)

lemma cm_target_dictated [simp]: "cm_target (snd (snd (tb_compose_dictated p dictation len))) = cm_target (snd p)"
  by (simp add: tb_compose_dictated_def Let_def split_beta split: bool.split)

interpretation draft_target: record_handler draft_record "\<lambda>c. cm_target c = t" for t
  by unfold_locales (auto simp: draft_record_def Let_def split: option.splits prod.splits if_splits)

interpretation templates_target: record_handler templates_record "\<lambda>c. cm_target c = t" for t
  by unfold_locales (auto simp: templates_record_def free_previews_def Let_def split: option.splits prod.splits if_splits)

lemma cm_target_done:
  assumes "response_ok r"
  shows "cm_target (snd (templates_done q r p)) = cm_target (snd p)" and "cm_target (snd (draft_done q r p)) = cm_target (snd p)"
proof -
  define c1 where "c1 = fst (records_loop () () templates_record (tb_cursor_init (rs_payload r) (rs_length r)) (snd p))"
  have "cm_target c1 = cm_target (snd p)" unfolding c1_def
    by (rule templates_target.loop_inv [OF response_cursor [OF assms]]) (rule refl)
  then show "cm_target (snd (templates_done q r p)) = cm_target (snd p)"
    by (simp add: templates_done_def Let_def split_beta flip: c1_def)
  define c2 where "c2 = fst (records_loop () () draft_record (tb_cursor_init (rs_payload r) (rs_length r)) (snd p))"
  have "cm_target c2 = cm_target (snd p)" unfolding c2_def
    by (rule draft_target.loop_inv [OF response_cursor [OF assms]]) (rule refl)
  then show "cm_target (snd (draft_done q r p)) = cm_target (snd p)"
    by (simp add: draft_done_def Let_def split_beta flip: c2_def)
qed

lemma compose_target_open:
  "pred_option (\<lambda>t. target_ok (ct_send t)) target \<Longrightarrow> compose_target_ok (snd p) \<Longrightarrow>
   compose_target_ok (snd (snd (tb_compose_open p target)))"
  by (auto simp: tb_compose_open_def compose_target_ok_def split_beta split: option.split)

lemma compose_target_close: "compose_target_ok (snd (tb_compose_close p keep))"
  by (simp add: tb_compose_close_def Let_def split_beta compose_target_ok_def)

end
