(* ===== verification/Program.thy ===== *)
theory Program
  imports Owners
begin

text \<open>
  The events of the program, with nothing else in between: what arrives from the phone, what the transport
  and the timers report, and the operations the windows ask of the components. Unlike \<open>app_step\<close>,
  which lets the environment of a component change the layer at will, every step here is a call
  that \<^verbatim>\<open>main.c\<close> makes.
\<close>

section \<open>Ownership through the callbacks\<close>

lemma app_callback_owned:
  assumes "requests_inv L" and "q \<noteq> 0" and "response_ok r" and "layer_all (payload_owned (ap_compose a)) L"
    and "rs_final r \<Longrightarrow> \<not> tb_requests_pending L q"
  shows "layer_all (payload_owned (ap_compose (snd (app_callback (cb, q, r) (L, a))))) (fst (app_callback (cb, q, r) (L, a)))"
proof -
  have ok: "layer_ok (payload_owned (ap_compose a)) L" using assms(1,4) by (simp add: layer_ok_def)
  note plain = owned.session_ops(3) [of _ "(L, _)"] owned.chats_completed_plain [of _ "(L, _)"]
    owned.connection_ops(1) [of _ "(L, _)"] owned.history_completed_plain [of _ "(L, _)"] owned.text_ops(1) [of _ "(L, _)"]
    owned.send_ops(1) [of _ "(L, _)"] owned.media_completed_plain [of _ "(L, _)"]
  have default: "ap_compose (default_saved q r a) = ap_compose a" by (simp add: default_saved_def Let_def)
  have "layer_ok (payload_owned (ap_compose (snd (app_callback (cb, q, r) (L, a))))) (fst (app_callback (cb, q, r) (L, a)))"
    using ok plain templates_done_owned [OF ok assms(3), of q] draft_done_owned [OF ok assms(3,5)] default
    by (cases cb) (simp_all add: app_callback_def)
  then show ?thesis by (simp add: layer_ok_def)
qed

text \<open>The invariant of the program: that of \<open>App\<close>, and the target of a draft fits.\<close>

definition program_inv :: "('v \<Rightarrow> bool) \<Rightarrow> 'v TbApp \<Rightarrow> bool" where
  "program_inv armed a \<longleftrightarrow> app_inv armed a \<and> compose_target_ok (ap_compose a)"

lemma app_callback_target:
  "response_ok r \<Longrightarrow> cm_target (ap_compose (snd (app_callback (cb, q, r) (L, a)))) = cm_target (ap_compose a)"
  by (cases cb) (simp_all add: app_callback_def cm_target_done default_saved_def Let_def)

lemma app_callback_program_inv:
  assumes "requests_inv L" and "program_inv armed a" and "q \<noteq> 0" and "response_ok r"
  shows "program_inv armed (snd (app_callback (cb, q, r) (L, a)))"
  using assms app_callback_inv [of L armed a q r cb] app_callback_target [of r cb q L a]
  by (simp add: program_inv_def compose_target_ok_def)

interpretation app_owners: request_owners app_callback "program_inv armed" "\<lambda>a. payload_owned (ap_compose a)" for armed
  by unfold_locales (simp_all add: app_callback_layer app_callback_program_inv app_callback_owned)

section \<open>The operations of the components\<close>

text \<open>
  What the windows, the timers and \<^verbatim>\<open>main.c\<close> ask of each component, and the fields that \<^verbatim>\<open>main.c\<close> writes itself.
  Unlike the step relations of the components these contain no answer of the phone, which comes through
  \<open>inbox_data\<close> only, and the request layer is the one the operation leaves. The last rule of each is the
  platform, which moves the clock.
\<close>

inductive session_op :: "'x TbRequestLayer \<times> 'v TbSession \<Rightarrow> 'x TbRequestLayer \<times> 'v TbSession \<Rightarrow> bool" where
  "session_op p (tb_session_start p ready)"
| "session_op p (tb_session_retry p)"
| "session_op p (tb_session_ready p q)"
| "session_op p (tb_session_refresh p)"
| "session_op p (tb_session_stop p)"
| "map ac_id xs = map ac_id (se_accounts s) \<Longrightarrow> map ac_name xs = map ac_name (se_accounts s) \<Longrightarrow>
    session_op (L, s) (L, s\<lparr>se_accounts := xs\<rparr>)"
| "session_op (L, s) (L, s\<lparr>se_context := v\<rparr>)"

inductive chats_op :: "'x TbRequestLayer \<times> 'v TbChats \<Rightarrow> 'x TbRequestLayer \<times> 'v TbChats \<Rightarrow> bool" where
  "chats_op p (tb_chats_open p account lst)"
| "chats_op p (tb_chats_set_list p lst)"
| "chats_op p (tb_chats_load_more p)"
| "chats_op p (tb_chats_refresh p)"
| "chats_op p (tb_chats_retry p)"
| "chats_op p (tb_chats_set_active p active)"
| "chats_op p (tb_chats_timer p)"
| "chats_op p (tb_chats_close p)"
| "chats_op (L, c) (L, c\<lparr>cs_context := v\<rparr>)"

inductive connection_op ::
  "('v \<Rightarrow> bool) \<Rightarrow> 'x TbRequestLayer \<times> 'v TbConnection \<Rightarrow> 'x TbRequestLayer \<times> 'v TbConnection \<Rightarrow> bool" for armed where
  "connection_op armed p (tb_connection_open p account)"
| "connection_op armed p (tb_connection_close p)"
| "connection_op armed p (tb_connection_refresh p)"
| "connection_op armed (L, c) (L, tb_connection_summary c state proxy)"
| "connection_op armed (L, c) (L, tb_connection_set_active c active)"
| "armed (co_context c) \<Longrightarrow> \<not> armed v \<Longrightarrow> connection_op armed (L, c) (tb_connection_timer (L, c\<lparr>co_context := v\<rparr>))"
| "armed v \<longrightarrow> armed (co_context c) \<Longrightarrow> connection_op armed (L, c) (L, c\<lparr>co_context := v\<rparr>)"

inductive history_op :: "'x TbRequestLayer \<times> 'v TbHistory \<Rightarrow> 'x TbRequestLayer \<times> 'v TbHistory \<Rightarrow> bool" where
  "history_op p (tb_history_open p account chat chat_type saved)"
| "history_op p (tb_history_load_older p)"
| "history_op p (tb_history_refresh p)"
| "history_op p (tb_history_retry p)"
| "history_op p (tb_history_set_active p active)"
| "history_op p (tb_history_timer p)"
| "history_op p (tb_history_close p)"
| "history_op (L, h) (L, h\<lparr>hi_loaded := b\<rparr>)"
| "history_op (L, h) (L, h\<lparr>hi_context := v\<rparr>)"

inductive text_op :: "'x TbRequestLayer \<times> 'v TbMessageText \<Rightarrow> 'x TbRequestLayer \<times> 'v TbMessageText \<Rightarrow> bool" where
  "text_op p (snd (tb_message_text_open p account chat message))"
| "text_op p (tb_message_text_retry p)"
| "text_op p (tb_message_text_close p)"
| "text_op (L, m) (L, m\<lparr>mt_error := e\<rparr>)"
| "text_op (L, m) (L, m\<lparr>mt_context := v\<rparr>)"

inductive media_op :: "'x TbRequestLayer \<times> 'v TbMedia \<Rightarrow> 'x TbRequestLayer \<times> 'v TbMedia \<Rightarrow> bool" where
  "media_op p (tb_media_bind p account chat msg flags cnt)"
| "media_op p (tb_media_load p)"
| "media_op p (tb_media_show p index)"
| "media_op p (tb_media_reveal p)"
| "media_op p (tb_media_retry p)"
| "media_op p (tb_media_timer p)"
| "media_op p (tb_media_release p)"
| "media_op p (tb_media_close p)"
| "media_op (L, m) (L, m\<lparr>md_context := v\<rparr>)"

inductive send_op :: "'x TbRequestLayer \<times> 'v TbSendTracker \<Rightarrow> 'x TbRequestLayer \<times> 'v TbSendTracker \<Rightarrow> bool" where
  "pred_option target_ok target \<Longrightarrow> send_op p (snd (tb_send_start p target draft again title preview))"
| "send_op p (snd (tb_send_check p))"
| "send_op (L, s) (L, snd (tb_send_record s rec restored))"
| "(case payload of None \<Rightarrow> True | Some d \<Rightarrow> unat len \<le> length d) \<Longrightarrow>
    send_op (L, s) (L, snd (tb_send_payload s payload len))"
| "send_op (L, s) (L, tb_send_forget s draft)"
| "send_op (L, s) (L, s\<lparr>sd_context := v\<rparr>)"

inductive compose_op :: "'x TbRequestLayer \<times> 'v TbCompose \<Rightarrow> 'x TbRequestLayer \<times> 'v TbCompose \<Rightarrow> bool" where
  compose_op_open: "pred_option (\<lambda>t. target_ok (ct_send t)) target \<Longrightarrow> compose_op p (snd (tb_compose_open p target))"
| compose_op_load: "compose_op p (tb_compose_load_templates p refresh)"
| compose_op_pick: "compose_op p (snd (tb_compose_pick p index))"
| compose_op_dictated:
    "pred_option (\<lambda>t. len \<le> length t) dictation \<Longrightarrow> compose_op p (snd (tb_compose_dictated p dictation len))"
| compose_op_drop: "compose_op p (tb_compose_drop_draft p)"
| compose_op_close: "compose_op p (tb_compose_close p keep)"
| compose_op_platform: "compose_op (L, c) (L, c\<lparr>cm_context := v\<rparr>)"

text \<open>Every operation is a step of its component.\<close>

lemma op_steps:
  "requests_inv (fst ps) \<Longrightarrow> session_op ps ps' \<Longrightarrow> session_step ps ps'"
  "requests_inv (fst pc) \<Longrightarrow> chats_op pc pc' \<Longrightarrow> chats_step pc pc'"
  "connection_op armed pn pn' \<Longrightarrow> connection_step armed pn pn'"
  "requests_inv (fst ph) \<Longrightarrow> history_op ph ph' \<Longrightarrow> history_step ph ph'"
  "requests_inv (fst pt) \<Longrightarrow> text_op pt pt' \<Longrightarrow> text_step pt pt'"
  "requests_inv (fst pm) \<Longrightarrow> media_op pm pm' \<Longrightarrow> media_step pm pm'"
  "requests_inv (fst pd) \<Longrightarrow> send_op pd pd' \<Longrightarrow> send_step pd pd'"
  "requests_inv (fst pk) \<Longrightarrow> compose_op pk pk' \<Longrightarrow> compose_step pk pk'"
  by (auto elim!: session_op.cases intro: session_step.intros)
    (auto elim!: chats_op.cases intro: chats_step.intros, auto elim!: connection_op.cases intro: connection_step.intros,
     auto elim!: history_op.cases intro: history_step.intros, auto elim!: text_op.cases intro: text_step.intros,
     auto elim!: media_op.cases intro: media_step.intros, auto elim!: send_op.cases intro: send_step.intros,
     auto elim!: compose_op.cases intro: compose_step.intros)

text \<open>The operations of the clients without payload keep every predicate that plain requests satisfy.\<close>

context plain_requests
begin

lemma session_ready_plain:
  assumes "layer_ok Q (fst p)"
  shows "layer_ok Q (fst (tb_session_ready p q))"
proof -
  obtain L s where p: "p = (L, s)" by (cases p)
  obtain L1 b d where r: "tb_requests_response L q TB_RESULT_OK = (L1, b, d)" by (metis prod_cases3)
  have "layer_ok Q L1"
    using assms response_delivers(1) [OF _ r] r layer_all_chunk [of Q L q]
    by (simp add: p layer_ok_def tb_requests_response_def) (metis fst_conv)
  then have "layer_ok Q (fst (run_delivery (\<lambda>(cb, q', r). session_completed q' r) (L1, d) s))"
    using session_ops(3) [of "(L1, s)"] by (cases d) (auto simp: run_delivery_def)
  then show ?thesis using assms session_ops(2) [of "(L, s)"] r by (auto simp: p tb_session_ready_def)
qed

lemma ops_plain:
  "session_op ps ps' \<Longrightarrow> layer_ok Q (fst ps) \<Longrightarrow> layer_ok Q (fst ps')"
  "chats_op pc pc' \<Longrightarrow> layer_ok Q (fst pc) \<Longrightarrow> layer_ok Q (fst pc')"
  "connection_op armed pn pn' \<Longrightarrow> layer_ok Q (fst pn) \<Longrightarrow> layer_ok Q (fst pn')"
  "history_op ph ph' \<Longrightarrow> layer_ok Q (fst ph) \<Longrightarrow> layer_ok Q (fst ph')"
  "text_op pt pt' \<Longrightarrow> layer_ok Q (fst pt) \<Longrightarrow> layer_ok Q (fst pt')"
  "media_op pm pm' \<Longrightarrow> layer_ok Q (fst pm) \<Longrightarrow> layer_ok Q (fst pm')"
  "send_op pd pd' \<Longrightarrow> layer_ok Q (fst pd) \<Longrightarrow> layer_ok Q (fst pd')"
  by (auto elim!: session_op.cases simp: session_ops session_ready_plain)
    (auto elim!: chats_op.cases simp: chats_ops chats_close_plain, auto elim!: connection_op.cases simp: connection_ops,
     auto elim!: history_op.cases simp: history_ops history_open_plain history_refresh_plain history_close_plain,
     auto elim!: text_op.cases simp: text_ops, auto elim!: media_op.cases simp: media_ops media_load_plain media_release_plain,
     auto elim!: send_op.cases simp: send_ops)

end

lemma compose_op_owned:
  assumes "compose_op p p'" and "layer_ok (payload_owned (snd p)) (fst p)"
  shows "layer_ok (payload_owned (snd p')) (fst p')"
  using assms
proof cases
  case (compose_op_platform L c v)
  have "payload_owned (c\<lparr>cm_context := v\<rparr>) = payload_owned c" by (rule payload_owned_cong) simp_all
  then show ?thesis using assms(2) compose_op_platform by simp
qed (simp_all add: compose_ops load_templates_owned dictated_owned)

lemma compose_op_target:
  assumes "compose_op p p'" and "compose_target_ok (snd p)"
  shows "compose_target_ok (snd p')"
  using assms by cases (simp_all add: compose_target_open compose_target_close, simp_all add: compose_target_ok_def)

section \<open>The program\<close>

text \<open>
  One event of the program: a message of the phone, a report of the transport, the request timer, the
  choice of a default account, the platform of the request layer, or an operation of a component.
\<close>

inductive program_step ::
  "('v \<Rightarrow> bool) \<Rightarrow> 'x TbRequestLayer \<times> 'v TbApp \<Rightarrow> 'x TbRequestLayer \<times> 'v TbApp \<Rightarrow> bool" for armed where
  pr_inbox: "payload_fits dict \<Longrightarrow> program_step armed p (inbox_data dict p)"
| pr_sent: "program_step armed p (outbox_sent p)"
| pr_failed: "program_step armed p (outbox_failed dict not_connected p)"
| pr_tick: "program_step armed p (tb_requests_tick app_callback p)"
| pr_default: "program_step armed p (make_default p index)"
| pr_close: "args_fit args \<Longrightarrow> ra_payload args = None \<Longrightarrow>
    program_step armed (L, a) (fst (tb_requests_submit L (Some args) timeout attempts resend None), a)"
| pr_platform: "program_step armed (L, a) (L\<lparr>rl_context := x\<rparr>, a)"
| pr_session: "session_op (L, ap_session a) (L', c) \<Longrightarrow> program_step armed (L, a) (L', a\<lparr>ap_session := c\<rparr>)"
| pr_chats: "chats_op (L, ap_chats a) (L', c) \<Longrightarrow> program_step armed (L, a) (L', a\<lparr>ap_chats := c\<rparr>)"
| pr_connection: "connection_op armed (L, ap_connection a) (L', c) \<Longrightarrow> program_step armed (L, a) (L', a\<lparr>ap_connection := c\<rparr>)"
| pr_history: "history_op (L, ap_history a) (L', c) \<Longrightarrow> program_step armed (L, a) (L', a\<lparr>ap_history := c\<rparr>)"
| pr_text: "text_op (L, ap_text a) (L', c) \<Longrightarrow> program_step armed (L, a) (L', a\<lparr>ap_text := c\<rparr>)"
| pr_quote: "text_op (L, ap_quote a) (L', c) \<Longrightarrow> program_step armed (L, a) (L', a\<lparr>ap_quote := c\<rparr>)"
| pr_media: "media_op (L, ap_media a) (L', c) \<Longrightarrow> program_step armed (L, a) (L', a\<lparr>ap_media := c\<rparr>)"
| pr_send: "send_op (L, ap_tracker a) (L', c) \<Longrightarrow> program_step armed (L, a) (L', a\<lparr>ap_tracker := c\<rparr>)"
| pr_compose: "compose_op (L, ap_compose a) (L', c) \<Longrightarrow> program_step armed (L, a) (L', a\<lparr>ap_compose := c\<rparr>)"

abbreviation (input) program_ok :: "('v \<Rightarrow> bool) \<Rightarrow> 'x TbRequestLayer \<times> 'v TbApp \<Rightarrow> bool" where
  "program_ok armed \<equiv> owners_ok (program_inv armed) (\<lambda>a. payload_owned (ap_compose a))"

lemma program_okI:
  "app_pair_inv armed p \<Longrightarrow> layer_ok (payload_owned (ap_compose (snd p))) (fst p) \<Longrightarrow> compose_target_ok (ap_compose (snd p)) \<Longrightarrow>
   program_ok armed p"
  by (simp add: owners_ok_def app_pair_inv_def layer_ok_def program_inv_def)

lemma program_okD:
  assumes "program_ok armed p"
  shows "app_pair_inv armed p" and "layer_ok (payload_owned (ap_compose (snd p))) (fst p)" and "requests_inv (fst p)"
    and "compose_target_ok (ap_compose (snd p))"
  using assms by (simp_all add: owners_ok_def app_pair_inv_def layer_ok_def program_inv_def)

text \<open>What the transport reports.\<close>

lemma inbox_program_ok:
  assumes "program_ok armed p" and "payload_fits dict"
  shows "program_ok armed (inbox_data dict p)"
  using assms(1) app_owners.chunk_owned [OF assms(1) inbox_response_ok [OF assms(2)]]
  by (simp add: inbox_data_def split: option.split prod.split)

lemma outbox_sent_program_ok: "program_ok armed p \<Longrightarrow> program_ok armed (outbox_sent p)"
  unfolding outbox_sent_def by (rule app_owners.outbox_owned(1))

lemma outbox_failed_program_ok:
  assumes "program_ok armed p"
  shows "program_ok armed (outbox_failed dict b p)"
  using outbox_sent_program_ok [OF app_owners.outbox_owned(2) [OF assms]] outbox_sent_program_ok [OF assms]
  by (simp add: outbox_failed_def split: option.split)

lemma make_default_compose [simp]: "ap_compose (snd (make_default p index)) = ap_compose (snd p)"
  by (simp add: make_default_def Let_def split_beta)

text \<open>An operation of a component is a step of the program in \<open>App\<close>; what it does to the layer is known.\<close>

lemma component_ok:
  assumes "program_ok armed (L, a)" and "app_step armed (L, a) (L', a')"
    and "layer_ok (payload_owned (ap_compose a)) L \<Longrightarrow> layer_ok (payload_owned (ap_compose a')) L'"
    and "compose_target_ok (ap_compose a) \<Longrightarrow> compose_target_ok (ap_compose a')"
  shows "program_ok armed (L', a')"
  using program_okD [OF assms(1)] app_step_inv [OF assms(2)] assms(3,4) by (intro program_okI) simp_all

lemma program_step_ok:
  assumes "program_step armed p p'" and "program_ok armed p"
  shows "program_ok armed p'"
  using assms
proof (induction rule: program_step.induct)
  case (pr_inbox dict p)
  then show ?case by (simp add: inbox_program_ok)
next
  case (pr_sent p)
  then show ?case by (rule outbox_sent_program_ok)
next
  case (pr_failed p dict not_connected)
  then show ?case by (rule outbox_failed_program_ok)
next
  case (pr_tick p)
  then show ?case by (rule app_owners.tick_owned)
next
  case (pr_default p index)
  note ok = program_okD [OF pr_default]
  show ?case using app_step_inv [OF ap_default ok(1)] owned.default_op [OF ok(2)] ok(4) by (intro program_okI) simp_all
next
  case (pr_close args L a timeout attempts resend)
  note ok = program_okD [OF pr_close(3)]
  show ?case using ok owned.submit_plain [OF _ pr_close(1,2), of "ap_compose a" L timeout attempts resend None]
    by (intro program_okI) (simp_all add: app_pair_inv_def layer_ok_def)
next
  case (pr_platform L a x)
  then show ?case by (simp add: owners_ok_def)
next
  case (pr_session L a L' c)
  note ok = program_okD(3) [OF pr_session(2)]
  show ?case using op_steps(1) [OF _ pr_session(1)] owned.ops_plain(1) [OF pr_session(1)] ok
    by (intro component_ok [OF pr_session(2)] ap_session_step) simp_all
next
  case (pr_chats L a L' c)
  note ok = program_okD(3) [OF pr_chats(2)]
  show ?case using op_steps(2) [OF _ pr_chats(1)] owned.ops_plain(2) [OF pr_chats(1)] ok
    by (intro component_ok [OF pr_chats(2)] ap_chats_step) simp_all
next
  case (pr_connection L a L' c)
  note ok = program_okD(2) [OF pr_connection(2)] and plain = owned.ops_plain(3) [OF pr_connection(1)]
  have "requests_inv L'" using ok plain [of "ap_compose a"] by (simp add: layer_ok_def)
  then show ?case using op_steps(3) [OF pr_connection(1)] plain
    by (intro component_ok [OF pr_connection(2)] ap_connection_step) simp_all
next
  case (pr_history L a L' c)
  note ok = program_okD(3) [OF pr_history(2)]
  show ?case using op_steps(4) [OF _ pr_history(1)] owned.ops_plain(4) [OF pr_history(1)] ok
    by (intro component_ok [OF pr_history(2)] ap_history_step) simp_all
next
  case (pr_text L a L' c)
  note ok = program_okD(3) [OF pr_text(2)]
  show ?case using op_steps(5) [OF _ pr_text(1)] owned.ops_plain(5) [OF pr_text(1)] ok
    by (intro component_ok [OF pr_text(2)] ap_text_step) simp_all
next
  case (pr_quote L a L' c)
  note ok = program_okD(3) [OF pr_quote(2)]
  show ?case using op_steps(5) [OF _ pr_quote(1)] owned.ops_plain(5) [OF pr_quote(1)] ok
    by (intro component_ok [OF pr_quote(2)] ap_quote_step) simp_all
next
  case (pr_media L a L' c)
  note ok = program_okD(3) [OF pr_media(2)]
  show ?case using op_steps(6) [OF _ pr_media(1)] owned.ops_plain(6) [OF pr_media(1)] ok
    by (intro component_ok [OF pr_media(2)] ap_media_step) simp_all
next
  case (pr_send L a L' c)
  note ok = program_okD(3) [OF pr_send(2)]
  show ?case using op_steps(7) [OF _ pr_send(1)] owned.ops_plain(7) [OF pr_send(1)] ok
    by (intro component_ok [OF pr_send(2)] ap_send_step) simp_all
next
  case (pr_compose L a L' c)
  note ok = program_okD(3) [OF pr_compose(2)]
  show ?case using op_steps(8) [OF _ pr_compose(1)] compose_op_owned [OF pr_compose(1)] compose_op_target [OF pr_compose(1)] ok
    by (intro component_ok [OF pr_compose(2)] ap_compose_step) simp_all
qed

lemma program_steps_ok: "(program_step armed)\<^sup>*\<^sup>* p p' \<Longrightarrow> program_ok armed p \<Longrightarrow> program_ok armed p'"
  by (induction rule: rtranclp_induct) (auto dest: program_step_ok)

lemma program_init_ok:
  assumes "timer_laws (apo_connection ports) armed" and "\<not> armed v" and "length slots = TB_REQUEST_SLOTS"
  shows "program_ok armed (tb_requests_init slots rports x, app_init ports v h n k config)"
proof (rule program_okI)
  show "app_pair_inv armed (tb_requests_init slots rports x, app_init ports v h n k config)"
    using init_inv [OF assms(3), of rports x] app_init_inv [OF assms(1,2), of h n k config] by (simp add: app_pair_inv_def)
  show "layer_ok (payload_owned (ap_compose (snd (tb_requests_init slots rports x, app_init ports v h n k config))))
      (fst (tb_requests_init slots rports x, app_init ports v h n k config))"
    using init_inv [OF assms(3), of rports x] assms(3) by (simp add: layer_ok_def layer_all_def tb_requests_init_def)
  show "compose_target_ok (ap_compose (snd (tb_requests_init slots rports x, app_init ports v h n k config)))"
    by (simp add: compose_target_ok_def app_init_def tb_compose_init_def)
qed

end
