(* ===== verification/Handlers.thy ===== *)
theory Handlers
  imports App Notify Format
begin

text \<open>
  The handlers of \<^verbatim>\<open>main.c\<close>: what the program does when a component reports a change, when the user
  opens an account, a chat or a message, writes and sends, chooses from a menu or a notification, and when
  the phone, the timers or the focus report something. The windows are not modelled: every call into a
  window, the window stack, the vibration, the dictation and the persistent storage is a value of
  \<open>view_call\<close> handed to a parameter, and what the program asks of them are functions of their state.
\<close>

section \<open>Data\<close>

datatype window = WIN_CONNECT | WIN_INFO | WIN_ACCOUNTS | WIN_CHATS | WIN_HISTORY | WIN_READER | WIN_MEDIA

text \<open>The action of a notice is \<open>retry_session\<close> or none; its hint may be absent.\<close>

datatype view_call =
  WINDOW_PUSH window bool | WINDOW_REMOVE window bool
| NOTICE_SET window cstring cstring "cstring option" bool
| ACCOUNTS_WINDOW_RELOAD int
| CHATS_WINDOW_RESET | CHATS_WINDOW_CONFIGURE bool u8 | CHATS_WINDOW_RELOAD
| HISTORY_WINDOW_RESET | HISTORY_WINDOW_PLACED | HISTORY_WINDOW_SET_SEND u8 | HISTORY_WINDOW_FOLLOW | HISTORY_WINDOW_RELOAD
| READER_WINDOW_SHOW TbMessage cstring cstring | READER_WINDOW_RELOAD
| COMPOSE_VIEW_OPEN bool | COMPOSE_VIEW_CLOSE_ALL | COMPOSE_VIEW_RELOAD | COMPOSE_VIEW_REVIEW | COMPOSE_VIEW_STATUS TbSendStatus
| MEDIA_WINDOW_SHOW u8 | MEDIA_WINDOW_RELOAD
| NOTIFY_VIEW_REFRESH window
| ACTIONS_OPEN "(cstring \<times> u8) list"
| PULSE_SHORT | PULSE_DOUBLE
| DICTATION_CLOSE
| PERSIST_WRITE cstring

text \<open>
  The windows and the platform around them: the effect of a call, the window stack, whether a timer could be
  registered, the dictation, the account kept in the persistent storage, what the windows show, and the strings.
\<close>

record 'w TbViews =
  vw_strings :: TbStrings
  vw_call :: "view_call \<Rightarrow> 'w \<Rightarrow> 'w"
  vw_contains :: "'w \<Rightarrow> window \<Rightarrow> bool"
  vw_top :: "'w \<Rightarrow> window option"
  vw_register :: "'w \<Rightarrow> bool \<times> 'w"
  vw_dictation_open :: "'w \<Rightarrow> bool \<times> 'w"
  vw_dictation_start :: "'w \<Rightarrow> bool \<times> 'w"
  vw_persisted :: "'w \<Rightarrow> cstring option"
  vw_reader_message :: "'w \<Rightarrow> TbMessage"
  vw_reader_fallback :: "'w \<Rightarrow> cstring option"
  vw_history_send :: "'w \<Rightarrow> u8"
  vw_result :: "'w \<Rightarrow> u32 option"

record ('v, 'w) TbMain =
  ma_app :: "'v TbApp"
  ma_notify :: "'v TbNotify"
  ma_quote_id :: cstring
  ma_views :: 'w
  ma_summary_revision :: u32
  ma_reload_timer :: bool
  ma_reload_pending :: u8
  ma_menu_message :: int
  ma_compose_from_reader :: bool
  ma_account :: int

abbreviation (input) TB_RELOAD_CHATS :: u8 where "TB_RELOAD_CHATS \<equiv> 1"
abbreviation (input) TB_RELOAD_HISTORY :: u8 where "TB_RELOAD_HISTORY \<equiv> 2"
abbreviation (input) TB_RELOAD_READER :: u8 where "TB_RELOAD_READER \<equiv> 4"
abbreviation (input) TB_RELOAD_COMPOSE :: u8 where "TB_RELOAD_COMPOSE \<equiv> 8"
abbreviation (input) TB_RELOAD_NOTIFY :: u8 where "TB_RELOAD_NOTIFY \<equiv> 16"
abbreviation (input) TB_RELOAD_MEDIA :: u8 where "TB_RELOAD_MEDIA \<equiv> 32"

abbreviation (input) TB_ACTION_NONE :: u8 where "TB_ACTION_NONE \<equiv> 0"
abbreviation (input) TB_ACTION_REPLY :: u8 where "TB_ACTION_REPLY \<equiv> 1"
abbreviation (input) TB_ACTION_OPEN :: u8 where "TB_ACTION_OPEN \<equiv> 2"
abbreviation (input) TB_ACTION_RETRY :: u8 where "TB_ACTION_RETRY \<equiv> 3"
abbreviation (input) TB_ACTION_WRITE :: u8 where "TB_ACTION_WRITE \<equiv> 4"
abbreviation (input) TB_ACTION_VIEW :: u8 where "TB_ACTION_VIEW \<equiv> 5"
abbreviation (input) TB_ACTION_MEDIA_RETRY :: u8 where "TB_ACTION_MEDIA_RETRY \<equiv> 6"
abbreviation (input) TB_ACTION_SPOILER :: u8 where "TB_ACTION_SPOILER \<equiv> 7"
abbreviation (input) TB_ACTION_BACK :: u8 where "TB_ACTION_BACK \<equiv> 8"

section \<open>Reaching the components\<close>

type_synonym ('x, 'v, 'w) main = "'x TbRequestLayer \<times> ('v, 'w) TbMain"
type_synonym ('x, 'v, 'w) handler = "('x, 'v, 'w) main \<Rightarrow> ('x, 'v, 'w) main"

text \<open>The statements of a handler, one after the other.\<close>

definition steps :: "('s \<Rightarrow> 's) list \<Rightarrow> 's \<Rightarrow> 's" where
  "steps fs p = fold (\<lambda>f. f) fs p"

lemma steps_simps [simp]: "steps [] p = p" "steps (f # fs) p = steps fs (f p)" "steps (fs @ gs) p = steps gs (steps fs p)"
  by (simp_all add: steps_def)

text \<open>Operations of a component, in the program.\<close>

definition at_session :: "('x TbRequestLayer \<times> 'v TbSession \<Rightarrow> 'x TbRequestLayer \<times> 'v TbSession) \<Rightarrow>
    'x TbRequestLayer \<times> 'v TbApp \<Rightarrow> 'x TbRequestLayer \<times> 'v TbApp" where
  "at_session f p = (case f (fst p, ap_session (snd p)) of (L, c) \<Rightarrow> (L, (snd p)\<lparr>ap_session := c\<rparr>))"

definition at_chats :: "('x TbRequestLayer \<times> 'v TbChats \<Rightarrow> 'x TbRequestLayer \<times> 'v TbChats) \<Rightarrow>
    'x TbRequestLayer \<times> 'v TbApp \<Rightarrow> 'x TbRequestLayer \<times> 'v TbApp" where
  "at_chats f p = (case f (fst p, ap_chats (snd p)) of (L, c) \<Rightarrow> (L, (snd p)\<lparr>ap_chats := c\<rparr>))"

definition at_connection :: "('x TbRequestLayer \<times> 'v TbConnection \<Rightarrow> 'x TbRequestLayer \<times> 'v TbConnection) \<Rightarrow>
    'x TbRequestLayer \<times> 'v TbApp \<Rightarrow> 'x TbRequestLayer \<times> 'v TbApp" where
  "at_connection f p = (case f (fst p, ap_connection (snd p)) of (L, c) \<Rightarrow> (L, (snd p)\<lparr>ap_connection := c\<rparr>))"

definition at_history :: "('x TbRequestLayer \<times> 'v TbHistory \<Rightarrow> 'x TbRequestLayer \<times> 'v TbHistory) \<Rightarrow>
    'x TbRequestLayer \<times> 'v TbApp \<Rightarrow> 'x TbRequestLayer \<times> 'v TbApp" where
  "at_history f p = (case f (fst p, ap_history (snd p)) of (L, c) \<Rightarrow> (L, (snd p)\<lparr>ap_history := c\<rparr>))"

definition at_text :: "('x TbRequestLayer \<times> 'v TbMessageText \<Rightarrow> 'x TbRequestLayer \<times> 'v TbMessageText) \<Rightarrow>
    'x TbRequestLayer \<times> 'v TbApp \<Rightarrow> 'x TbRequestLayer \<times> 'v TbApp" where
  "at_text f p = (case f (fst p, ap_text (snd p)) of (L, c) \<Rightarrow> (L, (snd p)\<lparr>ap_text := c\<rparr>))"

definition at_quote :: "('x TbRequestLayer \<times> 'v TbMessageText \<Rightarrow> 'x TbRequestLayer \<times> 'v TbMessageText) \<Rightarrow>
    'x TbRequestLayer \<times> 'v TbApp \<Rightarrow> 'x TbRequestLayer \<times> 'v TbApp" where
  "at_quote f p = (case f (fst p, ap_quote (snd p)) of (L, c) \<Rightarrow> (L, (snd p)\<lparr>ap_quote := c\<rparr>))"

definition at_media :: "('x TbRequestLayer \<times> 'v TbMedia \<Rightarrow> 'x TbRequestLayer \<times> 'v TbMedia) \<Rightarrow>
    'x TbRequestLayer \<times> 'v TbApp \<Rightarrow> 'x TbRequestLayer \<times> 'v TbApp" where
  "at_media f p = (case f (fst p, ap_media (snd p)) of (L, c) \<Rightarrow> (L, (snd p)\<lparr>ap_media := c\<rparr>))"

definition at_tracker :: "('x TbRequestLayer \<times> 'v TbSendTracker \<Rightarrow> 'x TbRequestLayer \<times> 'v TbSendTracker) \<Rightarrow>
    'x TbRequestLayer \<times> 'v TbApp \<Rightarrow> 'x TbRequestLayer \<times> 'v TbApp" where
  "at_tracker f p = (case f (fst p, ap_tracker (snd p)) of (L, c) \<Rightarrow> (L, (snd p)\<lparr>ap_tracker := c\<rparr>))"

definition at_compose :: "('x TbRequestLayer \<times> 'v TbCompose \<Rightarrow> 'x TbRequestLayer \<times> 'v TbCompose) \<Rightarrow>
    'x TbRequestLayer \<times> 'v TbApp \<Rightarrow> 'x TbRequestLayer \<times> 'v TbApp" where
  "at_compose f p = (case f (fst p, ap_compose (snd p)) of (L, c) \<Rightarrow> (L, (snd p)\<lparr>ap_compose := c\<rparr>))"

definition on_app :: "('x TbRequestLayer \<times> 'v TbApp \<Rightarrow> 'x TbRequestLayer \<times> 'v TbApp) \<Rightarrow> ('x, 'v, 'w) handler" where
  "on_app f p = (case f (fst p, ma_app (snd p)) of (L, a) \<Rightarrow> (L, (snd p)\<lparr>ma_app := a\<rparr>))"

definition on_notify :: "('v TbNotify \<Rightarrow> 'v TbNotify) \<Rightarrow> ('x, 'v, 'w) handler" where
  "on_notify f p = (fst p, (snd p)\<lparr>ma_notify := f (ma_notify (snd p))\<rparr>)"

definition on_main :: "(('v, 'w) TbMain \<Rightarrow> ('v, 'w) TbMain) \<Rightarrow> ('x, 'v, 'w) handler" where
  "on_main f p = (fst p, f (snd p))"

abbreviation (input) app_of :: "('x, 'v, 'w) main \<Rightarrow> 'v TbApp" where "app_of p \<equiv> ma_app (snd p)"

text \<open>The windows.\<close>

definition view :: "'w TbViews \<Rightarrow> view_call \<Rightarrow> ('x, 'v, 'w) handler" where
  "view V call p = (fst p, (snd p)\<lparr>ma_views := vw_call V call (ma_views (snd p))\<rparr>)"

definition in_stack :: "'w TbViews \<Rightarrow> ('x, 'v, 'w) main \<Rightarrow> window \<Rightarrow> bool" where
  "in_stack V p w = vw_contains V (ma_views (snd p)) w"

definition push_missing :: "'w TbViews \<Rightarrow> window \<Rightarrow> bool \<Rightarrow> ('x, 'v, 'w) handler" where
  "push_missing V w animated p = (if in_stack V p w then p else view V (WINDOW_PUSH w animated) p)"

definition remove_present :: "'w TbViews \<Rightarrow> window \<Rightarrow> ('x, 'v, 'w) handler" where
  "remove_present V w p = (if in_stack V p w then view V (WINDOW_REMOVE w False) p else p)"

definition notify_post ::
  "TbNotifySource \<Rightarrow> TbNotifyLevel \<Rightarrow> TbNotifyAction \<Rightarrow> cstring \<Rightarrow> cstring \<Rightarrow> ('x, 'v, 'w) handler" where
  "notify_post source level action title body =
     on_notify (\<lambda>n. fst (tb_notify_post n source level action (Some title) (Some body)))"

definition notify_clear :: "TbNotifySource \<Rightarrow> ('x, 'v, 'w) handler" where
  "notify_clear source = on_notify (\<lambda>n. tb_notify_clear n source)"

section \<open>Closing and starting over\<close>

definition show_connect :: "'w TbViews \<Rightarrow> cstring \<Rightarrow> cstring option \<Rightarrow> bool \<Rightarrow> ('x, 'v, 'w) handler" where
  "show_connect V body hint retry =
     steps [view V (NOTICE_SET WIN_CONNECT (vw_strings V ''title'') body hint retry), push_missing V WIN_CONNECT False]"

definition close_compose :: "'w TbViews \<Rightarrow> ('x, 'v, 'w) handler" where
  "close_compose V =
     steps [view V COMPOSE_VIEW_CLOSE_ALL, view V DICTATION_CLOSE, on_app (at_compose (\<lambda>q. tb_compose_close q True))]"

definition close_views :: "'w TbViews \<Rightarrow> ('x, 'v, 'w) handler" where
  "close_views V =
     steps [close_compose V, on_app (at_media tb_media_close), on_notify tb_notify_reset,
       on_app (at_text tb_message_text_close), on_app (at_quote tb_message_text_close),
       on_main (\<lambda>m. m\<lparr>ma_quote_id := []\<rparr>),
       on_app (at_history tb_history_close), on_app (at_connection tb_connection_close), on_app (at_chats tb_chats_close)]"

definition reset_to_connect :: "'w TbViews \<Rightarrow> cstring \<Rightarrow> cstring option \<Rightarrow> bool \<Rightarrow> ('x, 'v, 'w) handler" where
  "reset_to_connect V body hint retry =
     steps ([close_views V, on_main (\<lambda>m. m\<lparr>ma_account := - 1\<rparr>),
        view V (NOTICE_SET WIN_CONNECT (vw_strings V ''title'') body hint retry), push_missing V WIN_CONNECT False] @
       map (remove_present V) [WIN_MEDIA, WIN_READER, WIN_HISTORY, WIN_CHATS, WIN_ACCOUNTS, WIN_INFO])"

definition retry_session :: "('x, 'v, 'w) handler" where
  "retry_session = on_app (at_session tb_session_retry)"

definition show_info :: "'w TbViews \<Rightarrow> cstring \<Rightarrow> cstring \<Rightarrow> ('x, 'v, 'w) handler" where
  "show_info V title body =
     steps [view V (NOTICE_SET WIN_INFO title (snprintf [] 256 (ascii ''%s'') [Arg_str body]) (Some (vw_strings V ''back_hint'')) False),
       push_missing V WIN_INFO True]"

section \<open>Accounts\<close>

definition remembered_account :: "'w TbViews \<Rightarrow> ('x, 'v, 'w) main \<Rightarrow> int" where
  "remembered_account V p =
     (let s = ap_session (app_of p);
          stored = (case vw_persisted V (ma_views (snd p)) of None \<Rightarrow> [] | Some v \<Rightarrow> strncpy TB_ACCOUNT_ID_SIZE v);
          found = (if stored \<noteq> [] then tb_session_find s stored else - 1)
      in if found \<ge> 0 then found
         else if se_default_account s \<noteq> [] then tb_session_find s (se_default_account s) else 0)"

definition account_explanation :: "TbStrings \<Rightarrow> u8 \<Rightarrow> cstring" where
  "account_explanation strings state =
     (if state = TB_ACCOUNT_STATE_NEEDS_LOGIN then strings ''account_needs_login''
      else if state = TB_ACCOUNT_STATE_LOGGING_OUT then strings ''state_logging_out''
      else if state = TB_ACCOUNT_STATE_REMOVING then strings ''account_gone''
      else strings ''state_connecting'')"

definition open_account :: "'w TbViews \<Rightarrow> int \<Rightarrow> ('x, 'v, 'w) handler" where
  "open_account V index p =
     (let s = ap_session (app_of p); account = se_accounts s ! nat index
      in if index < 0 \<or> index \<ge> int (length (se_accounts s)) then p
         else if ac_state account \<noteq> TB_ACCOUNT_STATE_READY
         then show_info V (ac_name account) (account_explanation (vw_strings V) (ac_state account)) p
         else steps
           [\<lambda>p. if ma_account (snd p) \<noteq> index then on_app (at_history tb_history_close) p else p,
            on_main (\<lambda>m. m\<lparr>ma_account := index\<rparr>), view V (PERSIST_WRITE (ac_id account)), view V CHATS_WINDOW_RESET,
            view V (CHATS_WINDOW_CONFIGURE (se_show_archive s) (se_unread_mode s)),
            on_app (at_connection (\<lambda>q. tb_connection_open q (ac_id account))),
            on_app (at_chats (\<lambda>q. tb_chats_open q (ac_id account) (se_chat_list s))), push_missing V WIN_CHATS True] p)"

definition route :: "'w TbViews \<Rightarrow> ('x, 'v, 'w) handler" where
  "route V p =
     (let s = ap_session (app_of p); str = vw_strings V; listed = in_stack V p WIN_ACCOUNTS \<or> in_stack V p WIN_CHATS
      in if tb_session_busy s then (if listed then p else show_connect V (str ''checking'') None False p)
         else if se_error s \<noteq> TB_ERROR_NONE
         then reset_to_connect V (tb_error_text str (se_error s)) (Some (str ''retry_hint'')) True p
         else if \<not> se_loaded s then p
         else if se_accounts s = []
         then reset_to_connect V (snprintf [] 160 (ascii ''%s'' @ [10] @ ascii ''%s/settings'')
                [Arg_str (str ''no_accounts''), Arg_str (se_host s)]) (Some (str ''retry_hint'')) True p
         else if listed
         then view V (ACCOUNTS_WINDOW_RELOAD (if ma_account (snd p) \<ge> 0 then ma_account (snd p) else remembered_account V p)) p
         else
           (let initial = tb_session_initial_account s
            in steps
              [view V (ACCOUNTS_WINDOW_RELOAD (if initial \<ge> 0 then initial else remembered_account V p)),
               \<lambda>p. if length (se_accounts s) > 1 \<or> initial < 0 then view V (WINDOW_PUSH WIN_ACCOUNTS False) p else p,
               \<lambda>p. if initial \<ge> 0 then open_account V initial p else p,
               remove_present V WIN_CONNECT] p))"

text \<open>An error that ends more than one view: the result tells whether it was one.\<close>

definition account_lost :: "int \<Rightarrow> int \<Rightarrow> 'v TbSession \<Rightarrow> 'v TbSession" where
  "account_lost account error s =
     (if account \<ge> 0 \<and> account < int (length (se_accounts s))
      then s\<lparr>se_accounts := (se_accounts s)[nat account := (se_accounts s ! nat account)
        \<lparr>ac_state := (if error = TB_RESULT_ACCOUNT_GONE then TB_ACCOUNT_STATE_REMOVING else TB_ACCOUNT_STATE_NEEDS_LOGIN)\<rparr>]\<rparr>
      else s)"

definition handle_fatal :: "'w TbViews \<Rightarrow> int \<Rightarrow> ('x, 'v, 'w) main \<Rightarrow> bool \<times> ('x, 'v, 'w) main" where
  "handle_fatal V error p =
     (let str = vw_strings V; s = ap_session (app_of p); account = ma_account (snd p);
          name = (if account \<ge> 0 \<and> account < int (length (se_accounts s)) then ac_name (se_accounts s ! nat account) else str ''title'')
      in if tb_error_is_connection_level error
         then (True, reset_to_connect V (tb_error_text str error) (Some (str ''retry_hint'')) True p)
         else if \<not> tb_error_is_account_level error then (False, p)
         else (True, steps
           [on_app (at_session (map_prod id (account_lost account error))), close_views V,
            remove_present V WIN_MEDIA, remove_present V WIN_READER, remove_present V WIN_HISTORY,
            push_missing V WIN_ACCOUNTS False, remove_present V WIN_CHATS,
            view V (ACCOUNTS_WINDOW_RELOAD account), show_info V name (tb_error_text str error)] p))"

section \<open>Reloading the windows\<close>

definition reload_fired :: "'w TbViews \<Rightarrow> ('x, 'v, 'w) handler" where
  "reload_fired V p =
     (let pending = ma_reload_pending (snd p);
          reload = \<lambda>flag call p. if has_flag pending flag then view V call p else p
      in steps
        [on_main (\<lambda>m. m\<lparr>ma_reload_timer := False, ma_reload_pending := 0\<rparr>),
         reload TB_RELOAD_CHATS CHATS_WINDOW_RELOAD, reload TB_RELOAD_HISTORY HISTORY_WINDOW_RELOAD,
         reload TB_RELOAD_READER READER_WINDOW_RELOAD, reload TB_RELOAD_COMPOSE COMPOSE_VIEW_RELOAD,
         reload TB_RELOAD_MEDIA MEDIA_WINDOW_RELOAD,
         reload TB_RELOAD_NOTIFY (NOTIFY_VIEW_REFRESH WIN_CHATS), reload TB_RELOAD_NOTIFY (NOTIFY_VIEW_REFRESH WIN_HISTORY)] p)"

definition reload_later :: "'w TbViews \<Rightarrow> u8 \<Rightarrow> ('x, 'v, 'w) handler" where
  "reload_later V views =
     on_main (\<lambda>m. let m1 = m\<lparr>ma_reload_pending := ma_reload_pending m OR views\<rparr>
        in if ma_reload_timer m1 then m1
           else (case vw_register V (ma_views m1) of (ok, w) \<Rightarrow> m1\<lparr>ma_reload_timer := ok, ma_views := w\<rparr>))"

section \<open>What the components report\<close>

definition chats_notice :: "'w TbViews \<Rightarrow> ('x, 'v, 'w) handler" where
  "chats_notice V p =
     (let c = ap_chats (app_of p); str = vw_strings V
      in if cs_error c = TB_ERROR_NONE \<or> cs_load c \<noteq> TB_CHATS_IDLE \<or> cs_tail c = TB_TAIL_FAILED \<or> \<not> cs_loaded c
         then notify_clear TB_NOTIFY_CHATS p
         else notify_post TB_NOTIFY_CHATS TB_NOTIFY_WARNING TB_NOTIFY_REFRESH (str ''not_updated'')
           (if cs_error c = TB_RESULT_RATE_LIMITED \<and> cs_retry_after c > 0
            then snprintf [] TB_NOTIFY_BODY_SIZE (str ''wait_seconds'') [Arg_int (sint (cs_retry_after c))]
            else snprintf [] TB_NOTIFY_BODY_SIZE (ascii ''%s'') [Arg_str (tb_error_text str (cs_error c))]) p)"

definition connection_notice :: "'w TbViews \<Rightarrow> ('x, 'v, 'w) handler" where
  "connection_notice V p =
     (let c = ap_connection (app_of p); str = vw_strings V
      in case co_error c of
           TB_CONNECTION_ERROR_CANNOT_CONNECT \<Rightarrow>
             notify_post TB_NOTIFY_CONNECTION TB_NOTIFY_ERROR TB_NOTIFY_REFRESH (str ''cannot_connect'')
               (if co_proxy c then str ''try_change_proxy'' else str ''try_enable_proxy'') p
         | TB_CONNECTION_ERROR_LONG_UPDATE \<Rightarrow>
             notify_post TB_NOTIFY_CONNECTION TB_NOTIFY_WARNING TB_NOTIFY_REFRESH (str ''title'') (str ''long_update'') p
         | TB_CONNECTION_ERROR_NONE \<Rightarrow> notify_clear TB_NOTIFY_CONNECTION p)"

text \<open>Run \<open>rest\<close> unless the error of the component ended the views.\<close>

definition unless_fatal :: "'w TbViews \<Rightarrow> bool \<Rightarrow> int \<Rightarrow> ('x, 'v, 'w) handler \<Rightarrow> ('x, 'v, 'w) handler" where
  "unless_fatal V failed error rest p =
     (if failed then (case handle_fatal V error p of (fatal, p1) \<Rightarrow> if fatal then p1 else rest p1) else rest p)"

definition main_chats_changed :: "'w TbViews \<Rightarrow> ('x, 'v, 'w) handler" where
  "main_chats_changed V p =
     (let error = cs_error (ap_chats (app_of p))
      in unless_fatal V (error \<noteq> TB_ERROR_NONE) error
        (steps
          [chats_notice V,
           \<lambda>p. (let c = ap_chats (app_of p)
                in if cs_summary_revision c \<noteq> ma_summary_revision (snd p)
                   then steps [on_main (\<lambda>m. m\<lparr>ma_summary_revision := cs_summary_revision c\<rparr>),
                     on_app (at_connection (map_prod id (\<lambda>n. tb_connection_summary n (cs_connection c) (cs_proxy c))))] p
                   else p),
           reload_later V TB_RELOAD_CHATS]) p)"

definition main_connection_changed :: "'w TbViews \<Rightarrow> ('x, 'v, 'w) handler" where
  "main_connection_changed V = steps [connection_notice V, reload_later V TB_RELOAD_CHATS]"

definition connection_reload :: "('x, 'v, 'w) handler" where
  "connection_reload = on_app (at_chats tb_chats_refresh)"

definition main_history_changed :: "'w TbViews \<Rightarrow> ('x, 'v, 'w) handler" where
  "main_history_changed V p =
     (let error = hi_error (ap_history (app_of p)); str = vw_strings V
      in unless_fatal V (error \<noteq> TB_ERROR_NONE) error
        (if error \<noteq> TB_ERROR_NONE \<and> error = TB_RESULT_CHAT_NOT_FOUND
         then steps
           [on_app (at_history tb_history_close), on_app (at_history (map_prod id (\<lambda>h. h\<lparr>hi_loaded := False\<rparr>))),
            remove_present V WIN_HISTORY, show_info V (str ''title'') (str ''chat_not_found''), on_app (at_chats tb_chats_refresh)]
         else reload_later V TB_RELOAD_HISTORY) p)"

definition open_quote :: "('x, 'v, 'w) handler" where
  "open_quote p =
     (let h = ap_history (app_of p); quoted = ma_quote_id (snd p)
      in if quoted = [] \<or> mt_loading (ap_text (app_of p)) then p
         else steps [on_app (at_quote (\<lambda>q. snd (tb_message_text_open q (hi_account h) (hi_chat h) quoted))),
           on_main (\<lambda>m. m\<lparr>ma_quote_id := []\<rparr>)] p)"

definition main_text_changed :: "'w TbViews \<Rightarrow> ('x, 'v, 'w) handler" where
  "main_text_changed V p =
     (let error = mt_error (ap_text (app_of p))
      in unless_fatal V (error \<noteq> TB_ERROR_NONE) error (steps [open_quote, reload_later V TB_RELOAD_READER]) p)"

definition main_quote_changed :: "'w TbViews \<Rightarrow> ('x, 'v, 'w) handler" where
  "main_quote_changed V p =
     (let error = mt_error (ap_quote (app_of p))
      in unless_fatal V (error \<noteq> TB_ERROR_NONE) error (reload_later V TB_RELOAD_READER) p)"

definition main_media_changed :: "'w TbViews \<Rightarrow> ('x, 'v, 'w) handler" where
  "main_media_changed V p =
     (let m = ap_media (app_of p)
      in unless_fatal V (md_phase m = TB_MEDIA_ERROR) (md_error m) (reload_later V (TB_RELOAD_READER OR TB_RELOAD_MEDIA)) p)"

definition main_compose_changed :: "'w TbViews \<Rightarrow> ('x, 'v, 'w) handler" where
  "main_compose_changed V = reload_later V TB_RELOAD_COMPOSE"

definition main_notify_changed :: "'w TbViews \<Rightarrow> ('x, 'v, 'w) handler" where
  "main_notify_changed V = reload_later V TB_RELOAD_NOTIFY"

section \<open>Chats and messages\<close>

definition open_chat :: "'w TbViews \<Rightarrow> int \<Rightarrow> ('x, 'v, 'w) handler" where
  "open_chat V index p =
     (let c = ap_chats (app_of p); chat = cs_items c ! nat index
      in if index < 0 \<or> index \<ge> int (length (cs_items c)) \<or> ma_account (snd p) < 0 then p
         else steps
           [view V (if tb_history_is (ap_history (app_of p)) (cs_account c) (ch_id chat)
                    then HISTORY_WINDOW_PLACED else HISTORY_WINDOW_RESET),
            view V (HISTORY_WINDOW_SET_SEND (ch_send chat)),
            on_app (at_history (\<lambda>q. tb_history_open q (cs_account c) (ch_id chat) (ch_type chat) (has_flag (ch_flags chat) TB_CHAT_FLAG_SAVED))),
            push_missing V WIN_HISTORY True] p)"

definition view_close_args :: "'v TbHistory \<Rightarrow> TbRequestArgs" where
  "view_close_args h = (request_args TB_REQUEST_VIEW_CLOSE)
     \<lparr>ra_account := strncpy TB_ACCOUNT_ID_SIZE (hi_account h), ra_chat := strncpy TB_TELEGRAM_ID_SIZE (hi_chat h)\<rparr>"

definition at_requests :: "(TbRequestArgs \<times> u32 \<times> u8 \<times> bool) \<Rightarrow> 'x TbRequestLayer \<times> 'v TbApp \<Rightarrow> 'x TbRequestLayer \<times> 'v TbApp" where
  "at_requests req p = (case req of (args, timeout, attempts, resend) \<Rightarrow>
     (fst (tb_requests_submit (fst p) (Some args) timeout attempts resend None), snd p))"

definition history_closed :: "('x, 'v, 'w) handler" where
  "history_closed p =
     (let h = ap_history (app_of p)
      in if hi_account h = [] \<or> hi_chat h = [] then p
         else steps [on_app (at_history tb_history_close),
           \<lambda>p. on_app (at_requests (view_close_args (ap_history (app_of p)), TB_DATA_TIMEOUT, 2, False)) p] p)"

definition chat_title_of :: "TbStrings \<Rightarrow> 'v TbChats \<Rightarrow> cstring \<Rightarrow> cstring" where
  "chat_title_of str c chat =
     (let found = tb_chats_find c chat; item = cs_items c ! nat found
      in if found < 0 then []
         else if has_flag (ch_flags item) TB_CHAT_FLAG_SAVED then str ''saved_messages'' else tb_or_empty (ch_title item))"

definition has_photo :: "TbMessage \<Rightarrow> bool" where
  "has_photo message = has_flag (ms_media message) (TB_MEDIA_FLAG_IMAGE OR TB_MEDIA_FLAG_RESTRICTED)"

definition message_name :: "TbStrings \<Rightarrow> 'v TbApp \<Rightarrow> TbMessage \<Rightarrow> cstring" where
  "message_name str a message =
     (let h = ap_history a; private_chat = (hi_chat_type h = TB_CHAT_TYPE_PRIVATE \<or> hi_chat_type h = TB_CHAT_TYPE_SECRET)
      in if hi_saved h \<and> tb_or_empty (ms_forward message) \<noteq> [] then []
         else if has_flag (ms_flags message) TB_MESSAGE_FLAG_OUTGOING then str ''you''
         else if tb_or_empty (ms_sender message) \<noteq> [] then tb_or_empty (ms_sender message)
         else if private_chat then chat_title_of str (ap_chats a) (hi_chat h) else [])"

definition open_message :: "'w TbViews \<Rightarrow> int \<Rightarrow> ('x, 'v, 'w) handler" where
  "open_message V index p =
     (let h = ap_history (app_of p); message = hi_items h ! nat index
      in if index < 0 \<or> index \<ge> int (length (hi_items h)) then p
         else steps
           [on_app (at_text tb_message_text_close), on_app (at_quote tb_message_text_close),
            on_app (at_text (map_prod id (\<lambda>t. t\<lparr>mt_error := TB_ERROR_NONE\<rparr>))),
            on_app (at_quote (map_prod id (\<lambda>t. t\<lparr>mt_error := TB_ERROR_NONE\<rparr>))),
            view V (READER_WINDOW_SHOW message (message_name (vw_strings V) (app_of p) message) (tb_or_empty (ms_forward message))),
            on_main (\<lambda>m. m\<lparr>ma_quote_id := snprintf [] TB_TELEGRAM_ID_SIZE (ascii ''%s'')
              [Arg_str (if has_flag (ms_flags message) TB_MESSAGE_FLAG_REPLY then tb_or_empty (ms_reply_id message) else [])]\<rparr>),
            \<lambda>p. if has_flag (ms_flags message) TB_MESSAGE_FLAG_TRUNCATED
                then on_app (at_text (\<lambda>q. snd (tb_message_text_open q (hi_account h) (hi_chat h) (ms_id message)))) p else p,
            open_quote,
            if has_photo message then steps
              [on_app (at_media (\<lambda>q. tb_media_bind q (hi_account h) (hi_chat h) (ms_id message) (ms_media message) (ms_media_count message))),
               \<lambda>p. if se_photo_mode (ap_session (app_of p)) = TB_PHOTO_MODE_AUTO then on_app (at_media tb_media_load) p else p]
            else on_app (at_media tb_media_close),
            view V (WINDOW_PUSH WIN_READER True)] p)"

definition view_photo :: "'w TbViews \<Rightarrow> ('x, 'v, 'w) handler" where
  "view_photo V p =
     (if md_account (ap_media (app_of p)) = [] then p
      else steps [on_app (at_media tb_media_load),
        \<lambda>p. view V (MEDIA_WINDOW_SHOW (ms_kind (vw_reader_message V (ma_views (snd p))))) p] p)"

section \<open>Writing and sending\<close>

definition history_open_for :: "'w TbViews \<Rightarrow> ('x, 'v, 'w) main \<Rightarrow> TbSendTarget \<Rightarrow> bool" where
  "history_open_for V p target \<longleftrightarrow> in_stack V p WIN_HISTORY \<and>
     hi_account (ap_history (app_of p)) = tg_account target \<and> hi_chat (ap_history (app_of p)) = tg_chat target"

datatype TbDictationResult =
  TB_DICTATION_OK | TB_DICTATION_CANCELLED | TB_DICTATION_NO_SPEECH | TB_DICTATION_OFFLINE | TB_DICTATION_DISABLED | TB_DICTATION_FAILED

definition dictated :: "'w TbViews \<Rightarrow> TbDictationResult \<Rightarrow> bytes \<Rightarrow> nat \<Rightarrow> ('x, 'v, 'w) handler" where
  "dictated V result words len p =
     (let c = ap_compose (app_of p)
      in if result \<noteq> TB_DICTATION_OK \<or> len = 0 \<or> \<not> cm_open c then p
         else steps
           [on_app (at_compose (\<lambda>q. snd (tb_compose_dictated q (Some words) len))),
            if fst (tb_compose_dictated (fst p, c) (Some words) len) then view V COMPOSE_VIEW_REVIEW else id] p)"

definition start_dictation :: "'w TbViews \<Rightarrow> ('x, 'v, 'w) handler" where
  "start_dictation V p =
     (case vw_dictation_start V (ma_views (snd p)) of (ok, w) \<Rightarrow>
        (let p1 = on_main (\<lambda>m. m\<lparr>ma_views := w\<rparr>) p in if ok then p1 else view V PULSE_SHORT p1))"

text \<open>\<open>quote\<close>: a text cut to an array of \<open>n\<close> bytes, on one line.\<close>

definition quote :: "nat \<Rightarrow> cstring \<Rightarrow> cstring" where
  "quote n words =
     (let cut = (length words \<ge> n); fit = tb_utf8_fit words (length words) (if cut then n - 3 else n)
      in map (\<lambda>b. if b = 10 then 32 else b) (take fit words @ (if cut then [0xE2, 0x80, 0xA6] else [])))"

definition compose_target :: "TbStrings \<Rightarrow> ('v, 'w) TbMain \<Rightarrow> TbMessage option \<Rightarrow> cstring option \<Rightarrow> TbComposeTarget" where
  "compose_target str m reply reply_text =
     (let a = ma_app m; h = ap_history a; accounts = se_accounts (ap_session a);
          target = compose_target_zero
            \<lparr>ct_send := \<lparr>tg_account = strncpy TB_ACCOUNT_ID_SIZE (hi_account h), tg_chat = strncpy TB_TELEGRAM_ID_SIZE (hi_chat h), tg_reply = []\<rparr>,
             ct_account_name := (if ma_account m \<ge> 0 \<and> ma_account m < int (length accounts)
               then quote TB_COMPOSE_NAME_SIZE (ac_name (accounts ! nat (ma_account m))) else []),
             ct_chat_title := quote TB_COMPOSE_NAME_SIZE (chat_title_of str (ap_chats a) (hi_chat h))\<rparr>
      in case reply of
           None \<Rightarrow> target
         | Some message \<Rightarrow> target
             \<lparr>ct_send := (ct_send target)\<lparr>tg_reply := strncpy TB_TELEGRAM_ID_SIZE (ms_id message)\<rparr>,
              ct_reply_sender := quote TB_COMPOSE_NAME_SIZE
                (if has_flag (ms_flags message) TB_MESSAGE_FLAG_OUTGOING then str ''you'' else tb_or_empty (ms_sender message)),
              ct_reply_text := quote TB_COMPOSE_QUOTE_SIZE (case reply_text of None \<Rightarrow> [] | Some t \<Rightarrow> t)\<rparr>)"

definition begin_compose :: "'w TbViews \<Rightarrow> TbMessage option \<Rightarrow> cstring option \<Rightarrow> ('x, 'v, 'w) handler" where
  "begin_compose V reply reply_text p =
     (let h = ap_history (app_of p); target = compose_target (vw_strings V) (snd p) reply reply_text;
          p1 = on_app (at_compose (\<lambda>q. snd (tb_compose_open q (Some target)))) p
      in if hi_account h = [] \<or> hi_chat h = [] then p
         else if \<not> fst (tb_compose_open (fst p, ap_compose (app_of p)) (Some target)) then p1
         else (case vw_dictation_open V (ma_views (snd p1)) of (dictation, w) \<Rightarrow>
                 view V (COMPOSE_VIEW_OPEN dictation) (on_main (\<lambda>m. m\<lparr>ma_views := w\<rparr>) p1)))"

text \<open>The operation of the tracker that sends: the draft of the compose component, or the last one again.\<close>

datatype TbComposeSendMode = TB_COMPOSE_SEND | TB_COMPOSE_SEND_AGAIN | TB_COMPOSE_SEND_ANYWAY

definition send_draft :: "'v TbCompose \<Rightarrow> 'x TbRequestLayer \<times> 'v TbSendTracker \<Rightarrow> bool \<times> 'x TbRequestLayer \<times> 'v TbSendTracker" where
  "send_draft c q = tb_send_start q (Some (ct_send (cm_target c))) (cm_draft_id c) False (Some (ct_chat_title (cm_target c)))
     (Some (quote TB_SEND_PREVIEW_SIZE (tb_or_empty (cm_text c))))"

definition send_again :: "'x TbRequestLayer \<times> 'v TbSendTracker \<Rightarrow> bool \<times> 'x TbRequestLayer \<times> 'v TbSendTracker" where
  "send_again q = (let st = sd_status (snd q)
     in tb_send_start q (Some (ss_target st)) (ss_draft_id st) True (Some (ss_title st)) (Some (ss_preview st)))"

definition compose_send :: "TbComposeSendMode \<Rightarrow> ('x, 'v, 'w) main \<Rightarrow> bool \<times> ('x, 'v, 'w) main" where
  "compose_send mode p =
     (let f = (if mode = TB_COMPOSE_SEND then send_draft (ap_compose (app_of p)) else send_again)
      in (fst (f (fst p, ap_tracker (app_of p))), on_app (at_tracker (\<lambda>q. snd (f q))) p))"

definition compose_check :: "('x, 'v, 'w) handler" where
  "compose_check = on_app (at_tracker (\<lambda>q. snd (tb_send_check q)))"

definition compose_open_chat :: "'w TbViews \<Rightarrow> ('x, 'v, 'w) handler" where
  "compose_open_chat V = steps [view V COMPOSE_VIEW_CLOSE_ALL, remove_present V WIN_READER]"

definition compose_finished :: "'w TbViews \<Rightarrow> bool \<Rightarrow> ('x, 'v, 'w) handler" where
  "compose_finished V sent p =
     (let st = sd_status (ap_tracker (app_of p)); attempted = (ss_draft_id st \<noteq> 0 \<and> ss_draft_id st = cm_draft_id (ap_compose (app_of p)))
      in steps
        [view V DICTATION_CLOSE, on_app (at_compose (\<lambda>q. tb_compose_close q attempted)),
         if sent then steps [view V HISTORY_WINDOW_FOLLOW, on_app (at_history tb_history_refresh)]
         else (\<lambda>p. if tb_send_busy (ap_tracker (app_of p))
           then notify_post TB_NOTIFY_SEND TB_NOTIFY_INFO TB_NOTIFY_WAIT (ss_title (sd_status (ap_tracker (app_of p))))
             (vw_strings V ''sending_continues'') p else p),
         on_main (\<lambda>m. m\<lparr>ma_compose_from_reader := False\<rparr>)] p)"

definition late_result :: "'w TbViews \<Rightarrow> TbSendStatus \<Rightarrow> ('x, 'v, 'w) handler" where
  "late_result V status p =
     (let str = vw_strings V; title = (if ss_title status \<noteq> [] then ss_title status else str ''title'')
      in case ss_phase status of
           TB_SENDING_SENT \<Rightarrow> steps
             [notify_post TB_NOTIFY_SEND TB_NOTIFY_INFO TB_NOTIFY_NO_ACTION title
                (if has_flag (ss_flags status) TB_SEND_FLAG_REPLY_DROPPED then str ''sent_no_reply'' else str ''sent''),
              \<lambda>p. if history_open_for V p (ss_target status)
                  then steps [view V HISTORY_WINDOW_FOLLOW, on_app (at_history tb_history_refresh)] p else p] p
         | TB_SENDING_FAILED \<Rightarrow> steps
             [notify_post TB_NOTIFY_SEND TB_NOTIFY_ERROR TB_NOTIFY_OPEN_CHAT title
                (snprintf [] TB_NOTIFY_BODY_SIZE (ascii ''%s: %s'') [Arg_str (str ''not_sent''), Arg_str (tb_error_text str (ss_code status))]),
              view V PULSE_DOUBLE] p
         | TB_SENDING_UNKNOWN \<Rightarrow> steps
             [notify_post TB_NOTIFY_SEND TB_NOTIFY_ERROR TB_NOTIFY_CHECK title (str ''result_unknown''), view V PULSE_DOUBLE] p
         | TB_SENDING_PENDING \<Rightarrow>
             if ss_restored status
             then notify_post TB_NOTIFY_SEND TB_NOTIFY_WARNING TB_NOTIFY_CHECK
               (snprintf [] TB_NOTIFY_TITLE_SIZE (str ''last_message_in'') [Arg_str title]) (ss_preview status) p
             else p
         | _ \<Rightarrow> p)"

definition main_send_changed :: "'w TbViews \<Rightarrow> TbSendStatus \<Rightarrow> ('x, 'v, 'w) handler" where
  "main_send_changed V status p =
     (if vw_result V (ma_views (snd p)) = Some (ss_draft_id status)
      then steps [notify_clear TB_NOTIFY_SEND, view V (COMPOSE_VIEW_STATUS status)] p
      else late_result V status p)"

text \<open>A state that the phone reports of a draft the tracker does not follow.\<close>

definition foreign_status :: "TbSendStateRecord \<Rightarrow> bool \<Rightarrow> TbSendStatus" where
  "foreign_status rec restored = send_status_zero
     \<lparr>ss_draft_id := ssr_draft_id rec, ss_phase := phase_of (ssr_state rec), ss_code := int (unat (ssr_code rec)),
      ss_flags := ssr_flags rec, ss_restored := restored,
      ss_target := \<lparr>tg_account = tb_copy_span [] TB_ACCOUNT_ID_SIZE (ssr_account rec),
        tg_chat = tb_copy_span [] TB_TELEGRAM_ID_SIZE (ssr_chat rec), tg_reply = []\<rparr>,
      ss_title := tb_copy_span [] TB_SEND_TITLE_SIZE (ssr_title rec), ss_preview := tb_copy_span [] TB_SEND_PREVIEW_SIZE (ssr_preview rec)\<rparr>"

definition send_record :: "'w TbViews \<Rightarrow> u8 \<Rightarrow> bytes \<Rightarrow> u16 \<Rightarrow> ('x, 'v, 'w) handler" where
  "send_record V t data len p =
     (case tb_codec_send_state (tb_cursor_init (Some data) len) of
        None \<Rightarrow> p
      | Some rec \<Rightarrow>
          (let restored = (t = TB_RECORD_PENDING_SEND);
               p1 = on_app (at_tracker (map_prod id (\<lambda>s. snd (tb_send_record s rec restored)))) p
           in if fst (tb_send_record (ap_tracker (app_of p)) rec restored) then p1
              else late_result V (foreign_status rec restored) p1))"

definition send_records_record :: "'w TbViews \<Rightarrow> u8 \<Rightarrow> TbCursor \<Rightarrow> ('x, 'v, 'w) main \<Rightarrow> ('x, 'v, 'w) main \<times> unit option" where
  "send_records_record V t body p =
     ((if t = TB_RECORD_SEND_STATE \<or> t = TB_RECORD_PENDING_SEND then send_record V t (cur_data body) (cur_length body) p else p), None)"

definition send_records :: "'w TbViews \<Rightarrow> bytes \<Rightarrow> u16 \<Rightarrow> ('x, 'v, 'w) handler" where
  "send_records V payload len p = fst (records_loop () () (send_records_record V) (tb_cursor_init (Some payload) len) p)"

definition session_extra :: "'w TbViews \<Rightarrow> u8 \<Rightarrow> bytes \<Rightarrow> u16 \<Rightarrow> ('x, 'v, 'w) handler" where
  "session_extra V t data len = send_record V t data len"

definition retry_failed :: "'w TbViews \<Rightarrow> ('x, 'v, 'w) handler" where
  "retry_failed V p =
     (let st = sd_status (ap_tracker (app_of p)); p1 = on_app (at_tracker (\<lambda>q. snd (send_again q))) p
      in if fst (send_again (fst p, ap_tracker (app_of p)))
         then notify_post TB_NOTIFY_SEND TB_NOTIFY_INFO TB_NOTIFY_WAIT (ss_title st) (vw_strings V ''sending'') p1
         else view V PULSE_SHORT p1)"

definition retry_available :: "'v TbApp \<Rightarrow> cstring \<Rightarrow> bool" where
  "retry_available a message_id \<longleftrightarrow>
     (let st = sd_status (ap_tracker a)
      in ss_draft_id st \<noteq> 0 \<and> (ss_phase st = TB_SENDING_FAILED \<or> ss_phase st = TB_SENDING_UNKNOWN) \<and>
         (has_flag (ss_flags st) TB_SEND_FLAG_RETRYABLE \<or> ss_phase st = TB_SENDING_UNKNOWN) \<and> message_id \<noteq> [] \<and>
         ss_message st = message_id \<and> tg_chat (ss_target st) = hi_chat (ap_history a))"

definition open_chat_of :: "'w TbViews \<Rightarrow> TbSendTarget \<Rightarrow> ('x, 'v, 'w) handler" where
  "open_chat_of V target p =
     (let c = ap_chats (app_of p); found = tb_chats_find c (tg_chat target)
      in if history_open_for V p target then steps [view V COMPOSE_VIEW_CLOSE_ALL, remove_present V WIN_READER] p
         else if cs_account c \<noteq> tg_account target then p
         else if found \<ge> 0
         then steps [view V COMPOSE_VIEW_CLOSE_ALL, remove_present V WIN_READER, remove_present V WIN_HISTORY, open_chat V found] p
         else p)"

section \<open>Notifications and menus\<close>

definition run_notify_action :: "'w TbViews \<Rightarrow> TbNotifyAction \<Rightarrow> TbNotifySource \<Rightarrow> ('x, 'v, 'w) handler" where
  "run_notify_action V action source p =
     (case action of
        TB_NOTIFY_REFRESH \<Rightarrow> steps
          [notify_clear source, on_app (at_connection tb_connection_refresh), on_app (at_chats tb_chats_refresh),
           \<lambda>p. if in_stack V p WIN_HISTORY then on_app (at_history tb_history_refresh) p else p] p
      | TB_NOTIFY_CHECK \<Rightarrow>
          (let p1 = notify_clear source p; p2 = on_app (at_tracker (\<lambda>q. snd (tb_send_check q))) p1
           in if fst (tb_send_check (fst p1, ap_tracker (app_of p1))) then p2
              else late_result V (sd_status (ap_tracker (app_of p2))) p2)
      | TB_NOTIFY_OPEN_CHAT \<Rightarrow> steps
          [notify_clear source, \<lambda>p. open_chat_of V (ss_target (sd_status (ap_tracker (app_of p)))) p] p
      | _ \<Rightarrow> on_notify tb_notify_dismiss p)"

definition notify_activate :: "'w TbViews \<Rightarrow> TbNotification \<Rightarrow> ('x, 'v, 'w) handler" where
  "notify_activate V item = run_notify_action V (no_action item) (no_source item)"

definition tb_history_window_writable :: "u8 \<Rightarrow> bool" where
  "tb_history_window_writable send \<longleftrightarrow> send = TB_CAN_SEND_ALLOWED \<or> send = TB_CAN_SEND_UNKNOWN"

definition send_reason :: "TbStrings \<Rightarrow> u8 \<Rightarrow> cstring" where
  "send_reason str send =
     (if send = TB_CAN_SEND_RESTRICTED then str ''send_restricted''
      else if send = TB_CAN_SEND_NOT_MEMBER then str ''not_member''
      else if send = TB_CAN_SEND_BANNED then str ''banned''
      else if send = TB_CAN_SEND_SECRET_CHAT then str ''secret_chat''
      else if send = TB_CAN_SEND_USER_DELETED then str ''user_deleted''
      else str ''read_only'')"

definition write_to_chat :: "'w TbViews \<Rightarrow> ('x, 'v, 'w) handler" where
  "write_to_chat V p =
     (if \<not> tb_history_window_writable (vw_history_send V (ma_views (snd p))) then p
      else steps [on_main (\<lambda>m. m\<lparr>ma_compose_from_reader := False\<rparr>), begin_compose V None None] p)"

text \<open>The items of a menu, in the order the arrays \<open>labels\<close> and \<open>actions\<close> are filled.\<close>

definition media_menu_items :: "TbStrings \<Rightarrow> TbMediaPhase \<Rightarrow> (cstring \<times> u8) list" where
  "media_menu_items str phase =
     (if phase = TB_MEDIA_ERROR \<or> phase = TB_MEDIA_NO_MEMORY \<or> phase = TB_MEDIA_UNAVAILABLE
      then [(str ''media_retry'', TB_ACTION_MEDIA_RETRY)] else []) @
     (if phase = TB_MEDIA_SPOILER then [(str ''media_show_spoiler'', TB_ACTION_SPOILER)] else []) @
     [(str ''media_back'', TB_ACTION_BACK)]"

definition media_menu :: "'w TbViews \<Rightarrow> ('x, 'v, 'w) handler" where
  "media_menu V p = view V (ACTIONS_OPEN (media_menu_items (vw_strings V) (md_phase (ap_media (app_of p))))) p"

definition media_chosen :: "'w TbViews \<Rightarrow> u8 \<Rightarrow> ('x, 'v, 'w) handler" where
  "media_chosen V action p =
     (if action = TB_ACTION_MEDIA_RETRY then on_app (at_media tb_media_retry) p
      else if action = TB_ACTION_SPOILER then on_app (at_media tb_media_reveal) p
      else if action = TB_ACTION_BACK \<and> in_stack V p WIN_MEDIA then view V (WINDOW_REMOVE WIN_MEDIA True) p
      else p)"

definition reply_item :: "TbStrings \<Rightarrow> u8 \<Rightarrow> cstring \<times> u8" where
  "reply_item str send =
     (if tb_history_window_writable send then (str ''reply'', TB_ACTION_REPLY) else (send_reason str send, TB_ACTION_NONE))"

definition message_menu_items :: "TbStrings \<Rightarrow> u8 \<Rightarrow> 'v TbApp \<Rightarrow> TbMessage \<Rightarrow> (cstring \<times> u8) list" where
  "message_menu_items str send a message =
     (if has_photo message then [(str ''view_photo'', TB_ACTION_VIEW)] else []) @
     [reply_item str send, (str ''open'', TB_ACTION_OPEN)] @
     (if retry_available a (ms_id message) then [(str ''retry_send'', TB_ACTION_RETRY)] else [])"

definition message_menu :: "'w TbViews \<Rightarrow> int \<Rightarrow> ('x, 'v, 'w) handler" where
  "message_menu V index p =
     (let items = hi_items (ap_history (app_of p))
      in if index < 0 \<or> index \<ge> int (length items) then p
         else steps [on_main (\<lambda>m. m\<lparr>ma_menu_message := index\<rparr>),
           view V (ACTIONS_OPEN (message_menu_items (vw_strings V) (vw_history_send V (ma_views (snd p))) (app_of p) (items ! nat index)))] p)"

definition message_chosen :: "'w TbViews \<Rightarrow> u8 \<Rightarrow> ('x, 'v, 'w) handler" where
  "message_chosen V action p =
     (let index = ma_menu_message (snd p); items = hi_items (ap_history (app_of p)); message = items ! nat index
      in if index < 0 \<or> index \<ge> int (length items) then p
         else if action = TB_ACTION_REPLY
         then steps [on_main (\<lambda>m. m\<lparr>ma_compose_from_reader := False\<rparr>),
           begin_compose V (Some message) (map_option cstr (ms_text message))] p
         else if action = TB_ACTION_OPEN then open_message V index p
         else if action = TB_ACTION_VIEW then steps [open_message V index, view_photo V] p
         else if action = TB_ACTION_RETRY then retry_failed V p
         else p)"

definition reader_menu_items :: "TbStrings \<Rightarrow> u8 \<Rightarrow> 'v TbApp \<Rightarrow> TbMessage \<Rightarrow> (cstring \<times> u8) list" where
  "reader_menu_items str send a message =
     (if mt_error (ap_text a) \<noteq> TB_ERROR_NONE then [(str ''media_retry'', TB_ACTION_MEDIA_RETRY)] else []) @
     (if md_account (ap_media a) \<noteq> [] \<and> md_phase (ap_media a) \<noteq> TB_MEDIA_NONE then [(str ''view_photo'', TB_ACTION_VIEW)] else []) @
     [reply_item str send] @
     (if tb_history_window_writable send then [(str ''write_to_chat'', TB_ACTION_WRITE)] else []) @
     (if retry_available a (ms_id message) then [(str ''retry_send'', TB_ACTION_RETRY)] else [])"

definition reader_menu :: "'w TbViews \<Rightarrow> ('x, 'v, 'w) handler" where
  "reader_menu V p = view V (ACTIONS_OPEN (reader_menu_items (vw_strings V) (vw_history_send V (ma_views (snd p))) (app_of p)
     (vw_reader_message V (ma_views (snd p))))) p"

definition reader_chosen :: "'w TbViews \<Rightarrow> u8 \<Rightarrow> ('x, 'v, 'w) handler" where
  "reader_chosen V action p =
     (let from_reader = on_main (\<lambda>m. m\<lparr>ma_compose_from_reader := True\<rparr>); w = ma_views (snd p)
      in if action = TB_ACTION_MEDIA_RETRY then on_app (at_text tb_message_text_retry) p
         else if action = TB_ACTION_REPLY
         then steps [from_reader, begin_compose V (Some (vw_reader_message V w)) (vw_reader_fallback V w)] p
         else if action = TB_ACTION_WRITE then steps [from_reader, begin_compose V None None] p
         else if action = TB_ACTION_VIEW then view_photo V p
         else if action = TB_ACTION_RETRY then retry_failed V p
         else p)"

section \<open>The phone, the timers and the focus\<close>

definition settings_changed :: "'w TbViews \<Rightarrow> ('x, 'v, 'w) handler" where
  "settings_changed V =
     steps [reset_to_connect V (vw_strings V ''checking'') None False, on_app (at_session tb_session_refresh)]"

definition inbox_received :: "'w TbViews \<Rightarrow> dictionary \<Rightarrow> ('x, 'v, 'w) handler" where
  "inbox_received V dict p =
     (case (integer (dict KEY_RESPONSE_KIND), integer (dict KEY_REQUEST_SEQ)) of
        (Some kind, Some sequence) \<Rightarrow>
          (if kind = TB_RESPONSE_READY
           then (if sequence > 0 then on_app (at_session (\<lambda>q. tb_session_ready q (word_of_int sequence))) p else p)
           else if kind = TB_RESPONSE_REFRESH then settings_changed V p
           else if kind = TB_RESPONSE_PUSH
           then (case dict KEY_PAYLOAD of
                   None \<Rightarrow> p
                 | Some t \<Rightarrow> if tu_type t = TUPLE_BYTE_ARRAY then send_records V (tu_value t) (tu_length t) p else p)
           else on_app (inbox_data dict) p)
      | _ \<Rightarrow> p)"

definition link_error :: "int \<Rightarrow> bool" where
  "link_error error \<longleftrightarrow> error = TB_ERROR_PHONE_UNREACHABLE \<or> error = TB_ERROR_NO_RESPONSE"

definition phone_connection :: "'w TbViews \<Rightarrow> bool \<Rightarrow> ('x, 'v, 'w) handler" where
  "phone_connection V connected p =
     (let s = ap_session (app_of p)
      in if \<not> connected then p
         else if \<not> tb_session_busy s \<and> link_error (se_error s) then on_app (at_session tb_session_retry) p
         else steps
           [\<lambda>p. if in_stack V p WIN_CHATS \<and> link_error (cs_error (ap_chats (app_of p))) then on_app (at_chats tb_chats_retry) p else p,
            \<lambda>p. (let h = ap_history (app_of p)
                 in if \<not> in_stack V p WIN_HISTORY then p
                    else if link_error (hi_error h) \<or> link_error (hi_top_error h) then on_app (at_history tb_history_retry) p
                    else if link_error (hi_refresh_error h) then on_app (at_history tb_history_refresh) p else p)] p)"

definition focus_changed :: "'w TbViews \<Rightarrow> bool \<Rightarrow> ('x, 'v, 'w) handler" where
  "focus_changed V in_focus p =
     (let top = vw_top V (ma_views (snd p))
      in steps
        [if top = Some WIN_CHATS then steps [on_app (at_chats (\<lambda>q. tb_chats_set_active q in_focus)),
           on_app (at_connection (map_prod id (\<lambda>n. tb_connection_set_active n in_focus)))] else id,
         if top = Some WIN_HISTORY then on_app (at_history (\<lambda>q. tb_history_set_active q in_focus)) else id] p)"

datatype TbTimerSlot =
  TB_TIMER_REQUEST | TB_TIMER_CHATS | TB_TIMER_CONNECTION | TB_TIMER_HISTORY | TB_TIMER_NOTIFY | TB_TIMER_MEDIA | TB_TIMER_COUNT

text \<open>
  A timer fires: its slot, which is the context of the component's ports, is cleared and the component runs.
  \<open>clear\<close> is the platform's context with the slot cleared.
\<close>

definition timer_fired :: "('x \<Rightarrow> 'x) \<Rightarrow> ('v \<Rightarrow> 'v) \<Rightarrow> TbTimerSlot \<Rightarrow> ('x, 'v, 'w) handler" where
  "timer_fired clear_requests clear slot p =
     (case slot of
        TB_TIMER_REQUEST \<Rightarrow> on_app (\<lambda>q. tb_requests_tick app_callback ((fst q)\<lparr>rl_context := clear_requests (rl_context (fst q))\<rparr>, snd q)) p
      | TB_TIMER_CHATS \<Rightarrow> on_app (at_chats (\<lambda>q. tb_chats_timer (fst q, (snd q)\<lparr>cs_context := clear (cs_context (snd q))\<rparr>))) p
      | TB_TIMER_CONNECTION \<Rightarrow> on_app (at_connection (\<lambda>q. tb_connection_timer (fst q, (snd q)\<lparr>co_context := clear (co_context (snd q))\<rparr>))) p
      | TB_TIMER_HISTORY \<Rightarrow> on_app (at_history (\<lambda>q. tb_history_timer (fst q, (snd q)\<lparr>hi_context := clear (hi_context (snd q))\<rparr>))) p
      | TB_TIMER_NOTIFY \<Rightarrow> on_notify (\<lambda>n. tb_notify_timer (n\<lparr>nt_context := clear (nt_context n)\<rparr>)) p
      | TB_TIMER_MEDIA \<Rightarrow> on_app (at_media (\<lambda>q. tb_media_timer (fst q, (snd q)\<lparr>md_context := clear (md_context (snd q))\<rparr>))) p
      | TB_TIMER_COUNT \<Rightarrow> p)"

text \<open>The state that \<open>init\<close> leaves before it shows a window, how it starts the session, and \<open>deinit\<close>.\<close>

definition main_init :: "'v TbApp \<Rightarrow> 'v TbNotifyPorts \<Rightarrow> 'v \<Rightarrow> 'w \<Rightarrow> ('v, 'w) TbMain" where
  "main_init a ports v w =
     \<lparr>ma_app = a, ma_notify = tb_notify_init ports v, ma_quote_id = [], ma_views = w, ma_summary_revision = 0,
      ma_reload_timer = False, ma_reload_pending = 0, ma_menu_message = - 1, ma_compose_from_reader = False, ma_account = - 1\<rparr>"

definition main_start :: "'w TbViews \<Rightarrow> bool \<Rightarrow> bool \<Rightarrow> ('x, 'v, 'w) handler" where
  "main_start V allocated opened =
     steps [show_connect V (vw_strings V ''checking'') None False,
       if \<not> allocated then reset_to_connect V (vw_strings V ''out_of_memory'') None False
       else on_app (at_session (\<lambda>q. tb_session_start q opened))]"

definition deinit :: "'w TbViews \<Rightarrow> ('x, 'v, 'w) handler" where
  "deinit V = steps [close_compose V, on_app (at_media tb_media_close)]"

end
