(* ===== verification/Main_Loop.thy ===== *)
theory Main_Loop
  imports Program Handlers
begin

text \<open>
  The whole program: the handlers of \<^verbatim>\<open>main.c\<close>, the operations the windows ask of the components and what the
  platform does in between, in any order. Every handler keeps the invariants of all components and of the
  request layer, and what each request in flight may hold.
\<close>

section \<open>Invariant\<close>

definition main_inv :: "('v \<Rightarrow> bool) \<Rightarrow> ('x, 'v, 'w) main \<Rightarrow> bool" where
  "main_inv armed p \<longleftrightarrow> program_ok armed (fst p, ma_app (snd p)) \<and> notify_inv (ma_notify (snd p)) \<and>
     length (ma_quote_id (snd p)) < TB_TELEGRAM_ID_SIZE \<and> ma_account (snd p) \<ge> - 1"

named_theorems main_keeps \<open>handlers keep the invariant of the program\<close>

lemma main_inv_view [simp]: "main_inv armed (view V call p) = main_inv armed p"
  by (simp add: main_inv_def view_def)

lemma main_inv_views [simp]: "main_inv armed (on_main (\<lambda>m. m\<lparr>ma_views := w\<rparr>) p) = main_inv armed p"
  by (simp add: main_inv_def on_main_def)

lemma main_inv_missing [simp]: "main_inv armed (push_missing V w animated p) = main_inv armed p"
  by (simp add: push_missing_def)

lemma main_inv_present [simp]: "main_inv armed (remove_present V w p) = main_inv armed p"
  by (simp add: remove_present_def)

lemma main_inv_main:
  assumes "main_inv armed p" and "ma_app (f (snd p)) = ma_app (snd p)" and "ma_notify (f (snd p)) = ma_notify (snd p)"
    and "length (ma_quote_id (f (snd p))) < TB_TELEGRAM_ID_SIZE" and "ma_account (f (snd p)) \<ge> - 1"
  shows "main_inv armed (on_main f p)"
  using assms by (simp add: main_inv_def on_main_def)

lemma main_inv_fields [main_keeps]:
  assumes "main_inv armed p"
  shows "main_inv armed (on_main (\<lambda>m. m\<lparr>ma_quote_id := []\<rparr>) p)"
    and "n \<ge> - 1 \<Longrightarrow> main_inv armed (on_main (\<lambda>m. m\<lparr>ma_account := n\<rparr>) p)"
    and "main_inv armed (on_main (\<lambda>m. m\<lparr>ma_reload_timer := t, ma_reload_pending := b\<rparr>) p)"
    and "main_inv armed (on_main (\<lambda>m. m\<lparr>ma_summary_revision := r\<rparr>) p)"
    and "main_inv armed (on_main (\<lambda>m. m\<lparr>ma_compose_from_reader := t\<rparr>) p)"
    and "main_inv armed (on_main (\<lambda>m. m\<lparr>ma_menu_message := n\<rparr>) p)"
  using assms by (simp_all add: main_inv_def on_main_def)

lemma main_inv_notify:
  "main_inv armed p \<Longrightarrow> (\<And>n. notify_inv n \<Longrightarrow> notify_inv (f n)) \<Longrightarrow> main_inv armed (on_notify f p)"
  by (simp add: main_inv_def on_notify_def)

lemma main_inv_app:
  assumes "main_inv armed p" and "\<And>q. program_ok armed q \<Longrightarrow> program_ok armed (f q)"
  shows "main_inv armed (on_app f p)"
  using assms by (simp add: main_inv_def on_app_def split_beta)

lemma main_notify_keeps [main_keeps]:
  assumes "main_inv armed p"
  shows "main_inv armed (notify_post source level action title body p)" and "main_inv armed (notify_clear source p)"
    and "main_inv armed (on_notify tb_notify_dismiss p)" and "main_inv armed (on_notify tb_notify_reset p)"
  unfolding notify_post_def notify_clear_def
  by (rule main_inv_notify [OF assms], rule notify_step_inv, rule ns_post ns_clear ns_dismiss ns_reset, assumption)+

section \<open>Operations of the components\<close>

lemma main_inv_step:
  "main_inv armed p \<Longrightarrow> (\<And>q. program_step armed q (f q)) \<Longrightarrow> main_inv armed (on_app f p)"
  by (erule main_inv_app) (erule program_step_ok [rotated])

lemma at_steps:
  "(\<And>q. session_op q (f1 q)) \<Longrightarrow> program_step armed q (at_session f1 q)"
  "(\<And>q. chats_op q (f2 q)) \<Longrightarrow> program_step armed q (at_chats f2 q)"
  "(\<And>q. connection_op armed q (f3 q)) \<Longrightarrow> program_step armed q (at_connection f3 q)"
  "(\<And>q. history_op q (f4 q)) \<Longrightarrow> program_step armed q (at_history f4 q)"
  "(\<And>q. text_op q (f5 q)) \<Longrightarrow> program_step armed q (at_text f5 q)"
  "(\<And>q. text_op q (f5 q)) \<Longrightarrow> program_step armed q (at_quote f5 q)"
  "(\<And>q. media_op q (f6 q)) \<Longrightarrow> program_step armed q (at_media f6 q)"
  "(\<And>q. send_op q (f7 q)) \<Longrightarrow> program_step armed q (at_tracker f7 q)"
  "(\<And>q. compose_op q (f8 q)) \<Longrightarrow> program_step armed q (at_compose f8 q)"
  by (cases q; simp add: at_session_def at_chats_def at_connection_def at_history_def at_text_def at_quote_def at_media_def
      at_tracker_def at_compose_def split_beta; rule program_step.intros; simp)+

lemmas at_keeps [main_keeps] = main_inv_step [OF _ at_steps(1)] main_inv_step [OF _ at_steps(2)] main_inv_step [OF _ at_steps(3)]
  main_inv_step [OF _ at_steps(4)] main_inv_step [OF _ at_steps(5)] main_inv_step [OF _ at_steps(6)]
  main_inv_step [OF _ at_steps(7)] main_inv_step [OF _ at_steps(8)] main_inv_step [OF _ at_steps(9)]

lemmas ops = session_op.intros(1-5) chats_op.intros(1-8) connection_op.intros(1-5) history_op.intros(1-7) text_op.intros(1-3)
  media_op.intros(1-8) send_op.intros compose_op.intros(1-6)

text \<open>Fields that \<^verbatim>\<open>main.c\<close> writes itself.\<close>

lemma poke_ops:
  "connection_op armed q (map_prod id (\<lambda>n. tb_connection_summary n state proxy) q)"
  "connection_op armed q (map_prod id (\<lambda>n. tb_connection_set_active n active) q)"
  "history_op qh (map_prod id (\<lambda>h. h\<lparr>hi_loaded := b\<rparr>) qh)"
  "text_op qt (map_prod id (\<lambda>t. t\<lparr>mt_error := e\<rparr>) qt)"
  "send_op qs (map_prod id (\<lambda>s. snd (tb_send_record s rec restored)) qs)"
  by (cases q, simp add: connection_op.intros)+
    (cases qh, simp add: history_op.intros, cases qt, simp add: text_op.intros, cases qs, simp add: send_op.intros)

lemma account_lost_op: "session_op q (map_prod id (account_lost account error) q)"
proof -
  obtain L s where q: "q = (L, s)" by (cases q)
  have same: "session_op (L, s) (L, s\<lparr>se_accounts := se_accounts s\<rparr>)" by (rule session_op.intros) simp_all
  show ?thesis
  proof (cases "account \<ge> 0 \<and> account < int (length (se_accounts s))")
    case True
    then have n: "nat account < length (se_accounts s)" by linarith
    have "session_op (L, s) (L, s\<lparr>se_accounts := (se_accounts s)[nat account := (se_accounts s ! nat account)\<lparr>ac_state := st\<rparr>]\<rparr>)" for st
      by (rule session_op.intros; rule nth_equalityI) (use n in \<open>simp_all add: nth_list_update\<close>)
    then show ?thesis using True by (simp add: q account_lost_def)
  qed (use same in \<open>auto simp: q account_lost_def\<close>)
qed

section \<open>Handlers\<close>

lemma show_keeps [main_keeps]:
  assumes "main_inv armed p"
  shows "main_inv armed (show_connect V body hint retry p)" and "main_inv armed (show_info V title body p)"
  using assms by (simp_all add: show_connect_def show_info_def)

lemma close_compose_keeps [main_keeps]: "main_inv armed p \<Longrightarrow> main_inv armed (close_compose V p)"
  by (simp add: close_compose_def main_keeps ops)

lemma close_views_keeps [main_keeps]: "main_inv armed p \<Longrightarrow> main_inv armed (close_views V p)"
  by (simp add: close_views_def main_keeps ops)

lemma reset_keeps [main_keeps]: "main_inv armed p \<Longrightarrow> main_inv armed (reset_to_connect V body hint retry p)"
  by (simp add: reset_to_connect_def main_keeps)

lemma open_account_keeps [main_keeps]: "main_inv armed p \<Longrightarrow> main_inv armed (open_account V index p)"
  by (simp add: open_account_def Let_def main_keeps ops)

lemma route_keeps [main_keeps]: "main_inv armed p \<Longrightarrow> main_inv armed (route V p)"
  by (simp add: route_def Let_def main_keeps)

lemma handle_fatal_keeps: "main_inv armed p \<Longrightarrow> main_inv armed (snd (handle_fatal V error p))"
  by (simp add: handle_fatal_def Let_def main_keeps account_lost_op)

lemma unless_fatal_keeps:
  "main_inv armed p \<Longrightarrow> (\<And>q. main_inv armed q \<Longrightarrow> main_inv armed (rest q)) \<Longrightarrow> main_inv armed (unless_fatal V failed error rest p)"
  using handle_fatal_keeps [of armed p V error] by (simp add: unless_fatal_def split_beta)

lemma reload_keeps [main_keeps]:
  assumes "main_inv armed p"
  shows "main_inv armed (reload_fired V p)" and "main_inv armed (reload_later V views p)"
proof -
  show "main_inv armed (reload_fired V p)" using assms by (simp add: reload_fired_def Let_def main_keeps)
  show "main_inv armed (reload_later V views p)" unfolding reload_later_def
    by (rule main_inv_main [OF assms]) (use assms in \<open>simp_all add: main_inv_def Let_def split_beta\<close>)
qed

lemma notice_keeps [main_keeps]:
  assumes "main_inv armed p"
  shows "main_inv armed (chats_notice V p)" and "main_inv armed (connection_notice V p)"
  using assms by (simp_all add: chats_notice_def connection_notice_def Let_def main_keeps split: TbConnectionError.split)

lemma open_quote_keeps [main_keeps]: "main_inv armed p \<Longrightarrow> main_inv armed (open_quote p)"
  by (simp add: open_quote_def Let_def main_keeps ops)

text \<open>What the components report.\<close>

lemma changed_keeps [main_keeps]:
  assumes "main_inv armed p"
  shows "main_inv armed (main_chats_changed V p)" and "main_inv armed (main_connection_changed V p)"
    and "main_inv armed (connection_reload p)" and "main_inv armed (main_history_changed V p)"
    and "main_inv armed (main_text_changed V p)" and "main_inv armed (main_quote_changed V p)"
    and "main_inv armed (main_media_changed V p)" and "main_inv armed (main_compose_changed V p)"
    and "main_inv armed (main_notify_changed V p)"
  using assms
  by (simp_all add: main_chats_changed_def main_connection_changed_def connection_reload_def main_history_changed_def
      main_text_changed_def main_quote_changed_def main_media_changed_def main_compose_changed_def main_notify_changed_def
      Let_def main_keeps unless_fatal_keeps ops poke_ops)

text \<open>Chats and messages.\<close>

lemma open_chat_keeps [main_keeps]: "main_inv armed p \<Longrightarrow> main_inv armed (open_chat V index p)"
  by (simp add: open_chat_def Let_def main_keeps ops)

lemma view_close_step: "program_step armed q (at_requests (view_close_args h, t, n, b) q)"
  by (cases q) (simp add: at_requests_def view_close_args_def pr_close)

lemma history_closed_keeps [main_keeps]: "main_inv armed p \<Longrightarrow> main_inv armed (history_closed p)"
  by (simp add: history_closed_def Let_def main_keeps ops main_inv_step [OF _ view_close_step])

lemma quote_id_keeps [main_keeps]:
  "main_inv armed p \<Longrightarrow> main_inv armed (on_main (\<lambda>m. m\<lparr>ma_quote_id := snprintf [] TB_TELEGRAM_ID_SIZE fmt args\<rparr>) p)"
  by (rule main_inv_main) (simp_all add: snprintf_def main_inv_def)

lemma open_message_keeps [main_keeps]: "main_inv armed p \<Longrightarrow> main_inv armed (open_message V index p)"
  by (simp add: open_message_def Let_def main_keeps ops poke_ops)

lemma view_photo_keeps [main_keeps]: "main_inv armed p \<Longrightarrow> main_inv armed (view_photo V p)"
  by (simp add: view_photo_def main_keeps ops)

text \<open>Writing and sending.\<close>

lemma dictated_keeps [main_keeps]:
  "main_inv armed p \<Longrightarrow> len \<le> length words \<Longrightarrow> main_inv armed (dictated V result words len p)"
  by (simp add: dictated_def Let_def main_keeps ops)

lemma start_dictation_keeps [main_keeps]: "main_inv armed p \<Longrightarrow> main_inv armed (start_dictation V p)"
  by (simp add: start_dictation_def Let_def split_beta)

lemma compose_target_fits: "target_ok (ct_send (compose_target str m reply reply_text))"
  by (simp add: compose_target_def Let_def target_ok_def split: option.split)

lemma begin_compose_keeps [main_keeps]: "main_inv armed p \<Longrightarrow> main_inv armed (begin_compose V reply reply_text p)"
  by (simp add: begin_compose_def Let_def split_beta main_keeps ops compose_target_fits)

lemma tracker_keeps:
  assumes "main_inv armed p" and "\<And>q. send_inv (snd q) \<Longrightarrow> send_op q (f q)"
  shows "main_inv armed (on_app (at_tracker f) p)"
proof (rule main_inv_app [OF assms(1)])
  fix q :: "'b TbRequestLayer \<times> 'a TbApp"
  assume ok: "program_ok armed q"
  then have "send_inv (ap_tracker (snd q))" by (simp add: owners_ok_def program_inv_def app_inv_def)
  then have "send_op (fst q, ap_tracker (snd q)) (f (fst q, ap_tracker (snd q)))" using assms(2) by simp
  then have "program_step armed q (at_tracker f q)"
    by (cases q) (simp add: at_tracker_def split_beta, rule program_step.intros, simp)
  then show "program_ok armed (at_tracker f q)" using ok by (rule program_step_ok)
qed

lemma send_again_op: "send_inv (snd q) \<Longrightarrow> send_op q (snd (send_again q))"
  unfolding send_again_def Let_def by (rule send_op.intros) (simp add: send_inv_def status_ok_def)

lemma send_draft_op: "compose_target_ok c \<Longrightarrow> send_op q (snd (send_draft c q))"
  unfolding send_draft_def by (rule send_op.intros) (simp add: compose_target_ok_def)

lemma send_keeps [main_keeps]:
  assumes "main_inv armed p"
  shows "main_inv armed (on_app (at_tracker (\<lambda>q. snd (send_again q))) p)" and "main_inv armed (snd (compose_send mode p))"
proof -
  show again: "main_inv armed (on_app (at_tracker (\<lambda>q. snd (send_again q))) p)"
    using assms by (rule tracker_keeps) (rule send_again_op)
  have "compose_target_ok (ap_compose (app_of p))" using assms by (simp add: main_inv_def owners_ok_def program_inv_def)
  then have "main_inv armed (on_app (at_tracker (\<lambda>q. snd (send_draft (ap_compose (app_of p)) q))) p)"
    by (intro tracker_keeps [OF assms] send_draft_op)
  then show "main_inv armed (snd (compose_send mode p))" using again by (simp add: compose_send_def Let_def)
qed

lemma compose_keeps [main_keeps]:
  assumes "main_inv armed p"
  shows "main_inv armed (compose_check p)" and "main_inv armed (compose_open_chat V p)" and "main_inv armed (compose_finished V sent p)"
  using assms by (simp_all add: compose_check_def compose_open_chat_def compose_finished_def Let_def main_keeps ops)

lemma late_result_keeps [main_keeps]: "main_inv armed p \<Longrightarrow> main_inv armed (late_result V status p)"
  by (simp add: late_result_def Let_def main_keeps ops split: TbSendPhase.split)

lemma send_changed_keeps [main_keeps]: "main_inv armed p \<Longrightarrow> main_inv armed (main_send_changed V status p)"
  by (simp add: main_send_changed_def main_keeps)

lemma send_record_keeps [main_keeps]:
  assumes "main_inv armed p"
  shows "main_inv armed (send_record V t data len p)" and "main_inv armed (session_extra V t data len p)"
  using assms by (simp_all add: session_extra_def send_record_def Let_def main_keeps poke_ops split: option.split)

lemma send_records_record_keeps: "main_inv armed p \<Longrightarrow> main_inv armed (fst (send_records_record V t body p))"
  by (simp add: send_records_record_def main_keeps)

interpretation pushed: record_handler "send_records_record V" "main_inv armed" for V armed
  by unfold_locales (metis fst_conv send_records_record_keeps)

lemma send_records_keeps [main_keeps]:
  "main_inv armed p \<Longrightarrow> unat len \<le> length payload \<Longrightarrow> main_inv armed (send_records V payload len p)"
  unfolding send_records_def by (rule pushed.loop_inv) simp_all

lemma retry_failed_keeps [main_keeps]: "main_inv armed p \<Longrightarrow> main_inv armed (retry_failed V p)"
  by (simp add: retry_failed_def Let_def main_keeps)

lemma open_chat_of_keeps [main_keeps]: "main_inv armed p \<Longrightarrow> main_inv armed (open_chat_of V target p)"
  by (simp add: open_chat_of_def Let_def main_keeps)

text \<open>Notifications and menus.\<close>

lemma notify_action_keeps [main_keeps]:
  assumes "main_inv armed p"
  shows "main_inv armed (run_notify_action V action source p)" and "main_inv armed (notify_activate V item p)"
  using assms by (simp_all add: notify_activate_def run_notify_action_def Let_def main_keeps ops split: TbNotifyAction.split)

lemma menu_keeps [main_keeps]:
  assumes "main_inv armed p"
  shows "main_inv armed (write_to_chat V p)" and "main_inv armed (media_menu V p)" and "main_inv armed (media_chosen V action p)"
    and "main_inv armed (message_menu V index p)" and "main_inv armed (message_chosen V action p)"
    and "main_inv armed (reader_menu V p)" and "main_inv armed (reader_chosen V action p)"
  using assms by (simp_all add: write_to_chat_def media_menu_def media_chosen_def message_menu_def message_chosen_def
      reader_menu_def reader_chosen_def Let_def main_keeps ops)

text \<open>The phone, the timers and the focus.\<close>

lemma settings_keeps [main_keeps]: "main_inv armed p \<Longrightarrow> main_inv armed (settings_changed V p)"
  by (simp add: settings_changed_def main_keeps ops)

lemma inbox_keeps [main_keeps]:
  assumes "main_inv armed p" and "payload_fits dict"
  shows "main_inv armed (inbox_received V dict p)"
proof -
  have data: "main_inv armed (on_app (inbox_data dict) p)" by (rule main_inv_step [OF assms(1)]) (rule pr_inbox [OF assms(2)])
  have pushed: "main_inv armed (send_records V (tu_value t) (tu_length t) p)" if "dict KEY_PAYLOAD = Some t" for t
    using assms that by (intro send_records_keeps) (simp_all add: payload_fits_def)
  show ?thesis unfolding inbox_received_def
    using assms(1) data pushed by (auto simp: main_keeps ops split: option.split)
qed

lemma platform_keeps [main_keeps]:
  assumes "main_inv armed p"
  shows "main_inv armed (phone_connection V connected p)" and "main_inv armed (focus_changed V in_focus p)"
    and "main_inv armed (deinit V p)" and "main_inv armed (retry_session p)" and "main_inv armed (main_start V allocated opened p)"
  using assms by (simp_all add: phone_connection_def focus_changed_def deinit_def retry_session_def main_start_def Let_def main_keeps ops poke_ops)

text \<open>A timer is cleared, which the platform may do at any time, and then the component runs.\<close>

lemma at_timer:
  "on_app (at_chats (\<lambda>q. tb_chats_timer (fst q, (snd q)\<lparr>cs_context := clear (cs_context (snd q))\<rparr>))) p =
   on_app (at_chats tb_chats_timer) (on_app (at_chats (\<lambda>q. (fst q, (snd q)\<lparr>cs_context := clear (cs_context (snd q))\<rparr>))) p)"
  "on_app (at_history (\<lambda>q. tb_history_timer (fst q, (snd q)\<lparr>hi_context := clear (hi_context (snd q))\<rparr>))) p =
   on_app (at_history tb_history_timer) (on_app (at_history (\<lambda>q. (fst q, (snd q)\<lparr>hi_context := clear (hi_context (snd q))\<rparr>))) p)"
  "on_app (at_media (\<lambda>q. tb_media_timer (fst q, (snd q)\<lparr>md_context := clear (md_context (snd q))\<rparr>))) p =
   on_app (at_media tb_media_timer) (on_app (at_media (\<lambda>q. (fst q, (snd q)\<lparr>md_context := clear (md_context (snd q))\<rparr>))) p)"
  by (simp_all add: on_app_def at_chats_def at_history_def at_media_def split_beta)

lemma platform_ops:
  "chats_op qc (fst qc, (snd qc)\<lparr>cs_context := v\<rparr>)" "history_op qh (fst qh, (snd qh)\<lparr>hi_context := v\<rparr>)"
  "media_op qm (fst qm, (snd qm)\<lparr>md_context := v\<rparr>)"
  by (cases qc, simp add: chats_op.intros) (cases qh, simp add: history_op.intros, cases qm, simp add: media_op.intros)

lemma tick_main_keeps:
  assumes "main_inv armed p"
  shows "main_inv armed (on_app (\<lambda>q. tb_requests_tick app_callback ((fst q)\<lparr>rl_context := clear (rl_context (fst q))\<rparr>, snd q)) p)"
  by (rule main_inv_app [OF assms])
    (metis pr_platform pr_tick prod.collapse program_step_ok)

lemma connection_timer_keeps:
  assumes "main_inv armed p" and "armed (co_context (ap_connection (app_of p)))" and "\<And>v. \<not> armed (clear v)"
  shows "main_inv armed (on_app (at_connection
    (\<lambda>q. tb_connection_timer (fst q, (snd q)\<lparr>co_context := clear (co_context (snd q))\<rparr>))) p)"
proof -
  let ?f = "\<lambda>q. tb_connection_timer (fst q, (snd q)\<lparr>co_context := clear (co_context (snd q))\<rparr>)"
  have "connection_op armed (fst p, ap_connection (app_of p)) (?f (fst p, ap_connection (app_of p)))"
    using connection_op.intros(6) [OF assms(2,3)] by simp
  then have "program_step armed (fst p, app_of p) (at_connection ?f (fst p, app_of p))"
    by (simp add: at_connection_def split_beta) (rule program_step.intros, simp)
  then have "program_ok armed (at_connection ?f (fst p, app_of p))"
    using assms(1) by (auto simp: main_inv_def intro: program_step_ok)
  then show ?thesis using assms(1) by (simp add: main_inv_def on_app_def split_beta)
qed

lemma timer_keeps [main_keeps]:
  assumes "main_inv armed p" and "slot = TB_TIMER_CONNECTION \<longrightarrow> armed (co_context (ap_connection (app_of p)))"
    and "\<And>v. \<not> armed (clear v)"
  shows "main_inv armed (timer_fired clear_requests clear slot p)"
proof -
  have notify: "main_inv armed (on_notify (\<lambda>n. tb_notify_timer (n\<lparr>nt_context := clear (nt_context n)\<rparr>)) p)"
    using assms(1) by (rule main_inv_notify) (rule notify_step_inv [OF ns_timer notify_step_inv [OF ns_platform]])
  show ?thesis
    using assms notify tick_main_keeps [OF assms(1)] connection_timer_keeps [OF assms(1)]
    by (cases slot) (simp_all add: timer_fired_def at_timer main_keeps ops platform_ops)
qed

section \<open>The main loop\<close>

text \<open>
  One event of the whole program: an operation of a component that a window, a timer or the transport asks
  for, the notifications, the windows, or a handler. The handlers that a component reaches through its ports
  are steps of their own.
\<close>

inductive main_step :: "('v \<Rightarrow> bool) \<Rightarrow> 'w TbViews \<Rightarrow> ('x, 'v, 'w) main \<Rightarrow> ('x, 'v, 'w) main \<Rightarrow> bool" for armed V where
  mn_program: "program_step armed (L, ma_app m) (L', a) \<Longrightarrow> main_step armed V (L, m) (L', m\<lparr>ma_app := a\<rparr>)"
| mn_notify: "notify_step (ma_notify m) n \<Longrightarrow> main_step armed V (L, m) (L, m\<lparr>ma_notify := n\<rparr>)"
| mn_views: "main_step armed V (L, m) (L, m\<lparr>ma_views := w\<rparr>)"
| mn_start: "main_step armed V p (main_start V allocated opened p)"
| mn_session: "main_step armed V p (route V p)"
| mn_chats: "main_step armed V p (main_chats_changed V p)"
| mn_connection: "main_step armed V p (main_connection_changed V p)"
| mn_reload: "main_step armed V p (connection_reload p)"
| mn_history: "main_step armed V p (main_history_changed V p)"
| mn_text: "main_step armed V p (main_text_changed V p)"
| mn_quote: "main_step armed V p (main_quote_changed V p)"
| mn_media: "main_step armed V p (main_media_changed V p)"
| mn_compose: "main_step armed V p (main_compose_changed V p)"
| mn_notify_changed: "main_step armed V p (main_notify_changed V p)"
| mn_send: "main_step armed V p (main_send_changed V status p)"
| mn_extra: "main_step armed V p (session_extra V t data len p)"
| mn_records: "unat len \<le> length payload \<Longrightarrow> main_step armed V p (send_records V payload len p)"
| mn_reload_fired: "main_step armed V p (reload_fired V p)"
| mn_retry: "main_step armed V p (retry_session p)"
| mn_open_account: "main_step armed V p (open_account V index p)"
| mn_open_chat: "main_step armed V p (open_chat V index p)"
| mn_history_closed: "main_step armed V p (history_closed p)"
| mn_open_message: "main_step armed V p (open_message V index p)"
| mn_message_menu: "main_step armed V p (message_menu V index p)"
| mn_message_chosen: "main_step armed V p (message_chosen V action p)"
| mn_reader_open: "main_step armed V p (view_photo V p)"
| mn_reader_menu: "main_step armed V p (reader_menu V p)"
| mn_reader_chosen: "main_step armed V p (reader_chosen V action p)"
| mn_media_menu: "main_step armed V p (media_menu V p)"
| mn_media_chosen: "main_step armed V p (media_chosen V action p)"
| mn_write: "main_step armed V p (write_to_chat V p)"
| mn_start_dictation: "main_step armed V p (start_dictation V p)"
| mn_dictated: "len \<le> length words \<Longrightarrow> main_step armed V p (dictated V result words len p)"
| mn_compose_send: "main_step armed V p (snd (compose_send mode p))"
| mn_compose_check: "main_step armed V p (compose_check p)"
| mn_compose_open_chat: "main_step armed V p (compose_open_chat V p)"
| mn_compose_finished: "main_step armed V p (compose_finished V sent p)"
| mn_activate: "main_step armed V p (notify_activate V item p)"
| mn_inbox: "payload_fits dict \<Longrightarrow> main_step armed V p (inbox_received V dict p)"
| mn_phone: "main_step armed V p (phone_connection V connected p)"
| mn_focus: "main_step armed V p (focus_changed V in_focus p)"
| mn_timer: "slot = TB_TIMER_CONNECTION \<longrightarrow> armed (co_context (ap_connection (app_of p))) \<Longrightarrow> (\<And>v. \<not> armed (clear v)) \<Longrightarrow>
    main_step armed V p (timer_fired clear_requests clear slot p)"
| mn_deinit: "main_step armed V p (deinit V p)"

lemma main_step_inv: "main_step armed V p p' \<Longrightarrow> main_inv armed p \<Longrightarrow> main_inv armed p'"
proof (induction rule: main_step.induct)
  case (mn_program L m L' a)
  then show ?case using program_step_ok [OF mn_program(1)] by (simp add: main_inv_def)
next
  case (mn_notify m n L)
  then show ?case using notify_step_inv [OF mn_notify(1)] by (simp add: main_inv_def)
next
  case (mn_views L m w)
  then show ?case by (simp add: main_inv_def)
qed (simp_all add: main_keeps)

lemma main_steps_inv: "(main_step armed V)\<^sup>*\<^sup>* p p' \<Longrightarrow> main_inv armed p \<Longrightarrow> main_inv armed p'"
  by (induction rule: rtranclp_induct) (auto dest: main_step_inv)

lemma main_init_inv:
  assumes "timer_laws (apo_connection ports) armed" and "\<not> armed v" and "length slots = TB_REQUEST_SLOTS"
  shows "main_inv armed (tb_requests_init slots rports x, main_init (app_init ports v h n k config) nports nv w)"
  using program_init_ok [OF assms, of rports x h n k config]
  by (simp add: main_inv_def main_init_def notify_init_inv)

section \<open>What closing the views leaves\<close>

lemma on_app_simps [simp]:
  "fst (on_app f p) = fst (f (fst p, ma_app (snd p)))" "ma_app (snd (on_app f p)) = snd (f (fst p, ma_app (snd p)))"
  "ma_notify (snd (on_app f p)) = ma_notify (snd p)" "ma_quote_id (snd (on_app f p)) = ma_quote_id (snd p)"
  by (simp_all add: on_app_def split_beta)

lemma on_other_simps [simp]:
  "fst (view V call p) = fst p" "ma_app (snd (view V call p)) = ma_app (snd p)"
  "ma_notify (snd (view V call p)) = ma_notify (snd p)" "ma_quote_id (snd (view V call p)) = ma_quote_id (snd p)"
  "fst (on_notify g p) = fst p" "ma_app (snd (on_notify g p)) = ma_app (snd p)"
  "ma_notify (snd (on_notify g p)) = g (ma_notify (snd p))" "ma_quote_id (snd (on_notify g p)) = ma_quote_id (snd p)"
  "fst (on_main k p) = fst p" "snd (on_main k p) = k (snd p)"
  by (simp_all add: view_def on_notify_def on_main_def)

lemmas at_defs = at_session_def at_chats_def at_connection_def at_history_def at_text_def at_quote_def at_media_def at_tracker_def
  at_compose_def

lemma closed_pending:
  "cs_pending (snd (tb_chats_close qc)) = 0" "hi_pending (snd (tb_history_close qh)) = 0"
  "co_pending (snd (tb_connection_close qn)) = 0" "mt_pending (snd (tb_message_text_close qt)) = 0"
  "md_pending (snd (tb_media_close qm)) = 0"
  "cm_draft_pending (snd (tb_compose_close qk keep)) = 0" "cm_templates_pending (snd (tb_compose_close qk keep)) = 0"
  by (simp_all add: tb_chats_close_def chats_clear_def tb_history_close_def clear_staging_def tb_connection_close_def
      connection_cancel_def tb_message_text_close_def tb_media_close_def tb_media_release_def cancel_pending_def drop_pixels_def
      tb_compose_close_def tb_compose_drop_draft_def cancel_draft_def cancel_templates_def discard_current_def free_draft_def
      free_previews_def Let_def split_beta)

lemma close_views_app:
  assumes "a = ma_app (snd (close_views V p))"
  shows "cs_pending (ap_chats a) = 0" and "hi_pending (ap_history a) = 0" and "co_pending (ap_connection a) = 0"
    and "mt_pending (ap_text a) = 0" and "mt_pending (ap_quote a) = 0" and "md_pending (ap_media a) = 0"
    and "cm_draft_pending (ap_compose a) = 0" and "cm_templates_pending (ap_compose a) = 0"
    and "ap_session a = ap_session (ma_app (snd p))" and "ap_tracker a = ap_tracker (ma_app (snd p))"
  unfolding assms close_views_def close_compose_def by (simp_all add: at_defs split_beta closed_pending)

lemma close_views_rest:
  "nt_items (ma_notify (snd (close_views V p))) = []" "ma_quote_id (snd (close_views V p)) = []"
  by (simp_all add: close_views_def close_compose_def tb_notify_reset_def)

section \<open>One line of text\<close>

abbreviation (input) one_line :: "bytes \<Rightarrow> bytes" where "one_line \<equiv> map (\<lambda>b. if b = 10 then 32 else b)"

lemma utf8_append: "utf8 xs \<Longrightarrow> utf8 ys \<Longrightarrow> utf8 (xs @ ys)"
proof (induction rule: utf8.induct)
  case (utf8_Char b cs rest)
  then show ?case using utf8.utf8_Char [of b cs "rest @ ys"] by simp
qed simp

lemma utf8_one_line: "utf8 xs \<Longrightarrow> utf8 (one_line xs)"
proof (induction rule: utf8.induct)
  case (utf8_Char b cs rest)
  have "\<not> is_cont 10" by (simp add: is_cont_def)
  then have "one_line cs = cs" using utf8_Char(2) by (auto simp: list_all_iff intro!: map_idI)
  moreover have "seq_len (if b = 10 then 32 else b) = seq_len b" by (simp add: seq_len_def is_cont_def)
  ultimately show ?case using utf8.utf8_Char [of "if b = 10 then 32 else b" cs "one_line rest"] utf8_Char by simp
qed (simp add: utf8.utf8_Nil)

lemma utf8_ellipsis: "utf8 [0xE2, 0x80, 0xA6]"
  using utf8.utf8_Char [of "0xE2" "[0x80, 0xA6]" "[]"] by (simp add: seq_len_def is_cont_def utf8.utf8_Nil)

lemma quote_whole: "length words < n \<Longrightarrow> quote n words = one_line words"
  using tb_utf8_fit_all [of "length words" n words] by (cases "words = []") (simp_all add: quote_def Let_def)

lemma quote_cut:
  "n \<le> length words \<Longrightarrow> quote n words = one_line (take (tb_utf8_fit words (length words) (n - 3)) words) @ [0xE2, 0x80, 0xA6]"
  by (simp add: quote_def Let_def)

section \<open>Properties\<close>

text \<open>
  C14. A text that is quoted into an array of \<open>n\<close> bytes fits with its terminator, stays on one line and stays
  well-formed UTF-8. A text that fits is kept whole, up to its newlines; a longer one is cut at
  the last character boundary that leaves room for the ellipsis.
\<close>

theorem quote_fits_one_line:
  assumes "utf8 words" and "4 \<le> n"
  shows "length (quote n words) < n \<and> 10 \<notin> set (quote n words) \<and> utf8 (quote n words) \<and>
     (length words < n \<longrightarrow> quote n words = one_line words) \<and>
     (n \<le> length words \<longrightarrow> (\<exists>k \<le> n - 4. quote n words = one_line (take k words) @ [0xE2, 0x80, 0xA6] \<and> utf8 (take k words) \<and>
        (\<forall>j. k < j \<and> j \<le> n - 4 \<longrightarrow> \<not> utf8 (take j words))))"
proof (cases "length words < n")
  case True
  then show ?thesis using utf8_one_line [OF assms(1)] by (auto simp: quote_whole)
next
  case False
  define k where "k = tb_utf8_fit words (length words) (n - 3)"
  have whole: "utf8 (take (length words) words)" using assms(1) by simp
  have k: "k \<le> n - 4" using tb_utf8_fit_le(3) [of words "length words" "n - 3"] by (simp add: k_def)
  have kept: "utf8 (take k words)" unfolding k_def by (rule utf8_fit_boundary [OF _ whole]) simp
  have last: "\<not> utf8 (take j words)" if j: "k < j" "j \<le> n - 4" for j
  proof (rule utf8_fit_greatest [OF _ whole])
    show "j \<le> length words" "j < n - 3" using j(2) False assms(2) by linarith+
  qed (use j(1) in \<open>simp_all add: k_def\<close>)
  have eq: "quote n words = one_line (take k words) @ [0xE2, 0x80, 0xA6]" using False by (simp add: quote_cut k_def)
  have "length (quote n words) < n" using k assms(2) by (simp add: eq)
  moreover have "utf8 (quote n words)" unfolding eq by (rule utf8_append [OF utf8_one_line [OF kept] utf8_ellipsis])
  moreover have "10 \<notin> set (quote n words)" by (auto simp: eq)
  ultimately show ?thesis using False eq k kept last by auto
qed

theorem quote_fits_one_line_witness:
  "length (quote 5 [0x41, 0xE2, 0x82, 0xAC, 0x42]) < 5 \<and> utf8 (quote 5 [0x41, 0xE2, 0x82, 0xAC, 0x42]) \<and>
   quote 9 [0x41, 10] = [0x41, 32]"
proof -
  have "utf8 [0x41, 0xE2, 0x82, 0xAC, 0x42]" using utf8_sample by simp
  moreover have "utf8 [0x41, 10]"
    using utf8.utf8_Char [of "0x41" "[]" "[10]"] utf8.utf8_Char [of 10 "[]" "[]"] by (simp add: seq_len_def is_cont_def utf8.utf8_Nil)
  ultimately show ?thesis
    using quote_fits_one_line [of "[0x41, 0xE2, 0x82, 0xAC, 0x42]" 5] quote_fits_one_line [of "[0x41, 10]" 9] by simp
qed

text \<open>
  C18. Closing the views, as every fatal error and every change of the settings does, leaves nothing behind:
  none of the components behind the windows waits for a request, so whatever still arrives for them
  changes nothing, no request in flight points to a payload, there is no notification and no
  quote to load, and the session and the tracker of the last sending are as they were.
\<close>

theorem close_views_quiet:
  assumes "main_inv armed p" and "(L, m) = close_views V p"
    and "cb \<in> {CB_CHATS, CB_HISTORY, CB_TEXT, CB_QUOTE, CB_TEMPLATES, CB_DRAFT, CB_CONNECTION, CB_MEDIA}"
  shows "app_pending (ma_app m) cb = 0 \<and> (q \<noteq> 0 \<longrightarrow> app_callback (cb, q, r) (L, ma_app m) = (L, ma_app m)) \<and>
     (i < TB_REQUEST_SLOTS \<and> sl_active (rl_slots L ! i) \<longrightarrow> ra_payload (sl_args (rl_slots L ! i)) = None) \<and>
     nt_items (ma_notify m) = [] \<and> ma_quote_id m = [] \<and>
     ap_session (ma_app m) = ap_session (ma_app (snd p)) \<and> ap_tracker (ma_app m) = ap_tracker (ma_app (snd p))"
proof -
  have m: "L = fst (close_views V p)" "m = snd (close_views V p)" using assms(2) by (metis fst_conv, metis snd_conv)
  note closed = close_views_app [OF arg_cong [OF m(2), of ma_app]]
  have pending: "app_pending (ma_app m) cb = 0" using assms(3) closed by auto
  have inv: "main_inv armed (L, m)" using close_views_keeps [OF assms(1), of V] assms(2) by simp
  then have layer: "layer_ok (payload_owned (ap_compose (ma_app m))) L" by (simp add: main_inv_def owners_ok_def layer_ok_def)
  then have "\<not> tb_requests_pending L (cm_draft_pending (ap_compose (ma_app m)))"
    using pending_nonzero [of L] closed(7) by (simp add: layer_ok_def)
  from owned_over [OF layer this] have "ra_payload (sl_args (rl_slots L ! i)) = None"
    if "i < TB_REQUEST_SLOTS" "sl_active (rl_slots L ! i)"
    using that by (simp add: layer_ok_def layer_all_def no_payload_def)
  then show ?thesis using pending closed(9,10) close_views_rest [of V p] app_callback_stale [of q "ma_app m" cb r L]
    by (simp add: m)
qed

text \<open>Windows that only record what they are asked, none of them open.\<close>

definition sample_message :: TbMessage where
  "sample_message = \<lparr>ms_id = [49], ms_key = 1, ms_date = 0, ms_flags = 0, ms_kind = 0, ms_action = 0, ms_duration = 0, ms_media = 0,
     ms_media_count = 0, ms_album = 0, ms_sender = None, ms_signature = None, ms_forward = None, ms_extra = None, ms_text = None,
     ms_reply = None, ms_reply_id = None, ms_reply_sender = None, ms_height = 0\<rparr>"

definition sample_views :: "view_call list TbViews" where
  "sample_views = \<lparr>vw_strings = (\<lambda>_. [84]), vw_call = (\<lambda>c w. w @ [c]), vw_contains = (\<lambda>_ _. False), vw_top = (\<lambda>_. None),
     vw_register = (\<lambda>w. (True, w)), vw_dictation_open = (\<lambda>w. (True, w)), vw_dictation_start = (\<lambda>w. (True, w)),
     vw_persisted = (\<lambda>_. None), vw_reader_message = (\<lambda>_. sample_message), vw_reader_fallback = (\<lambda>_. None),
     vw_history_send = (\<lambda>_. 1), vw_result = (\<lambda>_. None)\<rparr>"

definition sample_notes :: "bool TbNotifyPorts" where
  "sample_notes = \<lparr>np_changed = (\<lambda>v. v), np_schedule = (\<lambda>_ _. (True, True)), np_cancel = (\<lambda>_. False), np_now = (\<lambda>_. 0)\<rparr>"

definition sample_compose_target :: TbComposeTarget where
  "sample_compose_target = \<lparr>ct_send = sample_target, ct_account_name = [], ct_chat_title = [], ct_reply_sender = [], ct_reply_text = []\<rparr>"

text \<open>The program after its start, after the compose component opened for a chat, and after a dictation.\<close>

definition sample_start :: "(u32 list, bool, view_call list) main" where
  "sample_start = (tb_requests_init (replicate 4 sample_slot) sample_ports [],
     main_init (app_init sample_app_ports False sample_heap 48 64 sample_app_media) sample_notes False [])"

definition sample_opened :: "(u32 list, bool, view_call list) main" where
  "sample_opened = on_app (at_compose (\<lambda>q. snd (tb_compose_open q (Some sample_compose_target)))) sample_start"

definition sample_dictated :: "(u32 list, bool, view_call list) main" where
  "sample_dictated = on_app (at_compose (\<lambda>q. snd (tb_compose_dictated q (Some [104, 105]) 2))) sample_opened"

text \<open>The same, as the compose component and the layer see it.\<close>

definition sample_draft :: "u32 list TbRequestLayer \<times> bool TbCompose" where
  "sample_draft = snd (tb_compose_dictated
     (snd (tb_compose_open (fst sample_start, ap_compose (ma_app (snd sample_start))) (Some sample_compose_target))) (Some [104, 105]) 2)"

lemma sample_draft_layer: "fst sample_dictated = fst sample_draft"
  by (simp add: sample_dictated_def sample_opened_def sample_draft_def at_compose_def split_beta)

lemma sample_steps: "(main_step (\<lambda>v. v) sample_views)\<^sup>*\<^sup>* sample_start sample_dictated"
proof -
  have step: "main_step (\<lambda>v. v) sample_views p (on_app (at_compose f) p)" if "\<And>q. compose_op q (f q)"
    for f and p :: "(u32 list, bool, view_call list) main"
  proof -
    have "program_step (\<lambda>v. v) (fst p, ma_app (snd p)) (at_compose f (fst p, ma_app (snd p)))" using that by (rule at_steps)
    then have "main_step (\<lambda>v. v) sample_views (fst p, snd p)
        (fst (at_compose f (fst p, ma_app (snd p))), (snd p)\<lparr>ma_app := snd (at_compose f (fst p, ma_app (snd p)))\<rparr>)"
      by (intro mn_program) simp
    then show ?thesis by (simp add: on_app_def split_beta)
  qed
  have "main_step (\<lambda>v. v) sample_views sample_start sample_opened" unfolding sample_opened_def
    by (rule step, rule compose_op_open) (simp add: sample_compose_target_def sample_target_def target_ok_def)
  moreover have "main_step (\<lambda>v. v) sample_views sample_opened sample_dictated" unfolding sample_dictated_def
    by (rule step, rule compose_op_dictated) simp
  ultimately show ?thesis by simp
qed

lemma sample_laws: "timer_laws (apo_connection sample_app_ports) (\<lambda>v. v)"
  by (simp add: timer_laws_def sample_app_ports_def sample_connection_ports_def)

lemma sample_dictated_inv: "main_inv (\<lambda>v. v) sample_dictated"
  by (rule main_steps_inv [OF sample_steps]) (simp add: sample_start_def main_init_inv sample_laws)

lemma sample_dictated_slot:
  "sl_active (rl_slots (fst sample_dictated) ! 1)"
  "ra_payload (sl_args (rl_slots (fst sample_dictated) ! 1)) = Some [104, 105]"
proof -
  show "sl_active (rl_slots (fst sample_dictated) ! 1)" unfolding sample_draft_layer by code_simp
  show "ra_payload (sl_args (rl_slots (fst sample_dictated) ! 1)) = Some [104, 105]" unfolding sample_draft_layer by code_simp
qed

theorem close_views_quiet_witness:
  "cm_draft_pending (ap_compose (ma_app (snd (close_views sample_views sample_dictated)))) = 0 \<and>
   nt_items (ma_notify (snd (close_views sample_views sample_dictated))) = []"
  using close_views_quiet [OF sample_dictated_inv prod.collapse, of CB_DRAFT sample_views] by simp

text \<open>
  C12. No request in flight points to memory that is gone, and none is too large to send. From the start
  of the program on, whatever the phone sends and whatever the user, the windows, the timers and the transport do,
  in any order: a request that holds a payload is the very draft the compose component waits for, and the
  payload is the dictated text that the component still holds, of the length the request gives; and the
  messages of every request, first attempt or a repeat, can be written into an outbox of
  \<^verbatim>\<open>TB_OUTBOX_SIZE\<close> bytes to the last tuple.
\<close>

theorem program_requests_owned:
  assumes "timer_laws (apo_connection ports) armed" and "\<not> armed v" and "length slots = TB_REQUEST_SLOTS"
    and "(main_step armed V)\<^sup>*\<^sup>* (tb_requests_init slots rports x, main_init (app_init ports v h n k config) nports nv w) (L, m)"
    and "i < TB_REQUEST_SLOTS" and "s = rl_slots L ! i" and "sl_active s" and "outbox_room service TB_OUTBOX_SIZE"
  shows "write_all (ms_write service y) [] (request_writes inbox_size (sl_sequence s) (sl_args s)) \<and>
     (\<forall>d. ra_payload (sl_args s) = Some d \<longrightarrow> sl_callback s = Some CB_DRAFT \<and>
        sl_sequence s = cm_draft_pending (ap_compose (ma_app m)) \<and> cm_dictated (ap_compose (ma_app m)) = Some d \<and>
        length d = unat (ra_payload_length (sl_args s)))"
proof -
  have "main_inv armed (L, m)" by (rule main_steps_inv [OF assms(4) main_init_inv [OF assms(1-3)]])
  then have "layer_all (payload_owned (ap_compose (ma_app m))) L" by (simp add: main_inv_def owners_ok_def)
  from layer_all_slot [OF this assms(5)] assms(6,7)
  have own: "payload_owned (ap_compose (ma_app m)) (sl_sequence s) (sl_callback s) (sl_args s)" by simp
  then have fit: "args_fit (sl_args s)" by (simp add: payload_owned_def)
  have "write_all (ms_write service y) [] (request_writes inbox_size (sl_sequence s) (sl_args s))"
    by (rule write_all_room [OF assms(8)]) (simp add: request_writes_size [OF fit])
  then show ?thesis using own fit by (auto simp: payload_owned_def args_fit_def)
qed

definition sample_service :: "unit message_service" where
  "sample_service = \<lparr>ms_connected = (\<lambda>_. True), ms_begin = (\<lambda>_. (APP_MSG_OK, True, ())),
     ms_write = (\<lambda>_ out t. dict_size (out @ [t]) \<le> 1280), ms_send = (\<lambda>_ _. (APP_MSG_OK, ()))\<rparr>"

theorem program_requests_owned_witness:
  "cm_dictated (ap_compose (ma_app (snd sample_dictated))) = Some [104, 105] \<and>
   write_all (ms_write sample_service ()) []
     (request_writes 2048 (sl_sequence (rl_slots (fst sample_dictated) ! 1)) (sl_args (rl_slots (fst sample_dictated) ! 1)))"
proof -
  let ?s = "rl_slots (fst sample_dictated) ! 1" and ?c = "ap_compose (ma_app (snd sample_dictated))"
  have steps: "(main_step (\<lambda>v. v) sample_views)\<^sup>*\<^sup>* (tb_requests_init (replicate 4 sample_slot) sample_ports [],
      main_init (app_init sample_app_ports False sample_heap 48 64 sample_app_media) sample_notes False [])
      (fst sample_dictated, snd sample_dictated)"
    using sample_steps by (simp add: sample_start_def)
  have room: "outbox_room sample_service TB_OUTBOX_SIZE" by (simp add: outbox_room_def sample_service_def)
  have owned: "write_all (ms_write sample_service ()) [] (request_writes 2048 (sl_sequence ?s) (sl_args ?s)) \<and>
     (\<forall>d. ra_payload (sl_args ?s) = Some d \<longrightarrow> sl_callback ?s = Some CB_DRAFT \<and> sl_sequence ?s = cm_draft_pending ?c \<and>
        cm_dictated ?c = Some d \<and> length d = unat (ra_payload_length (sl_args ?s)))"
    by (rule program_requests_owned [OF sample_laws _ _ steps _ refl sample_dictated_slot(1) room]) simp_all
  then have "cm_dictated ?c = Some [104, 105]" using sample_dictated_slot(2) by simp
  then show ?thesis using conjunct1 [OF owned] by blast
qed

end
