(* ===== verification/Spec2Isabelle.thy ===== *)
theory Spec2Isabelle
  imports Records Text Request_Facts Session Connection Image_Facts Notify Pull Gesture Scratch Format Message_Text Send_Tracker Chats History_Facts Compose Media Main_Loop
begin

text \<open>
  \<^bold>\<open>TeleBezel: the watch application.\<close> TeleBezel shows Telegram on a Pebble watch. The program of this
  development is the watch side, \<^verbatim>\<open>app/src/c\<close>: it sends numbered requests to a script on the phone and
  receives their answers as chunks of binary records. Everything that arrives from the phone is
  treated as arbitrary bytes, memory and timers may be refused at any moment, and nothing is lost
  or overrun because of it; that is what the theorems show.

  \<^bold>\<open>The parts and how they interact.\<close> \<^verbatim>\<open>main.c\<close> owns one record of each component and passes it the
  ports of the platform. A component submits requests to the one request layer
  (\<^verbatim>\<open>request_layer.c\<close>) and keeps the sequence number it was given; the layer sends, retries, times
  out and hands every chunk to the callback of its slot. The callback runs the record loop over the
  payload (\<^verbatim>\<open>codec.c\<close>), copies what it keeps through \<^verbatim>\<open>text.c\<close> and its own budget, and tells its view
  through the port \<open>changed\<close>. The picture of a message also runs through the streaming decoder
  \<^verbatim>\<open>image.c\<close>. Notifications, gestures, the pull animation and the scratch block do not use requests.

  \<^bold>\<open>Theories and sources.\<close>
  \<^item> \<open>Prelude\<close>: the integer types of C as words, buffers and C strings, the wrap-around clock, the heap
    oracle, shared lemmas on lists and words, the collections \<open>tb_simps\<close> and \<open>tb_inv\<close>.
  \<^item> \<open>Protocol\<close>: the constants of \<^verbatim>\<open>app/protocol/appmessage.json\<close>, from which the build writes
    \<^verbatim>\<open>generated/protocol.h\<close>.
  \<^item> \<open>Codec\<close>, \<open>Records\<close>: \<^verbatim>\<open>codec.h\<close>, \<^verbatim>\<open>codec.c\<close>. The cursor, the table-driven decoder and the typed
    records; then the encoder it inverts, the record loop and its contract.
  \<^item> \<open>Text\<close>: \<^verbatim>\<open>text.c\<close>. Cutting UTF-8, copying spans into fixed or allocated strings, identifiers.
  \<^item> \<open>Requests\<close>, \<open>Request_Facts\<close>: \<^verbatim>\<open>request_layer.h\<close>, \<^verbatim>\<open>request_layer.c\<close>, \<^verbatim>\<open>errors.c\<close>. Slots, sequence
    numbers, attempts, deadlines, chunks.
  \<^item> \<open>Clients\<close>: \<^verbatim>\<open>view_ports.h\<close> and what the owners of a request have in common.
  \<^item> \<open>Session\<close>: \<^verbatim>\<open>session.c\<close>. \<open>Connection\<close>: \<^verbatim>\<open>connection.c\<close>. \<open>Chats\<close>: \<^verbatim>\<open>chats.c\<close>. \<open>History\<close>,
    \<open>History_Facts\<close>: \<^verbatim>\<open>history.c\<close>. \<open>Message_Text\<close>: \<^verbatim>\<open>message_text.c\<close>. \<open>Send_Tracker\<close>:
    \<^verbatim>\<open>send_tracker.c\<close>. \<open>Compose\<close>: \<^verbatim>\<open>compose.c\<close>. \<open>Media\<close>: \<^verbatim>\<open>media.c\<close>. The clients of the request layer.
  \<^item> \<open>Image\<close>, \<open>Image_Facts\<close>: \<^verbatim>\<open>image.c\<close>. The header, row geometry, decompression, checksum.
  \<^item> \<open>Notify\<close>: \<^verbatim>\<open>notify.c\<close>. \<open>Pull\<close>: \<^verbatim>\<open>pull.c\<close>. \<open>Gesture\<close>: \<^verbatim>\<open>gesture.c\<close>. \<open>Scratch\<close>: \<^verbatim>\<open>scratch.c\<close>.
  \<^item> \<open>Format\<close>: \<^verbatim>\<open>format.c\<close>. Labels, times and counters, with the \<open>printf\<close> directives they use; the texts of
    the localization and \<open>localtime\<close> are parameters.
  \<^item> \<open>Messages\<close>: \<^verbatim>\<open>main.c\<close>. The tuples of a message: reading an answer, writing a request, and the size it takes.
  \<^item> \<open>App\<close>: \<^verbatim>\<open>main.c\<close>. The components that share the request layer, routed to their owners, the
    messages from the phone and the default account.
  \<^item> \<open>Handlers\<close>: \<^verbatim>\<open>main.c\<close>. What the program does when a component reports a change, when the user opens
    accounts, chats and messages, writes and sends or chooses from a menu, and when the phone, the timers or the
    focus report something. Calls into the windows and the platform are values of \<open>view_call\<close> given to a parameter.
  \<^item> \<open>Layer_Slots\<close>, \<open>Owners\<close>, \<open>Program\<close>, \<open>Main_Loop\<close>: no code of their own. What holds of every request in flight,
    through every operation of every component and every handler, and the program as the sequence of its events.

  \<^bold>\<open>State and operations.\<close> A struct is a \<open>record\<close> whose fields keep the names of the source after a
  two-letter prefix, an enum a \<open>datatype\<close>, an integer a \<open>word\<close> of its width. Each function of the
  source is a definition of the same name (with the component's name first where several files use
  the same static name); it returns the updated state. An operation of a client works on the pair of
  the request layer and the client. A callback is a value of \<open>TbCallback\<close> in the slot, and what the
  layer wants to deliver is returned as a \<open>delivery\<close> that the dispatcher of \<open>App\<close> runs.
  The ports of a component are functions over a context of arbitrary type, so the theorems hold
  for every platform; where a port has to behave (a timer that was armed is armed) the law is a
  hypothesis with a name (\<open>timer_laws\<close>, \<open>ports_ok\<close>) and the witness gives a platform that obeys it.
  The result of an allocation comes from an oracle in the component's state, one answer per call,
  so every pattern of failing allocations is covered. Strings are byte lists without their
  terminator; the size of the array is in the operation that writes it. Fresh pixel memory is a
  list of zeros; the decoder reads only pixels it has written, so the choice does not show. A pointer into a received payload is a span
  that keeps the whole rest of the buffer, so reading past the end is a statement one can refute.

  \<^bold>\<open>What is shown.\<close>
  \<^item> The decoder accepts exactly the encodings of the fields of its layout, the record loop runs over
    exactly the records of a payload, and no span leaves the payload (C1, C2, C3).
  \<^item> Cut text ends at the last character boundary that fits; a decimal identifier keeps its digits (C4,
    C5).
  \<^item> The request layer, in any reachable state: its slots hold distinct numbers in range, attempts stay in
    their bound, chunks arrive in order with one final delivery, the timer is set for the next
    deadline and an overdue slot is handled by the tick (C6 to C10).
  \<^item> The clients, in any interleaving of their operations with answers of any content: session (C11),
    connection (C13), message text (C26, C27), send tracker (C28 to C30), chat list (C31, C32),
    history (C34, C35), compose (C36), media (C38): indices, capacities and budgets hold, pending numbers
    match phases, stale answers change nothing. The optimised sort of the history is the stable sort of
    the library (C33), the unit counter counts UTF-16 units (C37), and a picture needs at most five
    requests whatever the phone answers (C39).
  \<^item> The picture decoder: the same result for every way to cut the stream, no write
    outside its buffers, and the inverse of the compressed format (C15 to C17); its square root is exact.
  \<^item> Notifications as a map from sources (C19, C20), the pull animation and its timer (C21, C22),
    gestures against their classification (C23, C24), scratch slots, and the
    texts of durations and clocks, which fit their buffers and can be read back (C25).
  \<^item> All of it together over one request layer (C40): also when the environment of a component is arbitrary. When
    only the events and the handlers of the program happen, every request in flight fits the outbox and points to no
    memory that its owner has given up (C12). Closing the views leaves nothing that waits (C18), and a text is
    quoted on one line without splitting a character (C14).

  \<^bold>\<open>Interfaces.\<close> \<open>record_parser\<close> is the contract of a function that handles one record of a payload:
  what it keeps, and what it says when it stops; \<open>record_handler\<close> is the case of one invariant
  and gives \<open>record_parser\<close> by a sublocale. Every client interprets one of them on its own handler.
  \<open>request_client\<close> is the contract of the owner of a pending number; every client interprets it on its
  completion. \<open>request_dispatch\<close> is what the layer asks of the callbacks it runs, \<open>request_clients\<close> adds
  what the clients ask of a delivery; \<open>App\<close> interprets it on its dispatcher, and gets the invariant
  of the whole program through messages, outbox events and ticks. \<open>request_owners\<close> extends it by what a
  request may hold while its owner is in a state; \<open>Program\<close> interprets it on the dispatcher and the payload of a draft.
  \<open>plain_requests\<close> is a predicate that requests without payload satisfy by themselves: the clients that send
  none are followed through it once, for the two predicates it is interpreted on in \<open>Owners\<close>.

  \<^bold>\<open>Loops and bounds.\<close> No definition uses fuel. Loops over an array are structural; the record loop
  decreases the rest of the payload, the attempt loop the attempts left, the search for a free
  number the distance to it, the eviction and make-room loops of the history the number of messages, the
  feed loop of a picture the bytes left, the emit loop the bytes of the operation left, the square root its bit and
  the growing text buffer the distance to the size it needs. \<open>media_fuel\<close> is not a fuel of a
  definition: it is the number of requests a picture may still make. The capacities and
  time limits are those of the headers and of \<open>init\<close> in \<^verbatim>\<open>main.c\<close>.

  \<^bold>\<open>Not modelled.\<close> The windows, layers, menus, icons, the theme and the drawing of \<^verbatim>\<open>*_window.c\<close>,
  \<^verbatim>\<open>*_view.c\<close>, \<^verbatim>\<open>touch.c\<close>, \<^verbatim>\<open>theme.c\<close>, \<^verbatim>\<open>icons.c\<close>, \<^verbatim>\<open>action_menu.c\<close>: calls into the graphics platform. Of
  \<^verbatim>\<open>main.c\<close> the log lines and the diagnostic probe. \<^verbatim>\<open>dictation.c\<close> and \<^verbatim>\<open>diag.c\<close>: wrappers
  of platform services. The phone
  script and the services behind it (JavaScript, PHP, Go, C++): their answers are arbitrary inputs of
  the model. A port \<open>changed\<close> that calls back into the component while an operation of it is
  running is not represented: the port updates the context of its own component only, and the handler behind the
  port is a step of its own.
\<close>

end
